(* ===== verification/Prelude.thy ===== *)
theory Prelude
  imports Main "HOL-Library.Word" "HOL-Library.Char_ord"
begin

text \<open>
  The vocabulary every component shares: Go strings (byte strings), the few functions of Go's
  standard library on them that the adapter calls, 64-bit machine integers, contexts, and labelled
  counters.  A Go \<^verbatim>\<open>string\<close> is a sequence of bytes, which is what HOL's \<^typ>\<open>string\<close> is; the
  literals of the source are ASCII.  A Go \<^verbatim>\<open>int\<close> that is only compared is an \<^typ>\<open>int\<close>; where the
  source computes with it and the result can leave the 64-bit range the model uses \<^typ>\<open>64 word\<close>.
\<close>

named_theorems go_defs \<open>definitions of the small Go library functions\<close>
named_theorems step_defs \<open>definitions of handlers and loop bodies\<close>

section \<open>Machine integers and time\<close>

type_synonym i64 = "64 word"
type_synonym u32 = "32 word"

text \<open>\<^verbatim>\<open>time.Duration\<close> is an int64 count of nanoseconds.\<close>

type_synonym duration = i64

definition Second :: duration where
  "Second = 1000000000"

definition Millisecond :: duration where
  "Millisecond = 1000000"

lemma sint_of_int_64:
  assumes "- (2 ^ 63) \<le> x" and "x < 2 ^ 63"
  shows "sint (word_of_int x :: i64) = x"
  using assms by (simp add: sint_sbintrunc' signed_take_bit_int_eq_self)

section \<open>Contexts\<close>

text \<open>
  The only thing the adapter asks of a \<^verbatim>\<open>context.Context\<close> is whether it is done and with which
  error: \<^verbatim>\<open>ctx.Done()\<close> is ready exactly when \<^verbatim>\<open>ctx.Err()\<close> is not nil.
\<close>

datatype ctx_error = Canceled | DeadlineExceeded

type_synonym ctx = "ctx_error option"

definition ctx_done :: "ctx \<Rightarrow> bool" where
  [go_defs]: "ctx_done c \<longleftrightarrow> c \<noteq> None"

section \<open>Strings\<close>

text \<open>\<^verbatim>\<open>fmt.Sprintf("%d", n)\<close>: decimal digits, with a leading minus for negative values.\<close>

definition digit_char :: "nat \<Rightarrow> char" where
  "digit_char d = char_of (48 + d)"

fun fmt_nat :: "nat \<Rightarrow> string" where
  "fmt_nat n = (if n < 10 then [digit_char n] else fmt_nat (n div 10) @ [digit_char (n mod 10)])"

declare fmt_nat.simps [simp del]

definition fmt_int :: "int \<Rightarrow> string" where
  "fmt_int i = (if i < 0 then CHR ''-'' # fmt_nat (nat (- i)) else fmt_nat (nat i))"

definition is_digit :: "char \<Rightarrow> bool" where
  "is_digit c \<longleftrightarrow> 48 \<le> (of_char c :: nat) \<and> (of_char c :: nat) \<le> 57"

definition digit_val :: "char \<Rightarrow> nat" where
  "digit_val c = of_char c - 48"

definition digits_val :: "string \<Rightarrow> nat" where
  "digits_val s = foldl (\<lambda>a c. 10 * a + digit_val c) 0 s"

lemma digit_char_props [simp]:
  assumes "d < 10"
  shows "is_digit (digit_char d)" and "digit_val (digit_char d) = d"
  using assms by (simp_all add: is_digit_def digit_val_def digit_char_def)

lemma digit_char_numeral [simp]:
  "digit_char 0 = CHR ''0''" "digit_char (Suc 0) = CHR ''1''" "digit_char 1 = CHR ''1''"
  "digit_char 2 = CHR ''2''" "digit_char 3 = CHR ''3''" "digit_char 4 = CHR ''4''"
  "digit_char 5 = CHR ''5''" "digit_char 6 = CHR ''6''" "digit_char 7 = CHR ''7''"
  "digit_char 8 = CHR ''8''" "digit_char 9 = CHR ''9''"
  by (simp_all add: digit_char_def char_of_def bit_0)

lemma fmt_nat_numeral:
  "fmt_nat (numeral k) = (if numeral k < (10 :: nat) then [digit_char (numeral k)]
     else fmt_nat (numeral k div 10) @ [digit_char (numeral k mod 10)])"
  by (rule fmt_nat.simps)

lemma fmt_nat_digit: "n < 10 \<Longrightarrow> fmt_nat n = [digit_char n]"
  by (simp add: fmt_nat.simps [of n])

lemmas fmt_eval = fmt_int_def fmt_nat_numeral fmt_nat_digit

lemma fmt_nat_nonempty [simp]: "fmt_nat n \<noteq> []"
  by (subst fmt_nat.simps) simp

lemma fmt_nat_digits: "\<forall>c \<in> set (fmt_nat n). is_digit c"
proof (induction n rule: fmt_nat.induct)
  case (1 n)
  then show ?case by (cases "n < 10") (auto simp: fmt_nat.simps [of n])
qed

text \<open>Printing then reading a number gives the number back.\<close>

lemma digits_val_snoc [simp]: "digits_val (s @ [c]) = 10 * digits_val s + digit_val c"
  by (simp add: digits_val_def)

lemma digits_val_fmt_nat [simp]: "digits_val (fmt_nat n) = n"
proof (induction n rule: fmt_nat.induct)
  case (1 n)
  then show ?case
    by (cases "n < 10") (simp_all add: fmt_nat.simps [of n] digits_val_def)
qed

lemma inj_fmt_nat: "fmt_nat m = fmt_nat n \<longleftrightarrow> m = n"
  by (metis digits_val_fmt_nat)

lemma length_fmt_nat: "n < 10 ^ k \<Longrightarrow> 0 < k \<Longrightarrow> length (fmt_nat n) \<le> k"
proof (induction n arbitrary: k rule: fmt_nat.induct)
  case (1 n)
  show ?case
  proof (cases "n < 10")
    case True
    then show ?thesis using 1 by (simp add: fmt_nat.simps [of n])
  next
    case False
    then obtain j where k: "k = Suc j" "0 < j"
      using 1 by (cases k; cases "k - 1") auto
    then have "n div 10 < 10 ^ j" using 1 by auto
    then have "length (fmt_nat (n div 10)) \<le> j" using 1 False k by blast
    with False k show ?thesis by (simp add: fmt_nat.simps [of n])
  qed
qed

text \<open>\<^verbatim>\<open>strings.Split(s, sep)\<close> for a one-byte separator: never empty, one piece more than separators.\<close>

fun split_on :: "char \<Rightarrow> string \<Rightarrow> string list" where
  "split_on c [] = [[]]"
| "split_on c (x # xs) =
     (if x = c then [] # split_on c xs
      else case split_on c xs of [] \<Rightarrow> [[x]] | p # ps \<Rightarrow> (x # p) # ps)"

lemma split_on_nonempty [simp]: "split_on c s \<noteq> []"
  by (cases s) (auto split: list.splits)

lemma split_on_none: "c \<notin> set s \<Longrightarrow> split_on c s = [s]"
  by (induction s) auto

lemma split_on_append: "c \<notin> set s \<Longrightarrow> split_on c (s @ c # t) = s # split_on c t"
  by (induction s) auto

text \<open>Joining with a separator, as \<^verbatim>\<open>strings.Builder\<close> loops and \<^verbatim>\<open>strings.Join\<close> do.\<close>

fun join :: "string \<Rightarrow> string list \<Rightarrow> string" where
  "join sep [] = []"
| "join sep [x] = x"
| "join sep (x # y # ys) = x @ sep @ join sep (y # ys)"

lemma join_Cons: "ys \<noteq> [] \<Longrightarrow> join sep (x # ys) = x @ sep @ join sep ys"
  by (cases ys) auto

lemma join_Cons_Cons: "join sep ((x # p) # ps) = x # join sep (p # ps)"
  by (cases ps) auto

lemma join_concat: "join sep (x # xs) = concat (x # map (\<lambda>v. sep @ v) xs)"
  by (induction xs arbitrary: x) simp_all

lemma join_split_on: "join [c] (split_on c s) = s"
proof (induction s)
  case (Cons x xs)
  then show ?case
    by (cases "split_on c xs") (auto simp: join_Cons join_Cons_Cons)
qed simp

section \<open>Labelled counters\<close>

text \<open>
  A Prometheus counter vector: one count per label value.  \<^verbatim>\<open>WithLabelValues(l).Inc()\<close> is
  \<open>bump\<close>, \<^verbatim>\<open>Add(n)\<close> is \<open>bump_by\<close>.
\<close>

type_synonym 'l counter = "'l \<Rightarrow> nat"

definition bump_by :: "nat \<Rightarrow> 'l \<Rightarrow> 'l counter \<Rightarrow> 'l counter" where
  "bump_by n l c = c(l := c l + n)"

abbreviation bump :: "'l \<Rightarrow> 'l counter \<Rightarrow> 'l counter" where
  "bump \<equiv> bump_by 1"

lemma bump_by_same [simp]: "bump_by n l c l = c l + n"
  by (simp add: bump_by_def)

lemma bump_by_other [simp]: "k \<noteq> l \<Longrightarrow> bump_by n l c k = c k"
  by (simp add: bump_by_def)

lemma bump_by_apply: "bump_by n l c k = c k + (if k = l then n else 0)"
  by (simp add: bump_by_def)

section \<open>Lists\<close>

lemma map_map2_snd_irrelevant:
  assumes "\<And>x t. f (g x t) = h x" and "length xs = length ts"
  shows "map f (map2 g xs ts) = map h xs"
  using assms(2) by (induction xs ts rule: list_induct2) (simp_all add: assms(1))

lemma concat_map_list_update:
  assumes "i < length xs"
  shows "concat (map f (xs[i := y])) = concat (map f (take i xs)) @ f y @ concat (map f (drop (Suc i) xs))"
    and "concat (map f xs) = concat (map f (take i xs)) @ f (xs ! i) @ concat (map f (drop (Suc i) xs))"
proof -
  show "concat (map f (xs[i := y])) = concat (map f (take i xs)) @ f y @ concat (map f (drop (Suc i) xs))"
    using assms by (simp add: upd_conv_take_nth_drop)
  have "xs = take i xs @ xs ! i # drop (Suc i) xs" using assms by (rule id_take_nth_drop)
  then show "concat (map f xs) = concat (map f (take i xs)) @ f (xs ! i) @ concat (map f (drop (Suc i) xs))"
    by (metis concat_append list.simps(9) map_append concat.simps(2))
qed

end
