(* ===== verification/Bounded_Queue.thy ===== *)
theory Bounded_Queue
  imports Prelude
begin

text \<open>
  Go channels and the contract the adapter's four buffers share: the event queue
  (\<^verbatim>\<open>internal/queue\<close>), the writer's message channel (\<^verbatim>\<open>internal/kafka/writer.go\<close>), the channel
  between the gRPC stream and the event loop (\<^verbatim>\<open>internal/grpc/stream.go\<close>) and the log channel
  (\<^verbatim>\<open>internal/logger/kafka_core.go\<close>).  Each is filled by a send that does not block and drops when
  the buffer is full, and emptied from the front.  The locale \<open>bounded_queue\<close> states that contract
  against an abstract bounded list, \<open>counting_queue\<close> adds the drop counter; the components
  interpret them on their own operations.
\<close>

section \<open>Buffered channels\<close>

record 'a chan =
  chan_buf :: "'a list"
  chan_cap :: nat
  chan_closed :: bool

definition make_chan :: "nat \<Rightarrow> 'a chan" where
  "make_chan n = \<lparr>chan_buf = [], chan_cap = n, chan_closed = False\<rparr>"

text \<open>
  A send is ready when the buffer has room, it panics when the channel is closed (also as a case
  of a \<^verbatim>\<open>select\<close> with a default), and otherwise it is not ready.  A receive is ready when the buffer
  is not empty or the channel is closed, in the latter case with the zero value and \<open>ok = false\<close>.
\<close>

datatype 'a send_result = Sent "'a chan" | SendBlocks | SendPanics

definition chan_send :: "'a chan \<Rightarrow> 'a \<Rightarrow> 'a send_result" where
  "chan_send c v =
     (if chan_closed c then SendPanics
      else if length (chan_buf c) < chan_cap c then Sent (c\<lparr>chan_buf := chan_buf c @ [v]\<rparr>)
      else SendBlocks)"

datatype 'a recv_result = Received 'a "'a chan" | RecvClosed | RecvBlocks

definition chan_recv :: "'a chan \<Rightarrow> 'a recv_result" where
  "chan_recv c =
     (case chan_buf c of
        v # vs \<Rightarrow> Received v (c\<lparr>chan_buf := vs\<rparr>)
      | [] \<Rightarrow> if chan_closed c then RecvClosed else RecvBlocks)"

text \<open>\<^verbatim>\<open>close\<close> of a closed channel panics.\<close>

definition chan_close :: "'a chan \<Rightarrow> 'a chan option" where
  "chan_close c = (if chan_closed c then None else Some (c\<lparr>chan_closed := True\<rparr>))"

definition chan_len :: "'a chan \<Rightarrow> nat" where
  "chan_len c = length (chan_buf c)"

definition chan_wf :: "'a chan \<Rightarrow> bool" where
  "chan_wf c \<longleftrightarrow> chan_len c \<le> chan_cap c"

lemma chan_send_Sent:
  "chan_send c v = Sent c' \<longleftrightarrow>
     \<not> chan_closed c \<and> length (chan_buf c) < chan_cap c \<and> c' = c\<lparr>chan_buf := chan_buf c @ [v]\<rparr>"
  by (auto simp: chan_send_def)

lemma chan_send_SendBlocks:
  "chan_send c v = SendBlocks \<longleftrightarrow> \<not> chan_closed c \<and> chan_cap c \<le> length (chan_buf c)"
  by (auto simp: chan_send_def)

lemma chan_send_SendPanics [simp]: "chan_send c v = SendPanics \<longleftrightarrow> chan_closed c"
  by (auto simp: chan_send_def)

lemma chan_recv_Received:
  "chan_recv c = Received v c' \<longleftrightarrow> (\<exists>vs. chan_buf c = v # vs \<and> c' = c\<lparr>chan_buf := vs\<rparr>)"
  by (auto simp: chan_recv_def split: list.splits if_splits)

lemma chan_recv_RecvClosed:
  "chan_recv c = RecvClosed \<longleftrightarrow> chan_buf c = [] \<and> chan_closed c"
  by (auto simp: chan_recv_def split: list.splits if_splits)

lemma chan_recv_RecvBlocks:
  "chan_recv c = RecvBlocks \<longleftrightarrow> chan_buf c = [] \<and> \<not> chan_closed c"
  by (auto simp: chan_recv_def split: list.splits if_splits)

lemmas chan_results = chan_send_Sent chan_send_SendBlocks
  chan_recv_Received chan_recv_RecvClosed chan_recv_RecvBlocks

lemma chan_wf_make [simp]: "chan_wf (make_chan n)"
  by (simp add: chan_wf_def chan_len_def make_chan_def)

lemma chan_wf_send: "chan_wf c \<Longrightarrow> chan_send c v = Sent c' \<Longrightarrow> chan_wf c'"
  by (auto simp: chan_wf_def chan_len_def chan_results)

lemma chan_wf_recv: "chan_wf c \<Longrightarrow> chan_recv c = Received v c' \<Longrightarrow> chan_wf c'"
  by (auto simp: chan_wf_def chan_len_def chan_results)

section \<open>The abstract bounded queue\<close>

text \<open>
  What a user of a dropping buffer may rely on: a list of at most \<open>n\<close> elements, an element
  offered to a full list is refused and counted, elements leave in the order they entered.
\<close>

datatype 'a queue_op = Put 'a | Get
datatype 'a queue_obs = PutResult bool | GotResult "'a option"

record 'a spec_queue =
  sq_items :: "'a list"
  sq_bound :: nat
  sq_dropped :: nat

fun spec_step :: "'a queue_op \<Rightarrow> 'a spec_queue \<Rightarrow> 'a queue_obs \<times> 'a spec_queue" where
  "spec_step (Put x) q =
     (if length (sq_items q) < sq_bound q
      then (PutResult True, q\<lparr>sq_items := sq_items q @ [x]\<rparr>)
      else (PutResult False, q\<lparr>sq_dropped := Suc (sq_dropped q)\<rparr>))"
| "spec_step Get q =
     (case sq_items q of
        [] \<Rightarrow> (GotResult None, q)
      | x # xs \<Rightarrow> (GotResult (Some x), q\<lparr>sq_items := xs\<rparr>))"

fun spec_run :: "'a queue_op list \<Rightarrow> 'a spec_queue \<Rightarrow> 'a queue_obs list \<times> 'a spec_queue" where
  "spec_run [] q = ([], q)"
| "spec_run (x # xs) q =
     (let (ob, q') = spec_step x q; (obs, q'') = spec_run xs q' in (ob # obs, q''))"

text \<open>The elements accepted, offered and delivered in a run, read off its observations.\<close>

fun accepted :: "'a queue_op list \<Rightarrow> 'a queue_obs list \<Rightarrow> 'a list" where
  "accepted (Put x # xs) (PutResult True # obs) = x # accepted xs obs"
| "accepted (_ # xs) (_ # obs) = accepted xs obs"
| "accepted _ _ = []"

fun delivered :: "'a queue_obs list \<Rightarrow> 'a list" where
  "delivered [] = []"
| "delivered (GotResult (Some x) # obs) = x # delivered obs"
| "delivered (_ # obs) = delivered obs"

fun offered :: "'a queue_op list \<Rightarrow> 'a list" where
  "offered [] = []"
| "offered (Put x # xs) = x # offered xs"
| "offered (Get # xs) = offered xs"

lemma spec_step_bound [simp]: "sq_bound (snd (spec_step x q)) = sq_bound q"
  by (cases x) (auto split: list.splits)

lemma spec_step_within:
  "length (sq_items q) \<le> sq_bound q \<Longrightarrow> length (sq_items (snd (spec_step x q))) \<le> sq_bound q"
  by (cases x) (auto split: list.splits)

text \<open>Conservation and order: what was in the queue and what was accepted is what was delivered,
  in the same order, followed by what is still in the queue.\<close>

lemma spec_run_fifo:
  "spec_run xs q = (obs, q') \<Longrightarrow>
   sq_items q @ accepted xs obs = delivered obs @ sq_items q'"
proof (induction xs arbitrary: q obs q')
  case Nil
  then show ?case by simp
next
  case (Cons x xs)
  obtain ob q1 where s: "spec_step x q = (ob, q1)" by fastforce
  obtain obs1 q2 where r: "spec_run xs q1 = (obs1, q2)" by fastforce
  have out: "obs = ob # obs1" "q' = q2" using Cons.prems s r by auto
  have ih: "sq_items q1 @ accepted xs obs1 = delivered obs1 @ sq_items q2" using Cons.IH [OF r] .
  show ?case
    using s ih out
    by (cases x) (auto split: if_splits list.splits)
qed

text \<open>Every offered element is accepted or counted as dropped.\<close>

lemma spec_run_accounting:
  "spec_run xs q = (obs, q') \<Longrightarrow>
   length (offered xs) + sq_dropped q = length (accepted xs obs) + sq_dropped q'"
proof (induction xs arbitrary: q obs q')
  case (Cons x xs)
  obtain ob q1 where s: "spec_step x q = (ob, q1)" by fastforce
  obtain obs1 q2 where r: "spec_run xs q1 = (obs1, q2)" by fastforce
  have ih: "length (offered xs) + sq_dropped q1 = length (accepted xs obs1) + sq_dropped q2"
    using Cons.IH [OF r] .
  show ?case
    using s r ih Cons.prems
    by (cases x) (auto split: if_splits list.splits)
qed simp

lemma spec_run_within:
  "spec_run xs q = (obs, q') \<Longrightarrow> length (sq_items q) \<le> sq_bound q \<Longrightarrow>
   length (sq_items q') \<le> sq_bound q' \<and> sq_bound q' = sq_bound q"
proof (induction xs arbitrary: q obs q')
  case (Cons x xs)
  obtain ob q1 where s: "spec_step x q = (ob, q1)" by fastforce
  obtain obs1 q2 where r: "spec_run xs q1 = (obs1, q2)" by fastforce
  have b: "sq_bound q1 = sq_bound q" using spec_step_bound [of x q] s by simp
  then have "length (sq_items q1) \<le> sq_bound q1"
    using spec_step_within [OF Cons.prems(2), of x] s by simp
  then show ?case using Cons.IH [OF r] r s b Cons.prems by auto
qed simp

section \<open>The contract as locales\<close>

text \<open>A run of a concrete buffer, with its own operations as arguments.\<close>

fun impl_run ::
  "('q \<Rightarrow> 'a \<Rightarrow> bool \<times> 'q) \<Rightarrow> ('q \<Rightarrow> ('a \<times> 'q) option) \<Rightarrow> 'a queue_op list \<Rightarrow> 'q
    \<Rightarrow> 'a queue_obs list \<times> 'q" where
  "impl_run put get [] q = ([], q)"
| "impl_run put get (Put x # xs) q =
     (let (ok, q') = put q x; (obs, q'') = impl_run put get xs q' in (PutResult ok # obs, q''))"
| "impl_run put get (Get # xs) q =
     (case get q of
        None \<Rightarrow> (let (obs, q'') = impl_run put get xs q in (GotResult None # obs, q''))
      | Some (x, q') \<Rightarrow>
          (let (obs, q'') = impl_run put get xs q' in (GotResult (Some x) # obs, q'')))"

locale bounded_queue =
  fixes items :: "'q \<Rightarrow> 'a list"
    and bound :: "'q \<Rightarrow> nat"
    and put :: "'q \<Rightarrow> 'a \<Rightarrow> bool \<times> 'q"
    and get :: "'q \<Rightarrow> ('a \<times> 'q) option"
    and invar :: "'q \<Rightarrow> bool"
  assumes put_accepts: "invar q \<Longrightarrow> fst (put q x) \<longleftrightarrow> length (items q) < bound q"
    and put_items: "invar q \<Longrightarrow>
      items (snd (put q x)) = (if length (items q) < bound q then items q @ [x] else items q)"
    and put_bound: "invar q \<Longrightarrow> bound (snd (put q x)) = bound q"
    and put_invar: "invar q \<Longrightarrow> invar (snd (put q x))"
    and get_None: "invar q \<Longrightarrow> get q = None \<longleftrightarrow> items q = []"
    and get_Some: "invar q \<Longrightarrow> get q = Some (x, q') \<Longrightarrow>
      items q = x # items q' \<and> bound q' = bound q \<and> invar q'"
begin

lemma run_fifo:
  assumes "invar q" and "impl_run put get xs q = (obs, q')"
  shows "items q @ accepted xs obs = delivered obs @ items q' \<and> bound q' = bound q \<and> invar q'"
  using assms
proof (induction xs arbitrary: q obs)
  case Nil
  then show ?case by simp
next
  case (Cons x xs)
  show ?case
  proof (cases x)
    case (Put v)
    obtain ok q1 where p: "put q v = (ok, q1)" by fastforce
    obtain obs1 q2 where r: "impl_run put get xs q1 = (obs1, q2)" by fastforce
    have out: "obs = PutResult ok # obs1" "q' = q2" using Cons.prems(2) p r Put by auto
    have q1: "invar q1" "bound q1 = bound q" "ok \<longleftrightarrow> length (items q) < bound q"
      "items q1 = (if length (items q) < bound q then items q @ [v] else items q)"
      using put_invar [OF Cons.prems(1), of v] put_bound [OF Cons.prems(1), of v]
        put_items [OF Cons.prems(1), of v] put_accepts [OF Cons.prems(1), of v] p by auto
    have ih: "items q1 @ accepted xs obs1 = delivered obs1 @ items q2 \<and> bound q2 = bound q1 \<and> invar q2"
      using Cons.IH [OF q1(1)] r out by blast
    show ?thesis using ih q1 out Put by (cases ok) auto
  next
    case Get
    show ?thesis
    proof (cases "get q")
      case None
      obtain obs1 q2 where r: "impl_run put get xs q = (obs1, q2)" by fastforce
      have out: "obs = GotResult None # obs1" "q' = q2" using Cons.prems(2) r Get None by auto
      show ?thesis using Cons.IH [OF Cons.prems(1), of obs1] r out Get by simp
    next
      case (Some a)
      obtain v q1 where a: "a = (v, q1)" by fastforce
      have q1: "items q = v # items q1" "bound q1 = bound q" "invar q1"
        using get_Some [OF Cons.prems(1)] Some a by auto
      obtain obs1 q2 where r: "impl_run put get xs q1 = (obs1, q2)" by fastforce
      have out: "obs = GotResult (Some v) # obs1" "q' = q2"
        using Cons.prems(2) r Get Some a by auto
      show ?thesis using Cons.IH [OF q1(3), of obs1] r out Get q1 by simp
    qed
  qed
qed

end

locale counting_queue = bounded_queue +
  fixes dropped :: "'q \<Rightarrow> nat"
  assumes put_dropped: "invar q \<Longrightarrow>
      dropped (snd (put q x)) = dropped q + (if length (items q) < bound q then 0 else 1)"
    and get_dropped: "invar q \<Longrightarrow> get q = Some (x, q') \<Longrightarrow> dropped q' = dropped q"
begin

definition abs_queue :: "'q \<Rightarrow> 'a spec_queue" where
  "abs_queue q = \<lparr>sq_items = items q, sq_bound = bound q, sq_dropped = dropped q\<rparr>"

text \<open>One operation on the buffer is one step of the specification.\<close>

lemma put_refines:
  "invar q \<Longrightarrow> put q x = (ok, q') \<Longrightarrow> spec_step (Put x) (abs_queue q) = (PutResult ok, abs_queue q')"
  using put_accepts [of q x] put_items [of q x] put_bound [of q x] put_dropped [of q x]
  by (auto simp: abs_queue_def)

lemma get_None_refines:
  "invar q \<Longrightarrow> get q = None \<Longrightarrow> spec_step Get (abs_queue q) = (GotResult None, abs_queue q)"
  using get_None [of q] by (auto simp: abs_queue_def)

lemma get_Some_refines:
  "invar q \<Longrightarrow> get q = Some (x, q') \<Longrightarrow>
   spec_step Get (abs_queue q) = (GotResult (Some x), abs_queue q')"
  using get_Some [of q x q'] get_dropped [of q x q'] by (auto simp: abs_queue_def)

theorem run_refines:
  assumes "invar q"
  shows "spec_run xs (abs_queue q) = apsnd abs_queue (impl_run put get xs q)"
  using assms
proof (induction xs arbitrary: q)
  case Nil
  then show ?case by simp
next
  case (Cons x xs)
  show ?case
  proof (cases x)
    case (Put v)
    obtain ok q1 where p: "put q v = (ok, q1)" by fastforce
    have "invar q1" using put_invar [OF Cons.prems, of v] p by simp
    from Cons.IH [OF this] put_refines [OF Cons.prems p] p Put show ?thesis
      by (auto simp: Let_def split: prod.splits simp del: spec_step.simps)
  next
    case Get
    show ?thesis
    proof (cases "get q")
      case None
      from Cons.IH [OF Cons.prems] get_None_refines [OF Cons.prems None] None Get show ?thesis
        by (auto simp: Let_def split: prod.splits simp del: spec_step.simps)
    next
      case (Some a)
      obtain v q1 where a: "a = (v, q1)" by fastforce
      have "invar q1" using get_Some [OF Cons.prems] Some a by auto
      from Cons.IH [OF this] get_Some_refines [OF Cons.prems] Some a Get show ?thesis
        by (auto simp: Let_def split: prod.splits simp del: spec_step.simps)
    qed
  qed
qed

corollary run_accounting:
  assumes "invar q" and "impl_run put get xs q = (obs, q')"
  shows "length (offered xs) + dropped q = length (accepted xs obs) + dropped q'"
  using spec_run_accounting [of xs "abs_queue q" obs "abs_queue q'"] run_refines [OF assms(1), of xs]
    assms(2) by (simp add: abs_queue_def)

corollary run_within:
  assumes "invar q" and "impl_run put get xs q = (obs, q')" and "length (items q) \<le> bound q"
  shows "length (items q') \<le> bound q"
  using spec_run_within [of xs "abs_queue q" obs "abs_queue q'"] run_refines [OF assms(1), of xs]
    assms(2,3) by (simp add: abs_queue_def)

end

section \<open>A channel with a dropping send\<close>

text \<open>The select-with-default send on an open channel, and the receive: the contract holds.\<close>

definition chan_put :: "'a chan \<Rightarrow> 'a \<Rightarrow> bool \<times> 'a chan" where
  "chan_put c v = (case chan_send c v of Sent c' \<Rightarrow> (True, c') | _ \<Rightarrow> (False, c))"

definition chan_get :: "'a chan \<Rightarrow> ('a \<times> 'a chan) option" where
  "chan_get c = (case chan_recv c of Received v c' \<Rightarrow> Some (v, c') | _ \<Rightarrow> None)"

definition chan_open :: "'a chan \<Rightarrow> bool" where
  "chan_open c \<longleftrightarrow> \<not> chan_closed c"

lemma chan_put_simp:
  "chan_open c \<Longrightarrow> chan_put c v =
    (if length (chan_buf c) < chan_cap c then (True, c\<lparr>chan_buf := chan_buf c @ [v]\<rparr>) else (False, c))"
  by (auto simp: chan_put_def chan_send_def chan_open_def)

lemma chan_get_simp:
  "chan_get c = (case chan_buf c of [] \<Rightarrow> None | v # vs \<Rightarrow> Some (v, c\<lparr>chan_buf := vs\<rparr>))"
  by (auto simp: chan_get_def chan_recv_def split: list.splits)

interpretation gochan: bounded_queue chan_buf chan_cap chan_put chan_get chan_open
  by unfold_locales
    (auto simp: chan_put_simp chan_get_simp chan_open_def split: list.splits)

end
