(* ===== verification/Tetragon.thy ===== *)
theory Tetragon
  imports Prelude
begin

text \<open>
  The Tetragon event as the adapter sees it.  \<^verbatim>\<open>GetEventsResponse\<close> is generated protobuf code that is
  not part of the repository; this theory has the fields the adapter reads through its getters, and
  one opaque field for everything else, so that serialisation (a parameter wherever it is used) can
  depend on the whole event.  A pointer that may be nil is an \<open>option\<close>.
\<close>

record pod =
  pod_Namespace :: string
  pod_Name :: string
  pod_Container :: "string option"   \<comment> \<open>the container's name, \<open>None\<close> for a nil container\<close>

record process =
  proc_Pid :: "u32 option"           \<comment> \<open>\<^verbatim>\<open>*wrapperspb.UInt32Value\<close>\<close>
  proc_Binary :: string
  proc_Pod :: "pod option"

record process_event =
  pe_Process :: "process option"
  pe_Parent :: "process option"

text \<open>
  The \<^verbatim>\<open>oneof\<close>: at most one message is set.  The adapter asks for five of its cases by name; every
  other case (\<^verbatim>\<open>process_lsm\<close>, \<^verbatim>\<open>process_uprobe\<close>, \<^verbatim>\<open>process_loader\<close>, \<dots>) is \<open>OtherEvent\<close> with the name of
  its field.
\<close>

datatype payload =
    NoEvent
  | ProcessExec process_event
  | ProcessExit process_event
  | ProcessKprobe process_event
  | ProcessTracepoint process_event
  | Test
  | OtherEvent string

record timestamp =
  ts_Seconds :: i64
  ts_Nanos :: u32

record event =
  ev_Payload :: payload
  ev_NodeName :: string
  ev_Time :: "timestamp option"
  ev_Rest :: string

section \<open>Getters\<close>

fun GetProcessExec :: "event \<Rightarrow> process_event option" where
  "GetProcessExec e = (case ev_Payload e of ProcessExec p \<Rightarrow> Some p | _ \<Rightarrow> None)"

fun GetProcessExit :: "event \<Rightarrow> process_event option" where
  "GetProcessExit e = (case ev_Payload e of ProcessExit p \<Rightarrow> Some p | _ \<Rightarrow> None)"

fun GetProcessKprobe :: "event \<Rightarrow> process_event option" where
  "GetProcessKprobe e = (case ev_Payload e of ProcessKprobe p \<Rightarrow> Some p | _ \<Rightarrow> None)"

fun GetProcessTracepoint :: "event \<Rightarrow> process_event option" where
  "GetProcessTracepoint e = (case ev_Payload e of ProcessTracepoint p \<Rightarrow> Some p | _ \<Rightarrow> None)"

fun GetTest :: "event \<Rightarrow> unit option" where
  "GetTest e = (case ev_Payload e of Test \<Rightarrow> Some () | _ \<Rightarrow> None)"

text \<open>
  \<^verbatim>\<open>AsTime().UnixNano()\<close>: \<^verbatim>\<open>time.Unix(seconds, nanos)\<close> and back, in int64 arithmetic, which wraps for
  instants outside 1678--2262.
\<close>

definition unix_nano :: "timestamp \<Rightarrow> i64" where
  "unix_nano t = ts_Seconds t * 1000000000 + scast (ts_Nanos t)"

text \<open>The process events of an event, whichever of the four kinds it is.\<close>

fun payload_process_event :: "payload \<Rightarrow> process_event option" where
  "payload_process_event (ProcessExec p) = Some p"
| "payload_process_event (ProcessExit p) = Some p"
| "payload_process_event (ProcessKprobe p) = Some p"
| "payload_process_event (ProcessTracepoint p) = Some p"
| "payload_process_event _ = None"

text \<open>Example events, used by the witnesses of several components.\<close>

definition example_process :: process where
  "example_process = \<lparr>proc_Pid = Some 42, proc_Binary = ''/bin/sh'',
     proc_Pod = Some \<lparr>pod_Namespace = ''default'', pod_Name = ''web-0'',
       pod_Container = Some ''web''\<rparr>\<rparr>"

definition example_event :: event where
  "example_event = \<lparr>ev_Payload = ProcessExec \<lparr>pe_Process = Some example_process, pe_Parent = None\<rparr>,
     ev_NodeName = ''node-a'', ev_Time = Some \<lparr>ts_Seconds = 1, ts_Nanos = 5\<rparr>, ev_Rest = ''''\<rparr>"

lemmas example_defs = example_process_def example_event_def

end
