(* ===== verification/Config.thy ===== *)
theory Config
  imports Complex_Main Prelude
begin

text \<open>
  \<^verbatim>\<open>internal/config/config.go\<close>: the configuration tree, its defaults and the reconnect backoff.
  A field keeps the name of the Go field, with the struct's name in front where two structs share
  it.  An \<^verbatim>\<open>int\<close> field is an \<^typ>\<open>int\<close>; a \<^verbatim>\<open>float64\<close> is a \<open>f64\<close>, whose comparisons are IEEE's.
\<close>

section \<open>float64\<close>

text \<open>The values of a float64 as far as order is concerned: every finite double is a rational.\<close>

datatype f64 = NaN | NegInf | Fin rat | PosInf

fun f64_less :: "f64 \<Rightarrow> f64 \<Rightarrow> bool" where
  "f64_less NaN _ = False"
| "f64_less _ NaN = False"
| "f64_less PosInf _ = False"
| "f64_less _ PosInf = True"
| "f64_less NegInf y = (y \<noteq> NegInf)"
| "f64_less (Fin x) (Fin y) = (x < y)"
| "f64_less (Fin x) NegInf = False"

definition f64_leq :: "f64 \<Rightarrow> f64 \<Rightarrow> bool" where
  "f64_leq x y \<longleftrightarrow> f64_less x y \<or> (x = y \<and> x \<noteq> NaN)"

lemma f64_less_NaN [simp]: "\<not> f64_less x NaN" "\<not> f64_less NaN x"
  by (cases x; simp)+

lemma f64_less_irrefl [simp]: "\<not> f64_less x x"
  by (cases x) auto

lemma f64_leq_NaN [simp]: "\<not> f64_leq x NaN" "\<not> f64_leq NaN x"
  by (simp_all add: f64_leq_def)

lemma f64_total: "x \<noteq> NaN \<Longrightarrow> y \<noteq> NaN \<Longrightarrow> f64_less x y \<or> f64_leq y x"
  by (cases x; cases y) (auto simp: f64_leq_def)

lemma f64_leq_Fin [simp]: "f64_leq (Fin x) (Fin y) \<longleftrightarrow> x \<le> y"
  by (auto simp: f64_leq_def)

section \<open>The configuration tree\<close>

record TLSConfig =
  TLS_Enabled :: bool
  TLS_CACert :: string
  TLS_ClientCert :: string
  TLS_ClientKey :: string

record ReconnectConfig =
  InitialBackoffSeconds :: int
  MaxBackoffSeconds :: int
  MaxAttempts :: int
  Jitter :: bool

record StreamConfig =
  MaxQueue :: int
  DropIfQueueFull :: bool
  SampleRatio :: f64
  Reconnect :: ReconnectConfig

record TetragonConfig =
  GRPCAddr :: string
  Tetragon_TLS :: TLSConfig
  Stream :: StreamConfig

record BatchConfig =
  MaxMessages :: int
  MaxBytes :: int
  FlushIntervalMs :: int

record SASLConfig =
  SASL_Enabled :: bool
  Mechanism :: string
  Username :: string
  PasswordFile :: string

record TopicAdminConfig =
  AutoCreate :: bool
  Partitions :: int
  ReplicationFactor :: "16 word option"
  CleanupPolicy :: string
  MinCleanableDirtyRatio :: string
  RetentionMs :: int

record ProducerConfig =
  EnableIdempotence :: bool

record KafkaConfig =
  Brokers :: "string list"
  ClientID :: string
  Acks :: string
  Compression :: string
  MaxMessageBytes :: int
  Batch :: BatchConfig
  WriterWorkers :: int
  Kafka_TLS :: TLSConfig
  SASL :: SASLConfig
  TopicAdmin :: TopicAdminConfig
  Kafka_Producer :: ProducerConfig

record PartitionKeyConfig =
  PartitionKey_Mode :: string
  Fields :: "string list"
  Separator :: string

record RoutingConfig =
  Topics :: "string \<rightharpoonup> string"
  PartitionKey :: PartitionKeyConfig

record SchemaConfig =
  Version :: int
  Schema_Mode :: string
  Schema_Format :: string
  IncludeRaw :: bool

record DataTransformLogConfig =
  DataTransform_Enabled :: bool
  DataTransform_SampleRatio :: f64
  LogOriginal :: bool
  LogNormalized :: bool
  LogFinal :: bool

record FileLogConfig =
  File_Path :: string
  MaxSizeMB :: int
  MaxBackups :: int
  MaxAgeDays :: int

record ConsoleLogConfig =
  Console_Enabled :: bool

record KafkaLogConfig =
  KafkaLog_Enabled :: bool
  KafkaLog_Topic :: string

record LoggerConfig =
  Level :: string
  Logger_Format :: string
  Output :: "string list"
  Console :: ConsoleLogConfig
  File :: FileLogConfig
  Logger_Kafka :: KafkaLogConfig
  DataTransform :: DataTransformLogConfig

record MonitoringConfig =
  Monitoring_Enabled :: bool
  HealthPort :: int
  MetricsPort :: int
  PprofEnabled :: bool
  PprofPort :: int

record Config =
  Tetragon :: TetragonConfig
  Kafka :: KafkaConfig
  Routing :: RoutingConfig
  Schema :: SchemaConfig
  Logger :: LoggerConfig
  Monitoring :: MonitoringConfig

section \<open>Defaults\<close>

text \<open>Fields a composite literal leaves out have their zero value.\<close>

definition TLSConfig_zero :: TLSConfig where
  "TLSConfig_zero = \<lparr>TLS_Enabled = False, TLS_CACert = [], TLS_ClientCert = [], TLS_ClientKey = []\<rparr>"

definition default_topics :: "string \<rightharpoonup> string" where
  "default_topics = map_of
     [(''process_exec'', ''tetragon.process.exec''),
      (''process_exit'', ''tetragon.process.exit''),
      (''process_lsm'', ''tetragon.security.lsm''),
      (''process_kprobe'', ''tetragon.syscall.kprobe''),
      (''process_tracepoint'', ''tetragon.kernel.tracepoint''),
      (''unknown'', ''tetragon.unknown''),
      (''dlq'', ''tetragon.dlq'')]"

definition default_partition_key :: PartitionKeyConfig where
  "default_partition_key = \<lparr>PartitionKey_Mode = ''deduplication'',
     Fields = [''node'', ''type'', ''process.pid'', ''timestamp''], Separator = '':''\<rparr>"

definition DefaultConfig :: Config where
  "DefaultConfig = \<lparr>
     Tetragon = \<lparr>GRPCAddr = ''localhost:54321'', Tetragon_TLS = TLSConfig_zero,
       Stream = \<lparr>MaxQueue = 50000, DropIfQueueFull = True, SampleRatio = Fin 1,
         Reconnect = \<lparr>InitialBackoffSeconds = 1, MaxBackoffSeconds = 30, MaxAttempts = -1,
           Jitter = True\<rparr>\<rparr>\<rparr>,
     Kafka = \<lparr>Brokers = [''localhost:9092''], ClientID = ''tetragon-kafka-adapter'', Acks = ''all'',
       Compression = ''snappy'', MaxMessageBytes = 1048576,
       Batch = \<lparr>MaxMessages = 3000, MaxBytes = 1048576, FlushIntervalMs = 100\<rparr>,
       WriterWorkers = 12, Kafka_TLS = TLSConfig_zero,
       SASL = \<lparr>SASL_Enabled = False, Mechanism = [], Username = [], PasswordFile = []\<rparr>,
       TopicAdmin = \<lparr>AutoCreate = True, Partitions = 24, ReplicationFactor = None,
         CleanupPolicy = ''compact'', MinCleanableDirtyRatio = ''0.5'', RetentionMs = 604800000\<rparr>,
       Kafka_Producer = \<lparr>EnableIdempotence = True\<rparr>\<rparr>,
     Routing = \<lparr>Topics = default_topics, PartitionKey = default_partition_key\<rparr>,
     Schema = \<lparr>Version = 1, Schema_Mode = ''stable_json'', Schema_Format = ''json'',
       IncludeRaw = False\<rparr>,
     Logger = \<lparr>Level = ''info'', Logger_Format = ''json'', Output = [''file''],
       Console = \<lparr>Console_Enabled = False\<rparr>,
       File = \<lparr>File_Path = ''/var/log/tetragon-kafka-adapter/app.log'', MaxSizeMB = 100,
         MaxBackups = 5, MaxAgeDays = 7\<rparr>,
       Logger_Kafka = \<lparr>KafkaLog_Enabled = False, KafkaLog_Topic = ''tetragon.logs''\<rparr>,
       DataTransform = \<lparr>DataTransform_Enabled = False, DataTransform_SampleRatio = Fin (1 / 100),
         LogOriginal = True, LogNormalized = True, LogFinal = True\<rparr>\<rparr>,
     Monitoring = \<lparr>Monitoring_Enabled = True, HealthPort = 8080, MetricsPort = 9090,
       PprofEnabled = False, PprofPort = 6060\<rparr>\<rparr>"

section \<open>Reconnect backoff\<close>

text \<open>
  \<^verbatim>\<open>GetReconnectBackoff\<close> doubles the initial backoff once per attempt, in int64 nanoseconds, and then
  caps it at the configured maximum.  Both the conversion from seconds and the doubling wrap.
\<close>

definition seconds :: "int \<Rightarrow> duration" where
  "seconds n = word_of_int n * Second"

fun double_n :: "nat \<Rightarrow> duration \<Rightarrow> duration" where
  "double_n 0 b = b"
| "double_n (Suc i) b = double_n i (b * 2)"

definition GetReconnectBackoff :: "Config \<Rightarrow> nat \<Rightarrow> duration" where
  "GetReconnectBackoff c attempt =
     (let rc = Reconnect (Stream (Tetragon c));
          backoff = double_n attempt (seconds (InitialBackoffSeconds rc));
          cap = seconds (MaxBackoffSeconds rc)
      in if cap <s backoff then cap else backoff)"

text \<open>The two bounds \<^verbatim>\<open>Validate\<close> enforces on the reconnect section.\<close>

definition reconnect_bounds :: "ReconnectConfig \<Rightarrow> bool" where
  "reconnect_bounds rc \<longleftrightarrow>
     0 < InitialBackoffSeconds rc \<and> InitialBackoffSeconds rc \<le> 3600 \<and>
     MaxBackoffSeconds rc \<le> 3600 \<and> InitialBackoffSeconds rc \<le> MaxBackoffSeconds rc"

lemma double_n_closed: "double_n n b = b * 2 ^ n"
  by (induction n b rule: double_n.induct) (simp_all add: mult.assoc)

lemma double_n_seconds:
  "double_n n (seconds k) = word_of_int (k * 1000000000 * 2 ^ n)"
  by (simp add: double_n_closed seconds_def Second_def)

lemma sint_seconds:
  assumes "0 \<le> k" and "k \<le> 3600"
  shows "sint (seconds k) = k * 1000000000"
  using sint_of_int_64 [of "k * 1000000000"] assms by (simp add: seconds_def Second_def)

lemma sint_double_n:
  assumes "0 < k" and "k * 2 ^ n \<le> 9223372036"
  shows "sint (double_n n (seconds k)) = k * 1000000000 * 2 ^ n"
proof -
  have "k * 1000000000 * 2 ^ n = 1000000000 * (k * 2 ^ n)" by simp
  moreover have "0 < k * 2 ^ n" using assms(1) by simp
  ultimately have "- (2 ^ 63) \<le> k * 1000000000 * 2 ^ n" "k * 1000000000 * 2 ^ n < 2 ^ 63"
    using assms(2) by simp_all
  then show ?thesis using sint_of_int_64 by (simp only: double_n_seconds)
qed

lemma word_of_int_multiple: "(word_of_int (2 ^ 64 * m) :: i64) = 0"
  by transfer (simp add: take_bit_eq_mod)

lemma double_n_zero:
  assumes "55 \<le> n"
  shows "double_n n (seconds k) = 0"
proof -
  obtain j where n: "n = 55 + j" using assms le_Suc_ex by blast
  have eq: "k * 1000000000 * 2 ^ n = 2 ^ 64 * (k * 1953125 * 2 ^ j)"
    by (simp add: n power_add)
  show ?thesis
    unfolding double_n_seconds eq by (rule word_of_int_multiple)
qed

text \<open>
  C28: Backoff within range.  For a validated reconnect section and as long as the doubled initial
  backoff fits into an int64 of nanoseconds, \<^verbatim>\<open>GetReconnectBackoff\<close> is the minimum of
  \<open>initial * 2^attempt\<close> and the maximum, in nanoseconds; in particular it is at least the initial
  backoff and at most the maximum.
\<close>

theorem backoff_exact:
  assumes "reconnect_bounds (Reconnect (Stream (Tetragon c)))"
    and "InitialBackoffSeconds (Reconnect (Stream (Tetragon c))) * 2 ^ attempt \<le> 9223372036"
  shows "sint (GetReconnectBackoff c attempt) = 1000000000 *
    min (InitialBackoffSeconds (Reconnect (Stream (Tetragon c))) * 2 ^ attempt)
        (MaxBackoffSeconds (Reconnect (Stream (Tetragon c))))"
proof -
  let ?rc = "Reconnect (Stream (Tetragon c))"
  have b: "sint (double_n attempt (seconds (InitialBackoffSeconds ?rc)))
      = InitialBackoffSeconds ?rc * 1000000000 * 2 ^ attempt"
    using assms by (intro sint_double_n) (simp_all add: reconnect_bounds_def)
  have m: "sint (seconds (MaxBackoffSeconds ?rc)) = MaxBackoffSeconds ?rc * 1000000000"
    using assms(1) by (intro sint_seconds) (simp_all add: reconnect_bounds_def)
  show ?thesis using b m
    by (auto simp: GetReconnectBackoff_def Let_def word_sless_alt min_def)
qed

theorem backoff_exact_witness:
  "sint (GetReconnectBackoff DefaultConfig 3) = 8000000000 \<and>
   sint (GetReconnectBackoff DefaultConfig 33) = 30000000000"
  using backoff_exact [of DefaultConfig 3] backoff_exact [of DefaultConfig 33]
  by (simp add: DefaultConfig_def reconnect_bounds_def)

text \<open>
  C29: Backoff vanishes.  From the 55th reconnect on the doubling has shifted every bit out of the
  int64, so that for every validated configuration the backoff is zero, below the configured initial
  backoff, instead of staying at the maximum: the loop reconnects without pause (up to the jitter).
\<close>

theorem backoff_vanishes:
  assumes "reconnect_bounds (Reconnect (Stream (Tetragon c)))" and "55 \<le> attempt"
  shows "GetReconnectBackoff c attempt = 0"
proof -
  let ?rc = "Reconnect (Stream (Tetragon c))"
  have m: "sint (seconds (MaxBackoffSeconds ?rc)) = MaxBackoffSeconds ?rc * 1000000000"
    using assms(1) by (intro sint_seconds) (simp_all add: reconnect_bounds_def)
  then show ?thesis
    using assms by (simp add: GetReconnectBackoff_def Let_def double_n_zero word_sless_alt reconnect_bounds_def)
qed

theorem backoff_vanishes_witness:
  "GetReconnectBackoff DefaultConfig 60 = 0"
  using backoff_vanishes [of DefaultConfig 60] by (simp add: DefaultConfig_def reconnect_bounds_def)

end
