(* ===== verification/Metrics.thy ===== *)
theory Metrics
  imports Complex_Main Prelude
begin

text \<open>
  \<^verbatim>\<open>internal/metrics/prometheus.go\<close>: the process-wide metrics as one record, threaded through the
  handlers.  A counter is a \<^typ>\<open>nat\<close> (per label value), a gauge its last value, a histogram its
  number of observations per label: the values observed are clock readings, which the model does not
  have, except for the batch sizes, which are kept.  The memory metrics and
  \<^verbatim>\<open>UpdateMemoryMetrics\<close> are the second half.
\<close>

section \<open>The pipeline's metrics\<close>

record metrics =
  EventsInTotal :: "string counter"                 \<comment> \<open>type\<close>
  EventsOutTotal :: "(string \<times> string) counter"     \<comment> \<open>topic, status\<close>
  GrpcEventsReceivedTotal :: nat
  QueueDepth :: nat
  QueueCapacity :: int
  DropsTotal :: "string counter"                    \<comment> \<open>reason\<close>
  SampledTotal :: "string counter"                  \<comment> \<open>type\<close>
  KafkaWriteLatencyMs :: "string counter"           \<comment> \<open>observations by topic\<close>
  NormalizeLatencyMs :: "string counter"            \<comment> \<open>observations by type\<close>
  KafkaWriteBytesTotal :: "string counter"          \<comment> \<open>topic\<close>
  KafkaWriteMessagesTotal :: "string counter"       \<comment> \<open>topic\<close>
  KafkaBatchSize :: "string \<Rightarrow> nat list"            \<comment> \<open>observed values by topic\<close>
  DLQEventsTotal :: "string counter"                \<comment> \<open>reason\<close>
  DLQEventsBytesTotal :: nat
  DLQWriteFailuresTotal :: nat
  KafkaErrorsTotal :: "(string \<times> string) counter"   \<comment> \<open>error type, topic\<close>
  NormalizeErrorsTotal :: "string counter"          \<comment> \<open>event type\<close>
  GrpcErrorsTotal :: "string counter"               \<comment> \<open>error type\<close>
  GrpcReconnectTotal :: nat
  GrpcStreamUptimeSeconds :: rat
  KafkaProducerConnected :: bool
  KafkaTopicCreateTotal :: "string counter"         \<comment> \<open>status\<close>
  KafkaTopicCreateDurationSeconds :: nat            \<comment> \<open>observations\<close>
  QueueProcessingLatencyMs :: nat                   \<comment> \<open>observations\<close>
  GrpcConnectionStatus :: bool
  KafkaWriterQueueDepth :: nat
  EventProcessingLatencyMs :: "string counter"      \<comment> \<open>observations by stage\<close>
  GrpcReconnectIntervalSeconds :: nat               \<comment> \<open>observations\<close>
  KafkaBatchErrorRate :: "string \<Rightarrow> rat"

definition metrics_init :: metrics where
  "metrics_init = \<lparr>EventsInTotal = \<lambda>_. 0, EventsOutTotal = \<lambda>_. 0, GrpcEventsReceivedTotal = 0,
     QueueDepth = 0, QueueCapacity = 0, DropsTotal = \<lambda>_. 0, SampledTotal = \<lambda>_. 0,
     KafkaWriteLatencyMs = \<lambda>_. 0, NormalizeLatencyMs = \<lambda>_. 0, KafkaWriteBytesTotal = \<lambda>_. 0,
     KafkaWriteMessagesTotal = \<lambda>_. 0, KafkaBatchSize = \<lambda>_. [], DLQEventsTotal = \<lambda>_. 0,
     DLQEventsBytesTotal = 0, DLQWriteFailuresTotal = 0, KafkaErrorsTotal = \<lambda>_. 0,
     NormalizeErrorsTotal = \<lambda>_. 0, GrpcErrorsTotal = \<lambda>_. 0, GrpcReconnectTotal = 0,
     GrpcStreamUptimeSeconds = 0, KafkaProducerConnected = False, KafkaTopicCreateTotal = \<lambda>_. 0,
     KafkaTopicCreateDurationSeconds = 0, QueueProcessingLatencyMs = 0,
     GrpcConnectionStatus = False, KafkaWriterQueueDepth = 0, EventProcessingLatencyMs = \<lambda>_. 0,
     GrpcReconnectIntervalSeconds = 0, KafkaBatchErrorRate = \<lambda>_. 0\<rparr>"

section \<open>Memory metrics\<close>

text \<open>The fields of \<^verbatim>\<open>runtime.MemStats\<close> the adapter reads; \<^verbatim>\<open>NumGC\<close> is a uint32, the rest uint64.\<close>

record mem_stats =
  ms_Alloc :: "64 word"
  ms_TotalAlloc :: "64 word"
  ms_Sys :: "64 word"
  ms_HeapAlloc :: "64 word"
  ms_HeapSys :: "64 word"
  ms_HeapInuse :: "64 word"
  ms_HeapIdle :: "64 word"
  ms_NumGC :: u32

record mem_metrics =
  MemoryAllocBytes :: nat
  MemoryTotalAllocBytes :: nat
  MemorySysBytes :: nat
  MemoryNumGC :: nat
  MemoryHeapAllocBytes :: nat
  MemoryHeapSysBytes :: nat
  MemoryHeapInuseBytes :: nat
  MemoryHeapIdleBytes :: nat
  NumGoroutines :: nat
  lastMemStats :: mem_stats        \<comment> \<open>meaningful once \<open>lastMemStatsOnce\<close> has fired\<close>
  lastMemStatsOnce :: bool         \<comment> \<open>whether the \<^verbatim>\<open>sync.Once\<close> has run\<close>

definition mem_stats_zero :: mem_stats where
  "mem_stats_zero = \<lparr>ms_Alloc = 0, ms_TotalAlloc = 0, ms_Sys = 0, ms_HeapAlloc = 0, ms_HeapSys = 0,
     ms_HeapInuse = 0, ms_HeapIdle = 0, ms_NumGC = 0\<rparr>"

definition mem_metrics_init :: mem_metrics where
  "mem_metrics_init = \<lparr>MemoryAllocBytes = 0, MemoryTotalAllocBytes = 0, MemorySysBytes = 0,
     MemoryNumGC = 0, MemoryHeapAllocBytes = 0, MemoryHeapSysBytes = 0, MemoryHeapInuseBytes = 0,
     MemoryHeapIdleBytes = 0, NumGoroutines = 0, lastMemStats = mem_stats_zero,
     lastMemStatsOnce = False\<rparr>"

text \<open>
  \<^verbatim>\<open>UpdateMemoryMetrics\<close>, with the statistics and the goroutine count it reads as arguments: the
  gauges are set, the \<^verbatim>\<open>once\<close> takes the first reading as the baseline, and the counters grow by the
  difference to the last reading when it is positive.  The differences are taken in the unsigned
  types of the source.
\<close>

definition set_gauges :: "mem_stats \<Rightarrow> nat \<Rightarrow> mem_metrics \<Rightarrow> mem_metrics" where
  "set_gauges m g s = s\<lparr>MemoryAllocBytes := unat (ms_Alloc m), MemorySysBytes := unat (ms_Sys m),
     MemoryHeapAllocBytes := unat (ms_HeapAlloc m), MemoryHeapSysBytes := unat (ms_HeapSys m),
     MemoryHeapInuseBytes := unat (ms_HeapInuse m), MemoryHeapIdleBytes := unat (ms_HeapIdle m),
     NumGoroutines := g\<rparr>"

definition once_baseline :: "mem_stats \<Rightarrow> mem_metrics \<Rightarrow> mem_metrics" where
  "once_baseline m s =
     (if lastMemStatsOnce s then s else s\<lparr>lastMemStats := m, lastMemStatsOnce := True\<rparr>)"

definition UpdateMemoryMetrics :: "mem_stats \<Rightarrow> nat \<Rightarrow> mem_metrics \<Rightarrow> mem_metrics" where
  "UpdateMemoryMetrics m g s0 =
     (let s1 = once_baseline m (set_gauges m g s0);
          s2 = (if ms_TotalAlloc m > ms_TotalAlloc (lastMemStats s1)
                then s1\<lparr>MemoryTotalAllocBytes := MemoryTotalAllocBytes s1 +
                       unat (ms_TotalAlloc m - ms_TotalAlloc (lastMemStats s1))\<rparr>
                else s1);
          s3 = (if ms_NumGC m > ms_NumGC (lastMemStats s2)
                then s2\<lparr>MemoryNumGC := MemoryNumGC s2 +
                       unat (ms_NumGC m - ms_NumGC (lastMemStats s2))\<rparr>
                else s2)
      in s3\<lparr>lastMemStats := m\<rparr>)"

fun memory_ticks :: "(mem_stats \<times> nat) list \<Rightarrow> mem_metrics \<Rightarrow> mem_metrics" where
  "memory_ticks [] s = s"
| "memory_ticks ((m, g) # xs) s = memory_ticks xs (UpdateMemoryMetrics m g s)"

lemma unat_diff_word: "(a :: 'a::len word) \<le> b \<Longrightarrow> unat (b - a) = unat b - unat a"
  by (simp add: unat_sub)

text \<open>After the baseline, one tick adds exactly the growth of the cumulative statistic.\<close>

lemma UpdateMemoryMetrics_step:
  assumes "lastMemStatsOnce s"
    and "ms_TotalAlloc (lastMemStats s) \<le> ms_TotalAlloc m"
    and "ms_NumGC (lastMemStats s) \<le> ms_NumGC m"
  shows "MemoryTotalAllocBytes (UpdateMemoryMetrics m g s) + unat (ms_TotalAlloc (lastMemStats s))
           = MemoryTotalAllocBytes s + unat (ms_TotalAlloc m)"
    and "MemoryNumGC (UpdateMemoryMetrics m g s) + unat (ms_NumGC (lastMemStats s))
           = MemoryNumGC s + unat (ms_NumGC m)"
    and "lastMemStats (UpdateMemoryMetrics m g s) = m"
    and "lastMemStatsOnce (UpdateMemoryMetrics m g s)"
  using assms
  by (auto simp: UpdateMemoryMetrics_def once_baseline_def set_gauges_def unat_diff_word
      word_le_nat_alt Let_def not_less antisym_conv2)

lemma UpdateMemoryMetrics_first:
  assumes "\<not> lastMemStatsOnce s"
  shows "MemoryTotalAllocBytes (UpdateMemoryMetrics m g s) = MemoryTotalAllocBytes s"
    and "MemoryNumGC (UpdateMemoryMetrics m g s) = MemoryNumGC s"
    and "lastMemStats (UpdateMemoryMetrics m g s) = m"
    and "lastMemStatsOnce (UpdateMemoryMetrics m g s)"
  using assms by (simp_all add: UpdateMemoryMetrics_def once_baseline_def set_gauges_def Let_def)

lemma memory_ticks_telescope:
  assumes "lastMemStatsOnce s"
    and "sorted (map (unat \<circ> ms_TotalAlloc \<circ> fst) ((lastMemStats s, 0) # xs))"
    and "sorted (map (unat \<circ> ms_NumGC \<circ> fst) ((lastMemStats s, 0) # xs))"
  shows "MemoryTotalAllocBytes (memory_ticks xs s) + unat (ms_TotalAlloc (lastMemStats s))
           = MemoryTotalAllocBytes s + unat (ms_TotalAlloc (fst (last ((lastMemStats s, 0) # xs))))
       \<and> MemoryNumGC (memory_ticks xs s) + unat (ms_NumGC (lastMemStats s))
           = MemoryNumGC s + unat (ms_NumGC (fst (last ((lastMemStats s, 0) # xs))))"
  using assms
proof (induction xs arbitrary: s)
  case Nil
  then show ?case by simp
next
  case (Cons x xs)
  obtain m g where x: "x = (m, g)" by fastforce
  have le: "ms_TotalAlloc (lastMemStats s) \<le> ms_TotalAlloc m" "ms_NumGC (lastMemStats s) \<le> ms_NumGC m"
    using Cons.prems x by (auto simp: word_le_nat_alt)
  note step = UpdateMemoryMetrics_step [OF Cons.prems(1) le, of g]
  have ih: "MemoryTotalAllocBytes (memory_ticks xs (UpdateMemoryMetrics m g s)) + unat (ms_TotalAlloc m)
      = MemoryTotalAllocBytes (UpdateMemoryMetrics m g s)
        + unat (ms_TotalAlloc (fst (last ((m, 0) # xs))))
    \<and> MemoryNumGC (memory_ticks xs (UpdateMemoryMetrics m g s)) + unat (ms_NumGC m)
      = MemoryNumGC (UpdateMemoryMetrics m g s) + unat (ms_NumGC (fst (last ((m, 0) # xs))))"
    using Cons.IH [OF step(4)] Cons.prems x by (simp add: step(3))
  have last: "fst (last ((lastMemStats s, 0) # x # xs)) = fst (last ((m, 0) # xs))"
    using x by auto
  show ?case using ih step(1,2) x unfolding last by simp
qed

text \<open>
  Memory counters telescope.  After a first reading, which is the baseline and adds nothing, and any further readings in which
  the cumulative statistics do not fall, the two counters have grown by exactly the difference of the last reading to the
  first, whatever the readings in between.
\<close>

theorem memory_counters_telescope:
  assumes "sorted (map (unat \<circ> ms_TotalAlloc \<circ> fst) ((m, g) # xs))"
    and "sorted (map (unat \<circ> ms_NumGC \<circ> fst) ((m, g) # xs))"
  shows "MemoryTotalAllocBytes (memory_ticks ((m, g) # xs) mem_metrics_init) + unat (ms_TotalAlloc m)
      = unat (ms_TotalAlloc (fst (last ((m, g) # xs)))) \<and>
    MemoryNumGC (memory_ticks ((m, g) # xs) mem_metrics_init) + unat (ms_NumGC m)
      = unat (ms_NumGC (fst (last ((m, g) # xs))))"
proof -
  let ?s = "UpdateMemoryMetrics m g mem_metrics_init"
  have "\<not> lastMemStatsOnce mem_metrics_init" by (simp add: mem_metrics_init_def)
  note first = UpdateMemoryMetrics_first [OF this, of m g]
  have "MemoryTotalAllocBytes mem_metrics_init = 0" "MemoryNumGC mem_metrics_init = 0"
    by (simp_all add: mem_metrics_init_def)
  then show ?thesis
    using memory_ticks_telescope [OF first(4), of xs] assms first by simp
qed

theorem memory_counters_telescope_witness:
  "MemoryTotalAllocBytes (memory_ticks [(mem_stats_zero\<lparr>ms_TotalAlloc := 100\<rparr>, 1),
     (mem_stats_zero\<lparr>ms_TotalAlloc := 150, ms_NumGC := 2\<rparr>, 1)] mem_metrics_init) = 50"
  using memory_counters_telescope [of "mem_stats_zero\<lparr>ms_TotalAlloc := 100\<rparr>" 1
      "[(mem_stats_zero\<lparr>ms_TotalAlloc := 150, ms_NumGC := 2\<rparr>, 1)]"]
  by (simp add: mem_stats_zero_def)

end
