(* ===== verification/Grpc_Stream.thy ===== *)
theory Grpc_Stream
  imports Bounded_Queue Tetragon Config Metrics
begin

text \<open>
  \<^verbatim>\<open>internal/grpc/client.go\<close> and \<^verbatim>\<open>internal/grpc/stream.go\<close>: the client with its TLS settings, and the
  loop that reads the event stream into the event channel.  The gRPC library and the file system are
  parameters: what a call gave is an argument.
\<close>

section \<open>Client\<close>

record ('pool, 'cert) tls_config =
  RootCAs :: "'pool option"          \<comment> \<open>nil: the roots of the host\<close>
  Certificates :: "'cert list"

datatype 'e tls_error = FileError 'e | BadCACert string | KeyPairError 'e

datatype ('pool, 'cert) credentials = NewTLS "('pool, 'cert) tls_config" | InsecureCredentials

text \<open>
  \<^verbatim>\<open>loadTLSConfig\<close>: \<open>read_file\<close> is \<^verbatim>\<open>os.ReadFile\<close>, \<open>parse_pem\<close> the pool made from the certificates of a PEM
  text if it has any, \<open>load_pair\<close> is \<^verbatim>\<open>tls.LoadX509KeyPair\<close>.
\<close>

definition loadTLSConfig ::
  "(string \<Rightarrow> 'e + string) \<Rightarrow> (string \<Rightarrow> 'pool option) \<Rightarrow> (string \<Rightarrow> string \<Rightarrow> 'e + 'cert) \<Rightarrow> TLSConfig
    \<Rightarrow> 'e tls_error + ('pool, 'cert) tls_config" where
  "loadTLSConfig read_file parse_pem load_pair cfg =
     (let ca = (if TLS_CACert cfg \<noteq> '''' then
                  (case read_file (TLS_CACert cfg) of
                     Inl err \<Rightarrow> Inl (FileError err)
                   | Inr caCert \<Rightarrow>
                       (case parse_pem caCert of
                          None \<Rightarrow> Inl (BadCACert (TLS_CACert cfg))
                        | Some pool \<Rightarrow> Inr \<lparr>RootCAs = Some pool, Certificates = []\<rparr>))
                else Inr \<lparr>RootCAs = None, Certificates = []\<rparr>)
      in case ca of
           Inl err \<Rightarrow> Inl err
         | Inr tlsConfig \<Rightarrow>
             if TLS_ClientCert cfg \<noteq> '''' \<and> TLS_ClientKey cfg \<noteq> '''' then
               (case load_pair (TLS_ClientCert cfg) (TLS_ClientKey cfg) of
                  Inl err \<Rightarrow> Inl (KeyPairError err)
                | Inr cert \<Rightarrow> Inr (tlsConfig\<lparr>Certificates := [cert]\<rparr>))
             else Inr tlsConfig)"

datatype 'e client_error = TLSError "'e tls_error" | DialError 'e

text \<open>\<^verbatim>\<open>NewClient\<close>: \<open>dial\<close> is \<^verbatim>\<open>grpc.DialContext\<close> with the address and the one option the code gives it.\<close>

definition NewClient ::
  "(string \<Rightarrow> 'e + string) \<Rightarrow> (string \<Rightarrow> 'pool option) \<Rightarrow> (string \<Rightarrow> string \<Rightarrow> 'e + 'cert)
    \<Rightarrow> (string \<Rightarrow> ('pool, 'cert) credentials \<Rightarrow> 'e + 'conn) \<Rightarrow> TetragonConfig \<Rightarrow> 'e client_error + 'conn" where
  "NewClient read_file parse_pem load_pair dial cfg =
     (let creds = (if TLS_Enabled (Tetragon_TLS cfg) then
                     (case loadTLSConfig read_file parse_pem load_pair (Tetragon_TLS cfg) of
                        Inl err \<Rightarrow> Inl (TLSError err)
                      | Inr tlsConfig \<Rightarrow> Inr (NewTLS tlsConfig))
                   else Inr InsecureCredentials)
      in case creds of
           Inl err \<Rightarrow> Inl err
         | Inr opts \<Rightarrow>
             (case dial (GRPCAddr cfg) opts of Inl err \<Rightarrow> Inl (DialError err) | Inr conn \<Rightarrow> Inr conn))"

definition Client_Close :: "('conn \<Rightarrow> 'e option) \<Rightarrow> 'conn option \<Rightarrow> 'e option" where
  "Client_Close close_conn conn = (case conn of Some c \<Rightarrow> close_conn c | None \<Rightarrow> None)"

definition tls_as_configured ::
  "(string \<Rightarrow> 'e + string) \<Rightarrow> (string \<Rightarrow> 'pool option) \<Rightarrow> (string \<Rightarrow> string \<Rightarrow> 'e + 'cert) \<Rightarrow> TLSConfig
    \<Rightarrow> ('pool, 'cert) tls_config \<Rightarrow> bool" where
  "tls_as_configured read_file parse_pem load_pair cfg tc \<longleftrightarrow>
     (if TLS_CACert cfg = '''' then RootCAs tc = None
      else \<exists>pem pool. read_file (TLS_CACert cfg) = Inr pem \<and> parse_pem pem = Some pool \<and> RootCAs tc = Some pool) \<and>
     (if TLS_ClientCert cfg = '''' \<or> TLS_ClientKey cfg = '''' then Certificates tc = []
      else \<exists>cert. load_pair (TLS_ClientCert cfg) (TLS_ClientKey cfg) = Inr cert \<and> Certificates tc = [cert])"

lemma loadTLSConfig_Inr:
  "loadTLSConfig read_file parse_pem load_pair cfg = Inr tc \<longleftrightarrow> tls_as_configured read_file parse_pem load_pair cfg tc"
proof -
  obtain roots certs where tc: "tc = \<lparr>RootCAs = roots, Certificates = certs\<rparr>" by (cases tc)
  show ?thesis
    by (cases "TLS_CACert cfg = ''''"; cases "TLS_ClientCert cfg = '''' \<or> TLS_ClientKey cfg = ''''")
      (auto simp: tc loadTLSConfig_def tls_as_configured_def Let_def split: sum.splits option.splits)
qed

text \<open>
  C40: TLS settings are honoured.  With TLS enabled a client connects exactly when the configured files load and the dial succeeds with
  these TLS credentials, never in clear text: the roots are the certificates in the configured CA file, or the host's when none is
  configured, and the client certificate is the pair of the configured certificate and key files, or none unless both are configured.
\<close>

theorem tls_settings_honoured:
  assumes "TLS_Enabled (Tetragon_TLS cfg)"
  shows "NewClient read_file parse_pem load_pair dial cfg = Inr conn \<longleftrightarrow>
    (\<exists>tc. tls_as_configured read_file parse_pem load_pair (Tetragon_TLS cfg) tc \<and> dial (GRPCAddr cfg) (NewTLS tc) = Inr conn)"
  using assms by (simp add: NewClient_def flip: loadTLSConfig_Inr split: sum.split)

text \<open>A client certificate file without a key, and a CA file.\<close>

definition example_tls :: TLSConfig where
  "example_tls = \<lparr>TLS_Enabled = True, TLS_CACert = ''ca.pem'', TLS_ClientCert = ''c.pem'', TLS_ClientKey = ''''\<rparr>"

theorem tls_settings_honoured_witness:
  "\<exists>tc. NewClient (\<lambda>path. Inr (path @ '' text'')) Some (\<lambda>_ _. Inl ()) (\<lambda>_ c. Inr c)
        ((Tetragon DefaultConfig)\<lparr>Tetragon_TLS := example_tls\<rparr>) = Inr (NewTLS tc) \<and>
     RootCAs tc = Some ''ca.pem text'' \<and> (Certificates tc :: unit list) = []"
proof -
  let ?cfg = "(Tetragon DefaultConfig)\<lparr>Tetragon_TLS := example_tls\<rparr>"
  let ?dial = "(\<lambda>_ c. Inr c) :: string \<Rightarrow> (string, unit) credentials \<Rightarrow> unit + (string, unit) credentials"
  let ?tc = "\<lparr>RootCAs = Some ''ca.pem text'', Certificates = []\<rparr>"
  have "TLS_Enabled (Tetragon_TLS ?cfg)" by (simp add: example_tls_def)
  then have "NewClient (\<lambda>path. Inr (path @ '' text'')) Some (\<lambda>_ _. Inl ()) ?dial ?cfg = Inr (NewTLS ?tc)"
    by (subst tls_settings_honoured) (auto simp: tls_as_configured_def example_tls_def intro!: exI [of _ ?tc])
  then show ?thesis by auto
qed

section \<open>Reading the stream\<close>

text \<open>
  One turn of the loop of \<^verbatim>\<open>ReadEvents\<close>: the context at its two selects, what \<^verbatim>\<open>Recv\<close> gave, the seconds the
  stream has been up, how many events the processing loop had taken from the channel by the time of the
  send, and which of two ready cases the second select picks (\<open>True\<close>: the done case).
\<close>

record 'e read_turn =
  rt_ctx :: ctx
  rt_recv :: "'e + event"
  rt_uptime :: rat
  rt_taken :: nat
  rt_send_ctx :: ctx
  rt_pick_done :: bool

datatype 'e read_error = ReadCtx ctx_error | RecvError 'e | OpenError 'e

text \<open>
  The result of a turn: go on, return an error (\<open>Some\<close>) or nil (\<open>None\<close>), or the panic of a send on a
  closed channel.
\<close>

datatype 'e read_result = ReadContinues | ReadReturns "'e read_error option" | ReadPanics

definition take_events :: "nat \<Rightarrow> event chan \<Rightarrow> event chan" where
  "take_events n ch = ch\<lparr>chan_buf := drop n (chan_buf ch)\<rparr>"

definition ReadEvents_turn ::
  "'e read_turn \<Rightarrow> event chan \<times> metrics \<Rightarrow> 'e read_result \<times> event chan \<times> metrics" where
  "ReadEvents_turn t = (\<lambda>(ch, m).
     case rt_ctx t of
       Some err \<Rightarrow> (ReadReturns (Some (ReadCtx err)), ch, m)
     | None \<Rightarrow>
         (case rt_recv t of
            Inl err \<Rightarrow>
              (ReadReturns (Some (RecvError err)), ch,
               (GrpcErrorsTotal_update (bump ''recv'') m)\<lparr>GrpcConnectionStatus := False\<rparr>)
          | Inr event \<Rightarrow>
              (let m1 = m\<lparr>GrpcEventsReceivedTotal := Suc (GrpcEventsReceivedTotal m),
                          GrpcStreamUptimeSeconds := rt_uptime t\<rparr>;
                   ch1 = take_events (rt_taken t) ch
               in case (chan_send ch1 event, rt_send_ctx t) of
                    (Sent ch2, None) \<Rightarrow> (ReadContinues, ch2, m1)
                  | (Sent ch2, Some err) \<Rightarrow>
                      if rt_pick_done t then (ReadReturns (Some (ReadCtx err)), ch1, m1)
                      else (ReadContinues, ch2, m1)
                  | (SendPanics, None) \<Rightarrow> (ReadPanics, ch1, m1)
                  | (SendPanics, Some err) \<Rightarrow>
                      if rt_pick_done t then (ReadReturns (Some (ReadCtx err)), ch1, m1)
                      else (ReadPanics, ch1, m1)
                  | (SendBlocks, Some err) \<Rightarrow> (ReadReturns (Some (ReadCtx err)), ch1, m1)
                  | (SendBlocks, None) \<Rightarrow>
                      (ReadContinues, ch1, DropsTotal_update (bump ''stream_channel_full'') m1))))"

text \<open>The loop, over the turns the environment gives it; \<open>ReadContinues\<close> when it has not returned yet.\<close>

fun ReadEvents_loop ::
  "'e read_turn list \<Rightarrow> event chan \<times> metrics \<Rightarrow> 'e read_result \<times> event chan \<times> metrics" where
  "ReadEvents_loop [] st = (ReadContinues, st)"
| "ReadEvents_loop (t # ts) st =
     (case ReadEvents_turn t st of
        (ReadContinues, st') \<Rightarrow> ReadEvents_loop ts st'
      | (ReadReturns err, st') \<Rightarrow> (ReadReturns err, st')
      | (ReadPanics, st') \<Rightarrow> (ReadPanics, st'))"

text \<open>
  \<^verbatim>\<open>ReadEvents\<close>: opening the stream, then the loop.  On opening, the uptime gauge is set to the clock's Unix
  seconds.
\<close>

definition ReadEvents ::
  "'e option \<Rightarrow> int \<Rightarrow> 'e read_turn list \<Rightarrow> event chan \<times> metrics \<Rightarrow> 'e read_result \<times> event chan \<times> metrics" where
  "ReadEvents open_error unix_now ts = (\<lambda>(ch, m).
     case open_error of
       Some err \<Rightarrow> (ReadReturns (Some (OpenError err)), ch, GrpcErrorsTotal_update (bump ''get_events_client'') m)
     | None \<Rightarrow>
         ReadEvents_loop ts (ch, m\<lparr>GrpcStreamUptimeSeconds := of_int unix_now, GrpcConnectionStatus := True\<rparr>))"

section \<open>What the loop does to the channel\<close>

text \<open>The events a turn puts into the channel, and those taken out before its send.\<close>

definition turn_sent :: "'e read_turn \<Rightarrow> event chan \<Rightarrow> event list" where
  "turn_sent t ch =
     (case (rt_ctx t, rt_recv t) of
        (None, Inr event) \<Rightarrow>
          if length (chan_buf (take_events (rt_taken t) ch)) < chan_cap ch \<and>
             \<not> (ctx_done (rt_send_ctx t) \<and> rt_pick_done t)
          then [event] else []
      | _ \<Rightarrow> [])"

definition turn_taken :: "'e read_turn \<Rightarrow> event chan \<Rightarrow> event list" where
  "turn_taken t ch =
     (case (rt_ctx t, rt_recv t) of (None, Inr _) \<Rightarrow> take (rt_taken t) (chan_buf ch) | _ \<Rightarrow> [])"

fun loop_sent :: "'e read_turn list \<Rightarrow> event chan \<times> metrics \<Rightarrow> event list" where
  "loop_sent [] st = []"
| "loop_sent (t # ts) st = turn_sent t (fst st) @
     (case ReadEvents_turn t st of (ReadContinues, st') \<Rightarrow> loop_sent ts st' | _ \<Rightarrow> [])"

fun loop_taken :: "'e read_turn list \<Rightarrow> event chan \<times> metrics \<Rightarrow> event list" where
  "loop_taken [] st = []"
| "loop_taken (t # ts) st = turn_taken t (fst st) @
     (case ReadEvents_turn t st of (ReadContinues, st') \<Rightarrow> loop_taken ts st' | _ \<Rightarrow> [])"

abbreviation stream_drops :: "metrics \<Rightarrow> nat" where
  "stream_drops m \<equiv> DropsTotal m ''stream_channel_full''"

text \<open>Whether a loop that ended this way may have left one received event neither sent nor counted.\<close>

fun at_send :: "'e read_result \<Rightarrow> nat" where
  "at_send (ReadReturns (Some (ReadCtx _))) = 1"
| "at_send _ = 0"

lemma turn_accounting:
  assumes "ReadEvents_turn t (ch, m) = (r, ch', m')" and "\<not> chan_closed ch" and "chan_wf ch"
  shows "\<not> chan_closed ch' \<and> chan_wf ch' \<and> r \<noteq> ReadPanics \<and>
    chan_buf ch @ turn_sent t ch = turn_taken t ch @ chan_buf ch' \<and>
    (\<exists>lost \<le> at_send r. GrpcEventsReceivedTotal m' + stream_drops m =
       GrpcEventsReceivedTotal m + length (turn_sent t ch) + stream_drops m' + lost)"
proof -
  have wf: "length (drop n (chan_buf ch)) \<le> chan_cap ch" for n
    using assms(3) by (simp add: chan_wf_def chan_len_def)
  have app: "take n (chan_buf ch) @ drop n (chan_buf ch) @ es = chan_buf ch @ es" for n and es :: "event list"
    by (metis append_assoc append_take_drop_id)
  show ?thesis
    using assms wf app
    by (auto simp: ReadEvents_turn_def turn_sent_def turn_taken_def take_events_def chan_send_def ctx_done_def
        chan_wf_def chan_len_def Let_def split: option.splits sum.splits if_splits intro: exI [of _ 0] exI [of _ 1])
qed

lemma loop_accounting:
  assumes "ReadEvents_loop ts (ch, m) = (r, ch', m')" and "\<not> chan_closed ch" and "chan_wf ch"
  shows "\<not> chan_closed ch' \<and> chan_wf ch' \<and> r \<noteq> ReadPanics \<and>
    chan_buf ch @ loop_sent ts (ch, m) = loop_taken ts (ch, m) @ chan_buf ch' \<and>
    (\<exists>lost \<le> at_send r. GrpcEventsReceivedTotal m' + stream_drops m =
       GrpcEventsReceivedTotal m + length (loop_sent ts (ch, m)) + stream_drops m' + lost)"
  using assms
proof (induction ts arbitrary: ch m)
  case Nil
  then show ?case by (auto intro: exI [of _ 0])
next
  case (Cons t ts)
  obtain r1 ch1 m1 where s: "ReadEvents_turn t (ch, m) = (r1, ch1, m1)" by (metis prod_cases3)
  note one = turn_accounting [OF s Cons.prems(2,3)]
  show ?case
  proof (cases r1)
    case ReadContinues
    then have l: "ReadEvents_loop ts (ch1, m1) = (r, ch', m')" using Cons.prems(1) s by simp
    note ih = Cons.IH [OF l]
    have buf: "chan_buf ch @ turn_sent t ch = turn_taken t ch @ chan_buf ch1"
      "chan_buf ch1 @ loop_sent ts (ch1, m1) = loop_taken ts (ch1, m1) @ chan_buf ch'"
      using one ih by simp_all
    have "chan_buf ch @ turn_sent t ch @ loop_sent ts (ch1, m1)
        = turn_taken t ch @ loop_taken ts (ch1, m1) @ chan_buf ch'"
      using buf by (metis append_assoc)
    then show ?thesis using one ih s ReadContinues by auto
  next
    case (ReadReturns err)
    then show ?thesis using one s Cons.prems(1) by auto
  next
    case ReadPanics
    then show ?thesis using one by simp
  qed
qed

lemma turn_never_nil: "fst (ReadEvents_turn t st) \<noteq> ReadReturns None"
  by (cases st) (auto simp: ReadEvents_turn_def Let_def split: option.split sum.split send_result.split)

lemma loop_never_nil: "fst (ReadEvents_loop ts st) \<noteq> ReadReturns None"
proof (induction ts arbitrary: st)
  case (Cons t ts)
  obtain r st' where s: "ReadEvents_turn t st = (r, st')" by (metis surj_pair)
  then have "r \<noteq> ReadReturns None" using turn_never_nil [of t st] by simp
  then show ?case using s Cons.IH by (cases r) simp_all
qed simp

lemma ReadEvents_never_nil: "fst (ReadEvents open_error now ts st) \<noteq> ReadReturns None"
  by (cases st) (simp add: ReadEvents_def loop_never_nil split: option.split)

text \<open>
  C14: The stream loses nothing silently.  While the event channel is open the loop never panics and never overfills the
  channel; the events it put in are, in order, those taken out followed by those still in it; and every
  event received was put in, or counted as a drop, except at most one, the event at hand when the context ends.
\<close>

theorem stream_accounting:
  assumes "ReadEvents_loop ts (ch, m) = (r, ch', m')" and "\<not> chan_closed ch" and "chan_wf ch"
  shows "\<not> chan_closed ch' \<and> chan_wf ch' \<and> r \<noteq> ReadPanics \<and>
    chan_buf ch @ loop_sent ts (ch, m) = loop_taken ts (ch, m) @ chan_buf ch' \<and>
    (\<exists>lost \<le> at_send r. GrpcEventsReceivedTotal m' + stream_drops m =
       GrpcEventsReceivedTotal m + length (loop_sent ts (ch, m)) + stream_drops m' + lost)"
  by (rule loop_accounting [OF assms])

definition example_turn :: "nat \<Rightarrow> unit read_turn" where
  "example_turn n = \<lparr>rt_ctx = None, rt_recv = Inr example_event, rt_uptime = 1, rt_taken = n,
     rt_send_ctx = None, rt_pick_done = False\<rparr>"

theorem stream_accounting_witness:
  "\<exists>ch' m'. ReadEvents_loop [example_turn 0, example_turn 0, example_turn 1] (make_chan 1, metrics_init)
      = (ReadContinues, ch', m') \<and> GrpcEventsReceivedTotal m' = 2 + stream_drops m'"
proof -
  let ?ts = "[example_turn 0, example_turn 0, example_turn 1]"
  obtain r ch' m' where s: "ReadEvents_loop ?ts (make_chan 1, metrics_init) = (r, ch', m')" by (metis prod_cases3)
  have r: "r = ReadContinues" and sent: "length (loop_sent ?ts (make_chan 1, metrics_init)) = 2"
    using s by (auto simp: ReadEvents_turn_def example_turn_def take_events_def chan_send_def make_chan_def
        turn_sent_def ctx_done_def Let_def)
  have "\<exists>lost \<le> at_send r. GrpcEventsReceivedTotal m' + stream_drops metrics_init =
      GrpcEventsReceivedTotal metrics_init + 2 + stream_drops m' + lost"
    using stream_accounting [OF s] unfolding sent by (simp add: make_chan_def chan_wf_def chan_len_def)
  then show ?thesis using s r by (simp add: metrics_init_def)
qed

text \<open>
  A stream never ends normally.  Whatever the server sends, including its end of stream, \<^verbatim>\<open>ReadEvents\<close>
  returns an error whenever it returns.
\<close>

theorem read_events_never_nil: "fst (ReadEvents open_error now ts (ch, m)) \<noteq> ReadReturns None"
  by (rule ReadEvents_never_nil)

end
