(* ===== verification/Router.thy ===== *)
theory Router
  imports Tetragon
begin

text \<open>
  \<^verbatim>\<open>internal/router\<close>: the type of an event (\<^verbatim>\<open>detect.go\<close>) and the Kafka topic it goes to
  (\<^verbatim>\<open>router.go\<close>).  Log lines are not modelled.
\<close>

section \<open>Event type detection\<close>

definition DetectEventType :: "event \<Rightarrow> string" where
  "DetectEventType e =
     (if GetProcessExec e \<noteq> None then ''process_exec''
      else if GetProcessExit e \<noteq> None then ''process_exit''
      else if GetProcessKprobe e \<noteq> None then ''process_kprobe''
      else if GetProcessTracepoint e \<noteq> None then ''process_tracepoint''
      else if GetTest e \<noteq> None then ''test''
      else ''unknown'')"

definition GetEventNode :: "event \<Rightarrow> string" where
  "GetEventNode e = (if ev_NodeName e \<noteq> '''' then ev_NodeName e else ''unknown'')"

definition event_types :: "string set" where
  "event_types = {''process_exec'', ''process_exit'', ''process_kprobe'', ''process_tracepoint'',
     ''test'', ''unknown''}"

lemma DetectEventType_payload:
  "DetectEventType e = (case ev_Payload e of
      ProcessExec _ \<Rightarrow> ''process_exec'' | ProcessExit _ \<Rightarrow> ''process_exit''
    | ProcessKprobe _ \<Rightarrow> ''process_kprobe'' | ProcessTracepoint _ \<Rightarrow> ''process_tracepoint''
    | Test \<Rightarrow> ''test'' | _ \<Rightarrow> ''unknown'')"
  by (cases "ev_Payload e") (simp_all add: DetectEventType_def)

lemma DetectEventType_range: "DetectEventType e \<in> event_types"
  by (cases "ev_Payload e") (simp_all add: DetectEventType_payload event_types_def)

lemma event_types_no_separator: "t \<in> event_types \<Longrightarrow> CHR '':'' \<notin> set t"
  by (auto simp: event_types_def)

lemma DetectEventType_nonempty [simp]: "DetectEventType e \<noteq> ''''"
  by (cases "ev_Payload e") (simp_all add: DetectEventType_payload)

lemma GetEventNode_nonempty [simp]: "GetEventNode e \<noteq> ''''"
  by (simp add: GetEventNode_def)

section \<open>Routing\<close>

record router =
  topics :: "string \<rightharpoonup> string"

definition NewRouter :: "(string \<rightharpoonup> string) \<Rightarrow> router" where
  "NewRouter t = \<lparr>topics = t\<rparr>"

definition Route :: "router \<Rightarrow> event \<Rightarrow> string" where
  "Route r e =
     (case topics r (DetectEventType e) of
        Some topic \<Rightarrow> topic
      | None \<Rightarrow>
          (case topics r ''unknown'' of
             Some topic \<Rightarrow> topic
           | None \<Rightarrow> ''tetragon.unknown''))"

definition GetDLQTopic :: "router \<Rightarrow> string" where
  "GetDLQTopic r = (case topics r ''dlq'' of Some topic \<Rightarrow> topic | None \<Rightarrow> ''tetragon.dlq'')"

lemma Route_in_range: "Route r e \<in> ran (topics r) \<union> {''tetragon.unknown''}"
  by (auto simp: Route_def ran_def split: option.splits)

lemma Route_cong:
  assumes "\<And>t. t \<in> event_types \<Longrightarrow> topics r t = topics r' t"
  shows "Route r e = Route r' e"
proof -
  have "topics r (DetectEventType e) = topics r' (DetectEventType e)"
    using assms DetectEventType_range by blast
  moreover have "topics r ''unknown'' = topics r' ''unknown''"
    using assms by (simp add: event_types_def)
  ultimately show ?thesis by (simp add: Route_def split: option.split)
qed

text \<open>
  The LSM topic is never used.  No event is of type \<^verbatim>\<open>process_lsm\<close>, so configuring a topic for it, or another one, or none, changes the
  routing of no event; LSM events go where the unknown ones go.
\<close>

theorem lsm_topic_unused:
  "Route (NewRouter (t(''process_lsm'' := x))) e = Route (NewRouter t) e \<and>
   Route (NewRouter t) (e\<lparr>ev_Payload := OtherEvent ''process_lsm''\<rparr>) =
     (case t ''unknown'' of Some topic \<Rightarrow> topic | None \<Rightarrow> ''tetragon.unknown'')"
proof -
  have "Route (NewRouter (t(''process_lsm'' := x))) e = Route (NewRouter t) e"
    by (rule Route_cong) (auto simp: NewRouter_def event_types_def)
  then show ?thesis
    by (simp add: Route_def NewRouter_def DetectEventType_payload split: option.split)
qed

end
