(* ===== verification/Event_Queue.thy ===== *)
theory Event_Queue
  imports Bounded_Queue Router Config Metrics
begin

text \<open>
  \<^verbatim>\<open>internal/queue\<close>: the bounded event queue with its two backpressure modes (\<^verbatim>\<open>queue.go\<close>) and the
  sampler (\<^verbatim>\<open>sampler.go\<close>).  A \<^verbatim>\<open>select\<close> with several ready cases picks one at random: the pick is
  an argument (\<open>True\<close> for the \<^verbatim>\<open>ctx.Done()\<close> case), and a select with no ready case is the result
  \<open>PushBlocked\<close> or \<open>PopBlocked\<close>, the goroutine waiting.
\<close>

section \<open>Queue\<close>

record Queue =
  q_ch :: "event chan"
  q_config :: StreamConfig
  q_stopCh_closed :: bool
  q_loop_running :: bool          \<comment> \<open>the \<^verbatim>\<open>updateMetricsLoop\<close> goroutine\<close>

text \<open>\<^verbatim>\<open>make(chan, n)\<close> panics for a negative size.\<close>

definition NewQueue :: "StreamConfig \<Rightarrow> metrics \<Rightarrow> (Queue \<times> metrics) option" where
  "NewQueue cfg m =
     (if MaxQueue cfg < 0 then None
      else Some (\<lparr>q_ch = make_chan (nat (MaxQueue cfg)), q_config = cfg, q_stopCh_closed = False,
                  q_loop_running = True\<rparr>,
                 m\<lparr>QueueCapacity := MaxQueue cfg\<rparr>))"

text \<open>One turn of \<^verbatim>\<open>updateMetricsLoop\<close>: the ticker or the stop channel.\<close>

datatype loop_case = TickCase | StopCase

definition updateMetricsLoop_step :: "loop_case \<Rightarrow> Queue \<times> metrics \<Rightarrow> (Queue \<times> metrics) option" where
  "updateMetricsLoop_step lc = (\<lambda>(q, m).
     if \<not> q_loop_running q then None
     else case lc of
       TickCase \<Rightarrow> Some (q, m\<lparr>QueueDepth := chan_len (q_ch q)\<rparr>)
     | StopCase \<Rightarrow> if q_stopCh_closed q then Some (q\<lparr>q_loop_running := False\<rparr>, m) else None)"

datatype push_error = ErrQueueFull | CtxErr ctx_error

datatype push_result = PushOk | PushErr push_error | PushBlocked | PushPanic

definition Push :: "ctx \<Rightarrow> bool \<Rightarrow> event \<Rightarrow> Queue \<times> metrics \<Rightarrow> push_result \<times> Queue \<times> metrics" where
  "Push c pick_done event = (\<lambda>(q, m).
     if DropIfQueueFull (q_config q) then
       (case chan_send (q_ch q) event of
          Sent ch' \<Rightarrow> (PushOk, q\<lparr>q_ch := ch'\<rparr>, m)
        | SendBlocks \<Rightarrow> (PushErr ErrQueueFull, q, DropsTotal_update (bump ''queue_full'') m)
        | SendPanics \<Rightarrow> (PushPanic, q, m))
     else
       (case (chan_send (q_ch q) event, c) of
          (Sent ch', None) \<Rightarrow> (PushOk, q\<lparr>q_ch := ch'\<rparr>, m)
        | (Sent ch', Some err) \<Rightarrow>
            if pick_done then (PushErr (CtxErr err), q, m) else (PushOk, q\<lparr>q_ch := ch'\<rparr>, m)
        | (SendBlocks, Some err) \<Rightarrow> (PushErr (CtxErr err), q, m)
        | (SendBlocks, None) \<Rightarrow> (PushBlocked, q, m)
        | (SendPanics, Some err) \<Rightarrow>
            if pick_done then (PushErr (CtxErr err), q, m) else (PushPanic, q, m)
        | (SendPanics, None) \<Rightarrow> (PushPanic, q, m)))"

datatype pop_result = Popped event | PoppedNil | PopErr ctx_error | PopBlocked

definition Pop :: "ctx \<Rightarrow> bool \<Rightarrow> Queue \<Rightarrow> pop_result \<times> Queue" where
  "Pop c pick_done q =
     (case (chan_recv (q_ch q), c) of
        (Received e ch', None) \<Rightarrow> (Popped e, q\<lparr>q_ch := ch'\<rparr>)
      | (Received e ch', Some err) \<Rightarrow>
          if pick_done then (PopErr err, q) else (Popped e, q\<lparr>q_ch := ch'\<rparr>)
      | (RecvBlocks, Some err) \<Rightarrow> (PopErr err, q)
      | (RecvBlocks, None) \<Rightarrow> (PopBlocked, q)
      | (RecvClosed, Some err) \<Rightarrow> if pick_done then (PopErr err, q) else (PoppedNil, q)
      | (RecvClosed, None) \<Rightarrow> (PoppedNil, q))"

text \<open>
  \<^verbatim>\<open>Close\<close> stops the metrics loop and waits for it; the event channel itself stays open.  Closing
  twice panics (\<open>None\<close>).
\<close>

definition Queue_Close :: "Queue \<Rightarrow> Queue option" where
  "Queue_Close q =
     (if q_stopCh_closed q then None
      else Some (q\<lparr>q_stopCh_closed := True, q_loop_running := False\<rparr>))"

definition Queue_Size :: "Queue \<Rightarrow> nat" where
  "Queue_Size q = chan_len (q_ch q)"

definition Queue_Capacity :: "Queue \<Rightarrow> nat" where
  "Queue_Capacity q = chan_cap (q_ch q)"

section \<open>Drop mode is a counting bounded queue\<close>

text \<open>The queue under the calls the program makes while its context is live, with the metrics.\<close>

definition queue_put :: "Queue \<times> metrics \<Rightarrow> event \<Rightarrow> bool \<times> Queue \<times> metrics" where
  "queue_put qm e = (case Push None False e qm of (r, qm') \<Rightarrow> (r = PushOk, qm'))"

definition queue_get :: "Queue \<times> metrics \<Rightarrow> (event \<times> Queue \<times> metrics) option" where
  "queue_get = (\<lambda>(q, m). case Pop None False q of (Popped e, q') \<Rightarrow> Some (e, q', m) | _ \<Rightarrow> None)"

definition queue_items :: "Queue \<times> metrics \<Rightarrow> event list" where
  "queue_items qm = chan_buf (q_ch (fst qm))"

definition queue_bound :: "Queue \<times> metrics \<Rightarrow> nat" where
  "queue_bound qm = Queue_Capacity (fst qm)"

definition queue_dropped :: "Queue \<times> metrics \<Rightarrow> nat" where
  "queue_dropped qm = DropsTotal (snd qm) ''queue_full''"

definition drop_mode :: "Queue \<times> metrics \<Rightarrow> bool" where
  "drop_mode qm \<longleftrightarrow> DropIfQueueFull (q_config (fst qm)) \<and> \<not> chan_closed (q_ch (fst qm))"

lemmas queue_view_defs = queue_items_def queue_bound_def queue_dropped_def drop_mode_def
  Queue_Capacity_def

lemma queue_put_drop_mode:
  "drop_mode (q, m) \<Longrightarrow> queue_put (q, m) e =
     (if length (chan_buf (q_ch q)) < chan_cap (q_ch q)
      then (True, q\<lparr>q_ch := (q_ch q)\<lparr>chan_buf := chan_buf (q_ch q) @ [e]\<rparr>\<rparr>, m)
      else (False, q, DropsTotal_update (bump ''queue_full'') m))"
  by (simp add: queue_put_def queue_view_defs Push_def chan_send_def)

lemma queue_get_drop_mode:
  "drop_mode (q, m) \<Longrightarrow> queue_get (q, m) =
     (case chan_buf (q_ch q) of [] \<Rightarrow> None
      | e # es \<Rightarrow> Some (e, q\<lparr>q_ch := (q_ch q)\<lparr>chan_buf := es\<rparr>\<rparr>, m))"
  by (simp add: queue_get_def queue_view_defs Pop_def chan_recv_def split: list.split)

interpretation eq: counting_queue queue_items queue_bound queue_put queue_get drop_mode queue_dropped
proof (unfold_locales, goal_cases)
  case (5 qm) then show ?case
    by (cases qm) (simp add: queue_get_drop_mode queue_items_def split: list.split)
next
  case (6 qm x qm') then show ?case
    by (cases qm) (auto simp: queue_get_drop_mode queue_view_defs split: list.splits)
next
  case (8 qm x qm') then show ?case
    by (cases qm) (auto simp: queue_get_drop_mode queue_view_defs split: list.splits)
qed ((case_tac q; simp add: queue_put_drop_mode; simp add: queue_view_defs)+)

text \<open>A queue of two places in drop mode, for the witnesses.\<close>

definition example_queue :: "bool \<Rightarrow> Queue \<times> metrics" where
  "example_queue drop_full = the (NewQueue \<lparr>MaxQueue = 2, DropIfQueueFull = drop_full, SampleRatio = Fin 1,
     Reconnect = Reconnect (Stream (Tetragon DefaultConfig))\<rparr> metrics_init)"

lemmas example_queue_eval = example_queue_def NewQueue_def make_chan_def metrics_init_def
  queue_view_defs

text \<open>
  C9: Queue refinement.  In drop mode, every sequence of pushes and pops returns what the abstract
  bounded queue returns, and leaves contents, capacity and the \<^verbatim>\<open>drops_total{reason="queue_full"}\<close>
  counter as the abstract queue has them.
\<close>

theorem queue_refines_spec:
  assumes "drop_mode qm"
    and "impl_run queue_put queue_get ops qm = (obs, qm')"
  shows "spec_run ops \<lparr>sq_items = queue_items qm, sq_bound = queue_bound qm, sq_dropped = queue_dropped qm\<rparr>
    = (obs, \<lparr>sq_items = queue_items qm', sq_bound = queue_bound qm', sq_dropped = queue_dropped qm'\<rparr>)"
  using eq.run_refines [OF assms(1), of ops] assms(2) by (simp add: eq.abs_queue_def)

theorem queue_refines_spec_witness:
  "fst (impl_run queue_put queue_get [Put example_event, Put example_event, Put example_event, Get]
      (example_queue True))
    = [PutResult True, PutResult True, PutResult False, GotResult (Some example_event)]"
proof -
  let ?ops = "[Put example_event, Put example_event, Put example_event, Get]"
  have d: "drop_mode (example_queue True)" by (simp add: example_queue_eval)
  obtain obs qm' where r: "impl_run queue_put queue_get ?ops (example_queue True) = (obs, qm')"
    by (rule prod.exhaust)
  have "fst (spec_run ?ops \<lparr>sq_items = queue_items (example_queue True),
      sq_bound = queue_bound (example_queue True), sq_dropped = queue_dropped (example_queue True)\<rparr>) = obs"
    using queue_refines_spec [OF d r] by simp
  then show ?thesis using r by (simp add: example_queue_eval)
qed

text \<open>
  Queue order and accounting.  In drop mode, the events popped are the events accepted, in the
  same order, the rest being still queued; every event pushed is either accepted or counted as
  dropped; and the queue never holds more than its capacity.
\<close>

theorem queue_conserves_events:
  assumes "drop_mode qm" and "length (queue_items qm) \<le> queue_bound qm"
    and "impl_run queue_put queue_get ops qm = (obs, qm')"
  shows "queue_items qm @ accepted ops obs = delivered obs @ queue_items qm' \<and>
    length (offered ops) + queue_dropped qm = length (accepted ops obs) + queue_dropped qm' \<and>
    length (queue_items qm') \<le> queue_bound qm'"
  using eq.run_fifo [OF assms(1,3)] eq.run_accounting [OF assms(1,3)]
    eq.run_within [OF assms(1,3,2)] by simp

theorem queue_conserves_events_witness:
  "\<exists>obs qm'. impl_run queue_put queue_get [Put example_event, Get] (example_queue True) = (obs, qm') \<and>
    accepted [Put example_event, Get] obs = delivered obs @ queue_items qm'"
proof -
  obtain obs qm' where r: "impl_run queue_put queue_get [Put example_event, Get] (example_queue True) = (obs, qm')"
    by (rule prod.exhaust)
  have "drop_mode (example_queue True)" "queue_items (example_queue True) = []"
    by (simp_all add: example_queue_eval)
  then show ?thesis using queue_conserves_events [OF _ _ r] r by simp
qed

section \<open>Block mode never drops\<close>

text \<open>
  Block mode.  With \<^verbatim>\<open>DropIfQueueFull\<close> off, a push on the open channel never reports a full
  queue and never counts a drop: it appends the event, or waits because the queue is full and the
  context live, or returns the context's error, leaving the queue as it was in both cases.
\<close>

theorem block_mode_push:
  assumes "\<not> DropIfQueueFull (q_config q)" and "\<not> chan_closed (q_ch q)"
    and "Push c pick event (q, m) = (r, q', m')"
  shows "m' = m \<and>
    (r = PushOk \<and> queue_items (q', m') = queue_items (q, m) @ [event] \<and> Queue_Size q < Queue_Capacity q
     \<or> r = PushBlocked \<and> q' = q \<and> Queue_Size q \<ge> Queue_Capacity q \<and> c = None
     \<or> (\<exists>err. r = PushErr (CtxErr err) \<and> q' = q \<and> c = Some err))"
  using assms
  by (auto simp: Push_def queue_items_def chan_results Queue_Size_def Queue_Capacity_def chan_len_def
      split: send_result.splits option.splits if_splits)

theorem block_mode_push_witness:
  "fst (Push (Some Canceled) True example_event (example_queue False)) = PushErr (CtxErr Canceled) \<and>
   snd (snd (Push (Some Canceled) True example_event (example_queue False))) = metrics_init\<lparr>QueueCapacity := 2\<rparr>"
proof -
  have q: "example_queue False = (fst (example_queue False), metrics_init\<lparr>QueueCapacity := 2\<rparr>)"
    by (simp add: example_queue_eval)
  obtain r q' m' where p: "Push (Some Canceled) True example_event (example_queue False) = (r, q', m')"
    by (metis prod_cases3)
  have "\<not> DropIfQueueFull (q_config (fst (example_queue False)))"
    "\<not> chan_closed (q_ch (fst (example_queue False)))"
    by (simp_all add: example_queue_eval)
  then have "m' = metrics_init\<lparr>QueueCapacity := 2\<rparr>"
    using block_mode_push [of "fst (example_queue False)" "Some Canceled" True example_event] p q by metis
  moreover have "r = PushErr (CtxErr Canceled)"
    using p by (simp add: example_queue_eval Push_def chan_send_def)
  ultimately show ?thesis using p by simp
qed

section \<open>Sampler\<close>

text \<open>
  \<^verbatim>\<open>rand.Float64()\<close> returns a number in \<open>[0, 1)\<close>, here an argument.
\<close>

definition ShouldSample :: "StreamConfig \<Rightarrow> rat \<Rightarrow> event \<Rightarrow> metrics \<Rightarrow> bool \<times> metrics" where
  "ShouldSample cfg rnd event m =
     (let eventType = DetectEventType event
      in if f64_leq (Fin 1) (SampleRatio cfg)
         then (True, SampledTotal_update (bump eventType) m)
         else if f64_less (Fin rnd) (SampleRatio cfg)
         then (True, SampledTotal_update (bump eventType) m)
         else (False, m))"

text \<open>
  Sampling decision.  For a random number in \<open>[0, 1)\<close> an event is kept exactly when that number
  is below the ratio, at every ratio of one or more always and at a ratio of zero or less never; the
  sampled counter of the event's type grows by one for a kept event, and nothing else changes.  In
  particular an event that is sampled out is counted nowhere.
\<close>

theorem sampling_decision:
  assumes "0 \<le> rnd" and "rnd < 1"
  shows "ShouldSample cfg rnd event m =
    (if f64_less (Fin rnd) (SampleRatio cfg)
     then (True, SampledTotal_update (bump (DetectEventType event)) m) else (False, m))"
  using assms by (cases "SampleRatio cfg") (auto simp: ShouldSample_def Let_def f64_leq_def)

theorem sampling_decision_witness:
  "fst (ShouldSample (Stream (Tetragon DefaultConfig)) (1/2) example_event metrics_init) \<and>
   ShouldSample ((Stream (Tetragon DefaultConfig))\<lparr>SampleRatio := NaN\<rparr>) (1/2) example_event metrics_init
     = (False, metrics_init)"
  using sampling_decision [of "1/2" "Stream (Tetragon DefaultConfig)" example_event metrics_init]
    sampling_decision [of "1/2" "(Stream (Tetragon DefaultConfig))\<lparr>SampleRatio := NaN\<rparr>"
      example_event metrics_init]
  by (simp add: DefaultConfig_def)

end
