(* ===== verification/Sha256.thy ===== *)
theory Sha256
  imports Prelude
begin

text \<open>
  The two standard-library functions the deduplication key rests on: \<^verbatim>\<open>crypto/sha256\<close>, as FIPS
  180-4 specifies it, and \<^verbatim>\<open>hex.EncodeToString\<close>.  Both are executable.
\<close>

unbundle bit_operations_syntax

section \<open>Hexadecimal encoding\<close>

definition hextable :: string where
  "hextable = ''0123456789abcdef''"

definition hex_byte :: "char \<Rightarrow> string" where
  "hex_byte c = [hextable ! (of_char c div 16), hextable ! (of_char c mod 16)]"

definition hex_encode :: "string \<Rightarrow> string" where
  "hex_encode s = concat (map hex_byte s)"

lemma hextable_facts: "length hextable = 16" "distinct hextable"
  by (simp_all add: hextable_def)

lemma length_hex_byte [simp]: "length (hex_byte c) = 2"
  by (simp add: hex_byte_def)

lemma length_hex_encode [simp]: "length (hex_encode s) = 2 * length s"
  by (induction s) (simp_all add: hex_encode_def)

lemma of_char_less: "(of_char c :: nat) < 256"
  by simp

lemma nibbles: "(of_char c :: nat) div 16 < 16" "(of_char c :: nat) mod 16 < 16"
  using of_char_less [of c] by (simp_all only: less_mult_imp_div_less)

lemma hex_encode_alphabet: "set (hex_encode s) \<subseteq> set hextable"
  using nibbles by (auto simp: hex_encode_def hex_byte_def hextable_facts)

lemma hex_byte_inj: "hex_byte c = hex_byte d \<Longrightarrow> c = d"
proof -
  assume "hex_byte c = hex_byte d"
  then have "(of_char c :: nat) div 16 = of_char d div 16" "(of_char c :: nat) mod 16 = of_char d mod 16"
    using nibbles [of c] nibbles [of d] hextable_facts
    by (simp_all add: hex_byte_def nth_eq_iff_index_eq)
  then have "(of_char c :: nat) = of_char d" by (metis div_mult_mod_eq)
  then show "c = d" by simp
qed

text \<open>Hexadecimal encoding loses nothing.\<close>

lemma hex_encode_inj: "hex_encode s = hex_encode t \<Longrightarrow> s = t"
proof (induction s arbitrary: t)
  case Nil
  then have "length (hex_encode t) = 0" by (metis length_hex_encode list.size(3) mult_0_right)
  then show ?case by simp
next
  case (Cons c s)
  have "length (hex_encode t) = 2 * Suc (length s)" using Cons.prems by (metis length_Cons length_hex_encode)
  then obtain d t' where t: "t = d # t'" by (cases t) auto
  have "hex_byte c @ hex_encode s = hex_byte d @ hex_encode t'"
    using Cons.prems t by (simp add: hex_encode_def)
  then have "hex_byte c = hex_byte d" "hex_encode s = hex_encode t'" by simp_all
  then show ?case using Cons.IH hex_byte_inj t by blast
qed

section \<open>SHA-256\<close>

text \<open>
  The constants as the standard explains them: the first 32 bits of the fractional parts of the cube
  roots of the first 64 primes, and of the square roots of the first eight.  \<open>root_bits\<close> finds the
  integer root bit by bit.
\<close>

fun root_bits :: "nat \<Rightarrow> nat \<Rightarrow> int \<Rightarrow> int \<Rightarrow> int" where
  "root_bits k 0 n acc = acc"
| "root_bits k (Suc b) n acc =
     (let t = acc + 2 ^ b in root_bits k b n (if t ^ k \<le> n then t else acc))"

definition root_fraction :: "nat \<Rightarrow> int \<Rightarrow> u32" where
  "root_fraction k p = word_of_int (root_bits k 35 (p * 2 ^ (32 * k)) 0)"

definition first_primes :: "int list" where
  "first_primes = filter (\<lambda>n. \<forall>d \<in> set [2..17]. d < n \<longrightarrow> n mod d \<noteq> 0) [2..311]"

definition sha_K :: "u32 list" where
  "sha_K = map (root_fraction 3) first_primes"

definition sha_H0 :: "u32 list" where
  "sha_H0 = map (root_fraction 2) [2, 3, 5, 7, 11, 13, 17, 19]"

definition rotr :: "nat \<Rightarrow> u32 \<Rightarrow> u32" where
  "rotr n w = drop_bit n w OR push_bit (32 - n) w"

definition big_sigma0 :: "u32 \<Rightarrow> u32" where
  "big_sigma0 x = rotr 2 x XOR rotr 13 x XOR rotr 22 x"

definition big_sigma1 :: "u32 \<Rightarrow> u32" where
  "big_sigma1 x = rotr 6 x XOR rotr 11 x XOR rotr 25 x"

definition small_sigma0 :: "u32 \<Rightarrow> u32" where
  "small_sigma0 x = rotr 7 x XOR rotr 18 x XOR drop_bit 3 x"

definition small_sigma1 :: "u32 \<Rightarrow> u32" where
  "small_sigma1 x = rotr 17 x XOR rotr 19 x XOR drop_bit 10 x"

definition sha_ch :: "u32 \<Rightarrow> u32 \<Rightarrow> u32 \<Rightarrow> u32" where
  "sha_ch x y z = (x AND y) XOR (NOT x AND z)"

definition sha_maj :: "u32 \<Rightarrow> u32 \<Rightarrow> u32 \<Rightarrow> u32" where
  "sha_maj x y z = (x AND y) XOR (x AND z) XOR (y AND z)"

text \<open>Padding: a one bit, zeros, and the length in bits as eight big-endian bytes.\<close>

definition be_bytes :: "nat \<Rightarrow> int \<Rightarrow> string" where
  "be_bytes k n = map (\<lambda>i. char_of (n div 256 ^ (k - 1 - i) mod 256)) [0..<k]"

definition sha_pad :: "string \<Rightarrow> string" where
  "sha_pad s = s @ CHR 0x80 # replicate ((119 - length s mod 64) mod 64) (CHR 0x00)
     @ be_bytes 8 (8 * int (length s))"

fun be_word :: "string \<Rightarrow> u32" where
  "be_word s = foldl (\<lambda>w c. push_bit 8 w OR word_of_int (of_char c)) 0 s"

fun chunks :: "nat \<Rightarrow> nat \<Rightarrow> 'a list \<Rightarrow> 'a list list" where
  "chunks 0 k xs = []"
| "chunks (Suc n) k xs = take k xs # chunks n k (drop k xs)"

text \<open>The message schedule is kept newest first: \<open>ws ! 1\<close> is the word two before.\<close>

fun schedule :: "nat \<Rightarrow> u32 list \<Rightarrow> u32 list" where
  "schedule 0 ws = ws"
| "schedule (Suc n) ws =
     schedule n ((small_sigma1 (ws ! 1) + ws ! 6 + small_sigma0 (ws ! 14) + ws ! 15) # ws)"

type_synonym sha_state = "u32 \<times> u32 \<times> u32 \<times> u32 \<times> u32 \<times> u32 \<times> u32 \<times> u32"

fun sha_round :: "sha_state \<Rightarrow> u32 \<times> u32 \<Rightarrow> sha_state" where
  "sha_round (a, b, c, d, e, f, g, h) (k, w) =
     (let t1 = h + big_sigma1 e + sha_ch e f g + k + w;
          t2 = big_sigma0 a + sha_maj a b c
      in (t1 + t2, a, b, c, d + t1, e, f, g))"

definition sha_block :: "u32 list \<Rightarrow> string \<Rightarrow> u32 list" where
  "sha_block hs blk =
     (let ws = rev (schedule 48 (rev (map be_word (chunks 16 4 blk))));
          (a, b, c, d, e, f, g, h) =
            foldl sha_round (hs ! 0, hs ! 1, hs ! 2, hs ! 3, hs ! 4, hs ! 5, hs ! 6, hs ! 7)
              (zip sha_K ws)
      in map2 (+) hs [a, b, c, d, e, f, g, h])"

definition sha256 :: "string \<Rightarrow> string" where
  "sha256 s =
     (let p = sha_pad s
      in concat (map (be_bytes 4 \<circ> uint) (foldl sha_block sha_H0 (chunks (length p div 64) 64 p))))"

lemma length_be_bytes [simp]: "length (be_bytes k n) = k"
  by (simp add: be_bytes_def)

lemma length_sha_block [simp]: "length hs = 8 \<Longrightarrow> length (sha_block hs blk) = 8"
  by (simp add: sha_block_def Let_def split: prod.split)

lemma length_sha_foldl: "length hs = 8 \<Longrightarrow> length (foldl sha_block hs bs) = 8"
  by (induction bs arbitrary: hs) simp_all

lemma length_concat_be: "length (concat (map (be_bytes k \<circ> g) xs)) = k * length xs"
  by (induction xs) simp_all

text \<open>The padded message is a whole number of 64-byte blocks, and the digest is 32 bytes.\<close>

lemma length_sha_pad: "length (sha_pad s) mod 64 = 0"
proof -
  define q r where "q = length s div 64" and "r = length s mod 64"
  have len: "length s = 64 * q + r" "r < 64" by (simp_all add: q_def r_def)
  have pad: "length (sha_pad s) = 64 * q + (r + 9 + (119 - r) mod 64)"
    unfolding sha_pad_def using len(1) by (simp add: r_def)
  show ?thesis
  proof (cases "r \<le> 55")
    case True
    then have "(119 - r) mod 64 = 55 - r" by (simp add: mod_if)
    with pad True show ?thesis by simp
  next
    case False
    then have "(119 - r) mod 64 = 119 - r" using len(2) by simp
    with pad False len(2) have "length (sha_pad s) = 64 * (q + 2)" by simp
    then show ?thesis by simp
  qed
qed

lemma length_sha256 [simp]: "length (sha256 s) = 32"
  unfolding sha256_def Let_def length_concat_be by (simp add: length_sha_foldl sha_H0_def)

end
