(* ===== verification/Partition_Key.thy ===== *)
theory Partition_Key
  imports Router Sha256 Config
begin

text \<open>
  \<^verbatim>\<open>internal/kafka/partition_key.go\<close>: the Kafka message key used for deduplication in compacted
  topics.  The abstract view is \<open>key_parts\<close>, the non-empty values of the configured fields, joined
  by the separator; the code builds the same string incrementally and replaces it by a digest when
  it is longer than 100 bytes.
\<close>

section \<open>Field extraction\<close>

text \<open>The guard \<^verbatim>\<open>event.GetX() != nil && event.GetX().Process != nil\<close> of both extractors.\<close>

definition has_process :: "process_event option \<Rightarrow> bool" where
  "has_process pe = (case pe of None \<Rightarrow> False | Some p \<Rightarrow> pe_Process p \<noteq> None)"

definition select_process :: "event \<Rightarrow> process_event option" where
  "select_process e =
     (if has_process (GetProcessExec e) then GetProcessExec e
      else if has_process (GetProcessExit e) then GetProcessExit e
      else if has_process (GetProcessKprobe e) then GetProcessKprobe e
      else if has_process (GetProcessTracepoint e) then GetProcessTracepoint e
      else None)"

definition fmt_pid :: "process \<Rightarrow> string" where
  "fmt_pid p = (case proc_Pid p of Some v \<Rightarrow> fmt_nat (unat v) | None \<Rightarrow> '''')"

definition extractProcessField :: "event \<Rightarrow> string \<Rightarrow> string" where
  "extractProcessField e field =
     (case select_process e of
        None \<Rightarrow> ''''
      | Some pe \<Rightarrow>
          (case pe_Process pe of
             None \<Rightarrow> ''''
           | Some proc \<Rightarrow>
               (if field = ''pid'' then fmt_pid proc
                else if field = ''binary'' then proc_Binary proc
                else if field = ''ppid'' then
                  (case pe_Parent pe of Some parent \<Rightarrow> fmt_pid parent | None \<Rightarrow> '''')
                else '''')))"

definition extractK8sField :: "event \<Rightarrow> string \<Rightarrow> string" where
  "extractK8sField e field =
     (case select_process e of
        None \<Rightarrow> ''''
      | Some pe \<Rightarrow>
          (case Option.bind (pe_Process pe) proc_Pod of
             None \<Rightarrow> ''''
           | Some pd \<Rightarrow>
               (if field = ''namespace'' then pod_Namespace pd
                else if field = ''pod'' then pod_Name pd
                else if field = ''container'' then
                  (case pod_Container pd of Some n \<Rightarrow> n | None \<Rightarrow> '''')
                else '''')))"

definition extractFieldValue :: "event \<Rightarrow> string \<Rightarrow> string" where
  "extractFieldValue e field =
     (let parts = split_on CHR ''.'' field
      in if hd parts = ''node'' then GetEventNode e
         else if hd parts = ''type'' then DetectEventType e
         else if hd parts = ''process'' then
           (if length parts > 1 then extractProcessField e (parts ! 1) else '''')
         else if hd parts = ''k8s'' then
           (if length parts > 1 then extractK8sField e (parts ! 1) else '''')
         else if hd parts = ''timestamp'' then
           (case ev_Time e of Some t \<Rightarrow> fmt_int (sint (unix_nano t)) | None \<Rightarrow> '''')
         else '''')"

section \<open>Key generation\<close>

text \<open>The loop over \<^verbatim>\<open>cfg.Fields\<close>, with the builder and the \<^verbatim>\<open>first\<close> flag as loop state.\<close>

fun key_loop :: "event \<Rightarrow> string \<Rightarrow> string list \<Rightarrow> string \<Rightarrow> bool \<Rightarrow> string" where
  "key_loop e sep [] builder first = builder"
| "key_loop e sep (field # rest) builder first =
     (let value = extractFieldValue e field
      in if value \<noteq> ''''
         then key_loop e sep rest ((if first then builder else builder @ sep) @ value) False
         else key_loop e sep rest builder first)"

definition GenerateDedupKey :: "event \<Rightarrow> PartitionKeyConfig \<Rightarrow> string" where
  "GenerateDedupKey e cfg =
     (let key = key_loop e (Separator cfg) (Fields cfg) '''' True
      in if length key > 100 then take 32 (hex_encode (sha256 key)) else key)"

section \<open>The abstract view\<close>

definition key_parts :: "event \<Rightarrow> string list \<Rightarrow> string list" where
  "key_parts e fs = filter (\<lambda>v. v \<noteq> '''') (map (extractFieldValue e) fs)"

lemma key_parts_simps [simp]:
  "key_parts e [] = []"
  "key_parts e (f # fs) =
     (if extractFieldValue e f \<noteq> '''' then extractFieldValue e f # key_parts e fs else key_parts e fs)"
  by (simp_all add: key_parts_def)

lemma key_loop_join_later:
  "key_loop e sep fs b False = concat (b # map (\<lambda>v. sep @ v) (key_parts e fs))"
  by (induction fs arbitrary: b) (simp_all add: Let_def)

lemma key_loop_join: "key_loop e sep fs '''' True = join sep (key_parts e fs)"
proof (induction fs)
  case (Cons f fs)
  then show ?case
    by (cases "extractFieldValue e f = ''''")
      (simp_all add: Let_def key_loop_join_later join_concat)
qed simp

lemma dedup_key_eq:
  "GenerateDedupKey e cfg =
     (let key = join (Separator cfg) (key_parts e (Fields cfg))
      in if length key \<le> 100 then key else take 32 (hex_encode (sha256 key)))"
  by (simp add: GenerateDedupKey_def key_loop_join Let_def)

text \<open>
  C36: Key format.  \<^verbatim>\<open>GenerateDedupKey\<close> returns the non-empty values of the configured fields, in the
  configured order and joined by the configured separator, when that is at most 100 bytes long, and
  otherwise the first 32 hexadecimal digits of its SHA-256.
\<close>

theorem dedup_key_format:
  "GenerateDedupKey e cfg =
     (let key = join (Separator cfg) (key_parts e (Fields cfg))
      in if length key \<le> 100 then key else take 32 (hex_encode (sha256 key)))"
  by (rule dedup_key_eq)

text \<open>
  Bounded keys.  Whatever the event and the configuration, the key is at most 100 bytes, and a
  key that stands for a longer one is 32 hexadecimal digits.
\<close>

theorem dedup_key_bounded:
  "length (GenerateDedupKey e cfg) \<le> 100 \<and>
   (GenerateDedupKey e cfg = join (Separator cfg) (key_parts e (Fields cfg)) \<or>
    length (GenerateDedupKey e cfg) = 32 \<and> set (GenerateDedupKey e cfg) \<subseteq> set hextable)"
proof (cases "length (join (Separator cfg) (key_parts e (Fields cfg))) \<le> 100")
  case True
  then show ?thesis by (simp add: dedup_key_eq Let_def)
next
  case False
  then have "GenerateDedupKey e cfg
      = take 32 (hex_encode (sha256 (join (Separator cfg) (key_parts e (Fields cfg)))))"
    by (simp add: dedup_key_eq Let_def)
  then show ?thesis using hex_encode_alphabet by (auto dest: in_set_takeD)
qed

section \<open>The default key\<close>

lemma field_value_node [simp]: "extractFieldValue e ''node'' = GetEventNode e"
  by (simp add: extractFieldValue_def Let_def)

lemma field_value_type [simp]: "extractFieldValue e ''type'' = DetectEventType e"
  by (simp add: extractFieldValue_def Let_def)

lemma field_value_pid [simp]: "extractFieldValue e ''process.pid'' = extractProcessField e ''pid''"
  by (simp add: extractFieldValue_def Let_def)

lemma field_value_timestamp [simp]:
  "extractFieldValue e ''timestamp'' =
     (case ev_Time e of Some t \<Rightarrow> fmt_int (sint (unix_nano t)) | None \<Rightarrow> '''')"
  by (simp add: extractFieldValue_def Let_def)

text \<open>The process id an event contributes to its key.\<close>

definition event_pid :: "event \<Rightarrow> u32 option" where
  "event_pid e = Option.bind (payload_process_event (ev_Payload e))
     (\<lambda>pe. Option.bind (pe_Process pe) proc_Pid)"

lemma extractProcessField_pid:
  "extractProcessField e ''pid'' = (case event_pid e of Some v \<Rightarrow> fmt_nat (unat v) | None \<Rightarrow> '''')"
  by (cases "ev_Payload e")
    (auto simp: extractProcessField_def select_process_def has_process_def event_pid_def fmt_pid_def
      split: option.splits)

lemma default_fields: "Fields default_partition_key = [''node'', ''type'', ''process.pid'', ''timestamp'']"
  by (simp add: default_partition_key_def)

lemma default_separator: "Separator default_partition_key = '':''"
  by (simp add: default_partition_key_def)

lemma fmt_int_chars: "set (fmt_int i) \<subseteq> insert CHR ''-'' {c. is_digit c}"
  using fmt_nat_digits by (auto simp: fmt_int_def)

lemma colon_no_digit: "\<not> is_digit CHR '':''"
  by (simp add: is_digit_def)

lemma fmt_int_no_colon: "CHR '':'' \<notin> set (fmt_int i)"
  using fmt_int_chars colon_no_digit by fastforce

lemma fmt_nat_no_colon: "CHR '':'' \<notin> set (fmt_nat i)"
  using fmt_nat_digits colon_no_digit by fastforce

lemma minus_no_digit: "\<not> is_digit CHR ''-''"
  by (simp add: is_digit_def)

lemma fmt_int_inj: "fmt_int i = fmt_int j \<Longrightarrow> i = j"
proof -
  assume eq: "fmt_int i = fmt_int j"
  have no_minus: "hd (fmt_nat n) \<noteq> CHR ''-''" for n
    using fmt_nat_digits [of n] minus_no_digit fmt_nat_nonempty [of n] by (metis list.set_sel(1))
  have "i < 0 \<longleftrightarrow> j < 0"
    using eq no_minus by (auto simp: fmt_int_def split: if_splits) (metis list.sel(1))+
  then show "i = j" using eq by (auto simp: fmt_int_def inj_fmt_nat split: if_splits)
qed

lemma fmt_int_nonempty [simp]: "fmt_int i \<noteq> []"
  by (simp add: fmt_int_def)

lemma first_sep_eq:
  "c \<notin> set u \<Longrightarrow> c \<notin> set u' \<Longrightarrow> u @ c # v = u' @ c # v' \<Longrightarrow> u = u' \<and> v = v'"
proof (induction u arbitrary: u')
  case Nil
  then show ?case by (cases u') auto
next
  case (Cons x u)
  then show ?case by (cases u') auto
qed

lemma append_sep_eq:
  assumes "c \<notin> set b" and "c \<notin> set b'" and "a @ [c] @ b = a' @ [c] @ b'"
  shows "a = a' \<and> b = b'"
proof -
  have "rev (a @ [c] @ b) = rev (a' @ [c] @ b')" using assms(3) by (rule arg_cong)
  then have "rev b @ c # rev a = rev b' @ c # rev a'" by simp
  then have "rev b = rev b' \<and> rev a = rev a'"
    using assms(1,2) by (intro first_sep_eq) simp_all
  then show ?thesis by simp
qed

text \<open>
  C11: No false deduplication.  Under the default key configuration, two events that carry a process
  id and a time and whose keys are not digests get the same Kafka key only if they agree on node,
  event type, process id and nanosecond timestamp; whatever characters the node name holds.
\<close>

theorem default_key_injective:
  assumes "event_pid e = Some p" and "event_pid e' = Some p'"
    and "ev_Time e = Some t" and "ev_Time e' = Some t'"
    and "length (join '':'' (key_parts e (Fields default_partition_key))) \<le> 100"
    and "length (join '':'' (key_parts e' (Fields default_partition_key))) \<le> 100"
    and "GenerateDedupKey e default_partition_key = GenerateDedupKey e' default_partition_key"
  shows "GetEventNode e = GetEventNode e' \<and> DetectEventType e = DetectEventType e' \<and>
    p = p' \<and> unix_nano t = unix_nano t'"
proof -
  let ?key = "\<lambda>e p t. ((GetEventNode e @ '':'' @ DetectEventType e) @ '':'' @ fmt_nat (unat p)) @ '':''
    @ fmt_int (sint (unix_nano t))"
  have k: "join '':'' (key_parts e (Fields default_partition_key)) = ?key e p t"
    "join '':'' (key_parts e' (Fields default_partition_key)) = ?key e' p' t'"
    using assms(1-4) by (simp_all add: default_fields extractProcessField_pid)
  then have eq: "?key e p t = ?key e' p' t'"
    using assms(5-7) by (simp add: dedup_key_eq default_separator Let_def)
  have col: "CHR '':'' \<notin> set (DetectEventType x)" for x
    using event_types_no_separator DetectEventType_range by blast
  note 1 = append_sep_eq [OF fmt_int_no_colon fmt_int_no_colon eq]
  note 2 = append_sep_eq [OF fmt_nat_no_colon fmt_nat_no_colon 1 [THEN conjunct1]]
  note 3 = append_sep_eq [OF col col 2 [THEN conjunct1]]
  have "unat p = unat p'" using 2 by (simp only: inj_fmt_nat)
  then have "p = p'" by (rule word_unat_eq_iff [THEN iffD2])
  moreover have "sint (unix_nano t) = sint (unix_nano t')" using 1 [THEN conjunct2] by (rule fmt_int_inj)
  then have "unix_nano t = unix_nano t'" by (rule signed_word_eqI)
  ultimately show ?thesis using 3 by blast
qed

text \<open>Two deliveries of one event that differ only in a field outside the key.\<close>

definition example_redelivery :: event where
  "example_redelivery = example_event\<lparr>ev_Rest := ''redelivered''\<rparr>"

lemma example_key:
  "join '':'' (key_parts example_event (Fields default_partition_key))
     = ''node-a:process_exec:42:1000000005''"
  by (simp add: default_fields extractProcessField_pid event_pid_def GetEventNode_def
      DetectEventType_payload example_defs unix_nano_def fmt_eval)

lemma extract_ignores_rest:
  "extractProcessField (e\<lparr>ev_Rest := x\<rparr>) f = extractProcessField e f"
  "extractK8sField (e\<lparr>ev_Rest := x\<rparr>) f = extractK8sField e f"
  "GetEventNode (e\<lparr>ev_Rest := x\<rparr>) = GetEventNode e"
  "DetectEventType (e\<lparr>ev_Rest := x\<rparr>) = DetectEventType e"
  by (simp_all add: extractProcessField_def extractK8sField_def select_process_def
      GetEventNode_def DetectEventType_def)

lemma key_parts_ignore_rest: "key_parts (e\<lparr>ev_Rest := x\<rparr>) fs = key_parts e fs"
proof -
  have "extractFieldValue (e\<lparr>ev_Rest := x\<rparr>) = extractFieldValue e"
    by (rule ext) (simp add: extractFieldValue_def Let_def extract_ignores_rest)
  then show ?thesis by (simp add: key_parts_def)
qed

lemma example_redelivery_parts: "key_parts example_redelivery fs = key_parts example_event fs"
  unfolding example_redelivery_def by (rule key_parts_ignore_rest)

theorem default_key_injective_witness:
  "GenerateDedupKey example_event default_partition_key = ''node-a:process_exec:42:1000000005'' \<and>
   GetEventNode example_event = GetEventNode example_redelivery \<and>
   unix_nano \<lparr>ts_Seconds = 1, ts_Nanos = 5\<rparr> = unix_nano \<lparr>ts_Seconds = 1, ts_Nanos = 5\<rparr>"
proof -
  have p: "event_pid example_event = Some 42" "event_pid example_redelivery = Some 42"
    by (simp_all add: event_pid_def example_redelivery_def example_defs)
  have t: "ev_Time example_event = Some \<lparr>ts_Seconds = 1, ts_Nanos = 5\<rparr>"
    "ev_Time example_redelivery = Some \<lparr>ts_Seconds = 1, ts_Nanos = 5\<rparr>"
    by (simp_all add: example_redelivery_def example_defs)
  have k: "GenerateDedupKey example_event default_partition_key = ''node-a:process_exec:42:1000000005''"
    "GenerateDedupKey example_redelivery default_partition_key = ''node-a:process_exec:42:1000000005''"
    by (simp_all add: dedup_key_eq default_separator example_key example_redelivery_parts)
  show ?thesis
    using default_key_injective [OF p t] k by (simp add: example_key example_redelivery_parts)
qed

end
