(* ===== verification/Timestamps.thy ===== *)
theory Timestamps
  imports Prelude
begin

text \<open>
  The two functions of package \<^verbatim>\<open>time\<close> the event schema uses: \<^verbatim>\<open>time.Unix(0, ns).UTC()\<close>, the civil date of an
  instant, and \<^verbatim>\<open>Format(time.RFC3339Nano)\<close>, for instants from 1970 on given in nanoseconds.  A reader of
  the format is defined beside the printer, and reads back the instant.
\<close>

section \<open>The civil calendar\<close>

definition leap :: "nat \<Rightarrow> bool" where
  "leap y \<longleftrightarrow> 4 dvd y \<and> (\<not> 100 dvd y \<or> 400 dvd y)"

definition year_days :: "nat \<Rightarrow> nat" where
  "year_days y = (if leap y then 366 else 365)"

definition month_days :: "nat \<Rightarrow> nat list" where
  "month_days y = [31, if leap y then 29 else 28, 31, 30, 31, 30, 31, 31, 30, 31, 30, 31]"

lemma year_days_pos [simp]: "0 < year_days y"
  by (simp add: year_days_def)

lemma sum_month_days: "sum_list (month_days y) = year_days y"
  by (simp add: month_days_def year_days_def)

text \<open>Year and day of the year, counting years from \<open>y\<close> on.\<close>

function split_year :: "nat \<Rightarrow> nat \<Rightarrow> nat \<times> nat" where
  "split_year y d = (if d < year_days y then (y, d) else split_year (Suc y) (d - year_days y))"
  by auto
termination
  by (relation "measure snd") (auto simp: year_days_def split: if_splits)

declare split_year.simps [simp del]

text \<open>Month (from 1) and day of the month (from 0), counting months from \<open>m\<close> on.\<close>

fun split_month :: "nat \<Rightarrow> nat list \<Rightarrow> nat \<Rightarrow> nat \<times> nat" where
  "split_month m [] d = (m, d)"
| "split_month m (l # ls) d = (if d < l then (m, d) else split_month (Suc m) ls (d - l))"

text \<open>Days before a year, counting from \<open>y\<close> on, and before a month.\<close>

definition days_before_year :: "nat \<Rightarrow> nat \<Rightarrow> nat" where
  "days_before_year y y' = sum_list (map year_days [y ..< y'])"

lemma split_year_sound:
  "split_year y d = (y', r) \<Longrightarrow> y \<le> y' \<and> r < year_days y' \<and> d = days_before_year y y' + r"
proof (induction y d rule: split_year.induct)
  case (1 y d)
  show ?case
  proof (cases "d < year_days y")
    case True
    then show ?thesis using 1 by (simp add: split_year.simps [of y d] days_before_year_def)
  next
    case False
    then have s: "split_year (Suc y) (d - year_days y) = (y', r)"
      using 1(2) by (simp add: split_year.simps [of y d])
    have "d = year_days y + (d - year_days y)" using False by simp
    with 1(1) [OF False s] show ?thesis
      by (auto simp: days_before_year_def upt_conv_Cons)
  qed
qed

lemma days_before_year_ge: "365 * (y' - y) \<le> days_before_year y y'"
proof -
  have "sum_list (map (\<lambda>_. 365) [y ..< y']) \<le> sum_list (map year_days [y ..< y'])"
    by (rule sum_list_mono) (simp add: year_days_def)
  then show ?thesis by (simp add: days_before_year_def sum_list_triv mult.commute)
qed

lemma split_month_sound:
  "d < sum_list ls \<Longrightarrow> split_month m ls d = (m', r) \<Longrightarrow>
     m \<le> m' \<and> m' < m + length ls \<and> r < ls ! (m' - m) \<and> d = sum_list (take (m' - m) ls) + r"
proof (induction m ls d rule: split_month.induct)
  case (2 m l ls d)
  show ?case
  proof (cases "d < l")
    case True
    then show ?thesis using 2 by simp
  next
    case False
    then have ih: "Suc m \<le> m' \<and> m' < Suc m + length ls \<and> r < ls ! (m' - Suc m)
        \<and> d - l = sum_list (take (m' - Suc m) ls) + r"
      using 2 by simp
    then obtain k where k: "m' - m = Suc k" "m' - Suc m = k" by (metis Suc_diff_le diff_Suc_Suc)
    then show ?thesis using ih False by auto
  qed
qed simp

section \<open>Printing\<close>

definition pad :: "nat \<Rightarrow> nat \<Rightarrow> string" where
  "pad k n = replicate (k - length (fmt_nat n)) (CHR ''0'') @ fmt_nat n"

definition strip_zeros :: "string \<Rightarrow> string" where
  "strip_zeros s = rev (dropWhile (\<lambda>c. c = CHR ''0'') (rev s))"

definition print_fraction :: "nat \<Rightarrow> string" where
  "print_fraction n = (if n = 0 then '''' else CHR ''.'' # strip_zeros (pad 9 n))"

definition RFC3339Nano :: "nat \<Rightarrow> string" where
  "RFC3339Nano ns =
     (let secs = ns div 1000000000; day = secs div 86400; sod = secs mod 86400;
          (y, yday) = split_year 1970 day;
          (mo, mday) = split_month 1 (month_days y) yday
      in pad 4 y @ ''-'' @ pad 2 mo @ ''-'' @ pad 2 (Suc mday) @ ''T'' @
         pad 2 (sod div 3600) @ '':'' @ pad 2 (sod div 60 mod 60) @ '':'' @ pad 2 (sod mod 60) @
         print_fraction (ns mod 1000000000) @ ''Z'')"

section \<open>Reading back\<close>

definition read_fraction :: "string \<Rightarrow> nat" where
  "read_fraction s =
     (case s of
        [] \<Rightarrow> 0
      | _ # ds \<Rightarrow> digits_val (ds @ replicate (9 - length ds) (CHR ''0'')))"

definition read_RFC3339 :: "string \<Rightarrow> nat" where
  "read_RFC3339 s =
     (let num = (\<lambda>i k. digits_val (take k (drop i s)));
          y = num 0 4; mo = num 5 2; d = num 8 2;
          days = days_before_year 1970 y + sum_list (take (mo - 1) (month_days y)) + (d - 1);
          secs = days * 86400 + num 11 2 * 3600 + num 14 2 * 60 + num 17 2
      in secs * 1000000000 + read_fraction (butlast (drop 19 s)))"

lemma digit_val_zero [simp]: "digit_val CHR ''0'' = 0"
  by (simp add: digit_val_def)

lemma digits_val_zeros [simp]: "digits_val (replicate k (CHR ''0'') @ s) = digits_val s"
proof (induction s rule: rev_induct)
  case Nil
  have "digits_val (replicate k (CHR ''0'')) = 0"
    by (induction k) (simp_all add: digits_val_def)
  then show ?case by (simp add: digits_val_def)
next
  case (snoc c s)
  then show ?case by (simp flip: append_assoc)
qed

lemma digits_val_pad [simp]: "digits_val (pad k n) = n"
  by (simp add: pad_def)

lemma length_pad: "n < 10 ^ k \<Longrightarrow> 0 < k \<Longrightarrow> length (pad k n) = k"
  using length_fmt_nat [of n k] by (simp add: pad_def)

lemma strip_zeros_restore: "strip_zeros s @ replicate (length s - length (strip_zeros s)) (CHR ''0'') = s"
proof -
  let ?z = "\<lambda>c. c = CHR ''0''"
  have "takeWhile ?z (rev s) = replicate (length (takeWhile ?z (rev s))) (CHR ''0'')"
    by (metis (full_types) replicate_length_same set_takeWhileD)
  moreover have "rev (takeWhile ?z (rev s) @ dropWhile ?z (rev s)) = s" by simp
  moreover have "length (takeWhile ?z (rev s)) = length s - length (dropWhile ?z (rev s))"
    by (metis length_append length_rev takeWhile_dropWhile_id add_diff_cancel_right')
  ultimately show ?thesis
    by (metis (no_types, lifting) length_rev replicate_append_same rev_append rev_replicate strip_zeros_def)
qed

lemma read_print_fraction: "n < 1000000000 \<Longrightarrow> read_fraction (print_fraction n) = n"
proof (cases "n = 0")
  case True
  then show ?thesis by (simp add: print_fraction_def read_fraction_def)
next
  case False
  assume "n < 1000000000"
  then have "length (pad 9 n) = 9" by (intro length_pad) simp_all
  then have "strip_zeros (pad 9 n) @ replicate (9 - length (strip_zeros (pad 9 n))) (CHR ''0'') = pad 9 n"
    using strip_zeros_restore [of "pad 9 n"] by simp
  then show ?thesis using False by (simp add: print_fraction_def read_fraction_def)
qed

text \<open>The fields of a printed time stand at fixed positions.\<close>

lemma read_fields:
  assumes "length Y = 4" "length M = 2" "length D = 2" "length h = 2" "length m = 2" "length s = 2"
    and "t = Y @ CHR ''-'' # M @ CHR ''-'' # D @ CHR ''T'' # h @ CHR '':'' # m @ CHR '':'' # s @ F @ ''Z''"
  shows "take 4 t = Y" "take 2 (drop 5 t) = M" "take 2 (drop 8 t) = D" "take 2 (drop 11 t) = h"
    "take 2 (drop 14 t) = m" "take 2 (drop 17 t) = s" "butlast (drop 19 t) = F"
  using assms by (simp_all add: butlast_append)

lemma read_RFC3339Nano:
  assumes "ns < 2 ^ 63"
  shows "read_RFC3339 (RFC3339Nano ns) = ns"
proof -
  define secs where "secs = ns div 1000000000"
  define day where "day = secs div 86400"
  define sod where "sod = secs mod 86400"
  obtain y yday where sy: "split_year 1970 day = (y, yday)" by fastforce
  obtain mo mday where sm: "split_month 1 (month_days y) yday = (mo, mday)" by fastforce
  have y: "1970 \<le> y" "yday < year_days y" "day = days_before_year 1970 y + yday"
    using split_year_sound [OF sy] by simp_all
  have m: "1 \<le> mo" "mo < 13" "mday < month_days y ! (mo - 1)"
    "yday = sum_list (take (mo - 1) (month_days y)) + mday"
    using split_month_sound [OF _ sm] y(2) unfolding sum_month_days by (auto simp: month_days_def)
  have "month_days y ! (mo - 1) \<in> set (month_days y)" using m(1,2) by (intro nth_mem) (simp add: month_days_def)
  then have md: "mday < 31" using m(3) by (auto simp: month_days_def split: if_splits)
  have "day \<le> 106751" using assms by (simp add: day_def secs_def div_mult2_eq [symmetric])
  then have yb: "y < 10 ^ 4" using days_before_year_ge [of y 1970] y(1,3) by simp
  have sod: "sod < 86400" by (simp add: sod_def)
  have len: "length (pad 4 y) = 4" "length (pad 2 mo) = 2" "length (pad 2 (Suc mday)) = 2"
    "length (pad 2 (sod div 3600)) = 2" "length (pad 2 (sod div 60 mod 60)) = 2" "length (pad 2 (sod mod 60)) = 2"
    using yb m(2) md sod by (auto intro!: length_pad)
  have print: "RFC3339Nano ns = pad 4 y @ CHR ''-'' # pad 2 mo @ CHR ''-'' # pad 2 (Suc mday) @ CHR ''T'' #
      pad 2 (sod div 3600) @ CHR '':'' # pad 2 (sod div 60 mod 60) @ CHR '':'' # pad 2 (sod mod 60) @
      print_fraction (ns mod 1000000000) @ ''Z''"
    by (simp add: RFC3339Nano_def Let_def secs_def [symmetric] day_def [symmetric] sod_def [symmetric] sy sm sm [simplified])
  have time: "sod div 3600 * 3600 + sod div 60 mod 60 * 60 + sod mod 60 = sod"
  proof -
    have "sod div 60 = 60 * (sod div 60 div 60) + sod div 60 mod 60" by simp
    moreover have "sod div 60 div 60 = sod div 3600" by (simp add: div_mult2_eq [symmetric])
    moreover have "sod = 60 * (sod div 60) + sod mod 60" by simp
    ultimately show ?thesis by linarith
  qed
  have parts: "day * 86400 + sod = secs" "secs * 1000000000 + ns mod 1000000000 = ns"
    by (simp_all add: day_def sod_def) (simp add: secs_def)
  have "read_RFC3339 (RFC3339Nano ns) =
      (day * 86400 + sod div 3600 * 3600 + sod div 60 mod 60 * 60 + sod mod 60) * 1000000000 + ns mod 1000000000"
    using y(3) m(4)
    by (simp add: read_RFC3339_def Let_def read_fields [OF len print] read_print_fraction)
  also have "day * 86400 + sod div 3600 * 3600 + sod div 60 mod 60 * 60 + sod mod 60 = secs"
    using parts(1) time by linarith
  finally show ?thesis using parts(2) by simp
qed

lemma RFC3339Nano_example: "RFC3339Nano 1000000005 = ''1970-01-01T00:00:01.000000005Z''"
  by (simp add: RFC3339Nano_def Let_def split_year.simps year_days_def leap_def month_days_def pad_def
      print_fraction_def strip_zeros_def fmt_eval) (simp add: numeral_eq_Suc)

end
