(* ===== verification/Json.thy ===== *)
theory Json
  imports Sha256
begin

text \<open>
  What the event schema uses of package \<^verbatim>\<open>encoding/json\<close>: \<^verbatim>\<open>json.Marshal\<close> of structs, strings, integers,
  booleans and string maps, and of a \<^verbatim>\<open>json.RawMessage\<close>, which is copied in compact form.  A value to be
  marshalled is a \<open>json\<close>; \<open>render\<close> is its text.  Bytes from 128 on are checked to be UTF-8 as the library
  does.
\<close>

datatype json =
    JInt int
  | JBool bool
  | JString string
  | JArray "json list"
  | JObject "(string \<times> json) list"
  | JRaw string

section \<open>UTF-8\<close>

abbreviation byte :: "char \<Rightarrow> nat" where
  "byte c \<equiv> of_char c"

definition cont :: "char \<Rightarrow> bool" where
  "cont c \<longleftrightarrow> 128 \<le> byte c \<and> byte c < 192"

text \<open>\<^verbatim>\<open>utf8.DecodeRune\<close>: the length of the encoded rune at the head, 0 when the bytes are not valid.\<close>

fun rune_len :: "string \<Rightarrow> nat" where
  "rune_len (a # rest) =
     (if byte a < 128 then 1
      else if 194 \<le> byte a \<and> byte a < 224 then
        (case rest of b # _ \<Rightarrow> if cont b then 2 else 0 | _ \<Rightarrow> 0)
      else if 224 \<le> byte a \<and> byte a < 240 then
        (case rest of
           b # c # _ \<Rightarrow>
             if cont b \<and> cont c \<and> (byte a = 224 \<longrightarrow> 160 \<le> byte b) \<and> (byte a = 237 \<longrightarrow> byte b < 160)
             then 3 else 0
         | _ \<Rightarrow> 0)
      else if 240 \<le> byte a \<and> byte a < 245 then
        (case rest of
           b # c # d # _ \<Rightarrow>
             if cont b \<and> cont c \<and> cont d \<and> (byte a = 240 \<longrightarrow> 144 \<le> byte b) \<and> (byte a = 244 \<longrightarrow> byte b < 144)
             then 4 else 0
         | _ \<Rightarrow> 0)
      else 0)"
| "rune_len [] = 0"

lemma rune_len_le: "rune_len s \<le> length s"
  by (cases s rule: rune_len.cases) (auto split: list.splits)

section \<open>Strings\<close>

abbreviation backslash :: char where
  "backslash \<equiv> CHR 0x5C"

abbreviation dquote :: char where
  "dquote \<equiv> CHR 0x22"

text \<open>One byte below 128: quoted with a backslash, as \<^verbatim>\<open>\u00xx\<close>, or as it is.\<close>

definition esc_ascii :: "char \<Rightarrow> string" where
  "esc_ascii c =
     (if c = backslash \<or> c = dquote then [backslash, c]
      else if byte c = 8 then [backslash, CHR ''b'']
      else if byte c = 12 then [backslash, CHR ''f'']
      else if byte c = 10 then [backslash, CHR ''n'']
      else if byte c = 13 then [backslash, CHR ''r'']
      else if byte c = 9 then [backslash, CHR ''t'']
      else if byte c < 32 \<or> c = CHR ''<'' \<or> c = CHR ''>'' \<or> c = CHR ''&''
      then [backslash, CHR ''u'', CHR ''0'', CHR ''0''] @ hex_byte c
      else [c])"

text \<open>The string in quotes; U+2028 and U+2029 (bytes E2 80 A8, E2 80 A9) are escaped, bad bytes replaced.\<close>

function escape :: "string \<Rightarrow> string" where
  "escape [] = []"
| "escape (c # cs) =
     (if byte c < 128 then esc_ascii c @ escape cs
      else if rune_len (c # cs) = 0 then backslash # ''ufffd'' @ escape cs
      else if take 3 (c # cs) = [CHR 0xE2, CHR 0x80, CHR 0xA8] then backslash # ''u2028'' @ escape (drop 2 cs)
      else if take 3 (c # cs) = [CHR 0xE2, CHR 0x80, CHR 0xA9] then backslash # ''u2029'' @ escape (drop 2 cs)
      else take (rune_len (c # cs)) (c # cs) @ escape (drop (rune_len (c # cs) - 1) cs))"
  by pat_completeness auto
termination by (relation "measure length") auto

definition quote :: "string \<Rightarrow> string" where
  "quote s = dquote # escape s @ [dquote]"

section \<open>Raw messages\<close>

text \<open>
  \<^verbatim>\<open>json.Compact\<close> with HTML escaping, on valid JSON: blanks outside strings go, the three HTML bytes and
  the two line separators are escaped.  The flag says whether the position is inside a string.
\<close>

definition html :: "char \<Rightarrow> bool" where
  "html c \<longleftrightarrow> c = CHR ''<'' \<or> c = CHR ''>'' \<or> c = CHR ''&''"

fun compact :: "bool \<Rightarrow> string \<Rightarrow> string" where
  "compact False [] = []"
| "compact True [] = []"
| "compact False (c # cs) =
     (if c \<in> {CHR '' '', CHR 0x09, CHR 0x0A, CHR 0x0D} then compact False cs
      else c # compact (c = dquote) cs)"
| "compact True (c # cs) =
     (if c = backslash then c # take 1 cs @ compact True (drop 1 cs)
      else if html c then backslash # ''u00'' @ hex_byte c @ compact True cs
      else if take 3 (c # cs) = [CHR 0xE2, CHR 0x80, CHR 0xA8] then backslash # ''u2028'' @ compact True (drop 2 cs)
      else if take 3 (c # cs) = [CHR 0xE2, CHR 0x80, CHR 0xA9] then backslash # ''u2029'' @ compact True (drop 2 cs)
      else c # compact (c \<noteq> dquote) cs)"

section \<open>Values\<close>

fun render :: "json \<Rightarrow> string" where
  "render (JInt i) = fmt_int i"
| "render (JBool b) = (if b then ''true'' else ''false'')"
| "render (JString s) = quote s"
| "render (JArray js) = ''['' @ join '','' (map render js) @ '']''"
| "render (JObject kvs) = ''{'' @ join '','' (map (\<lambda>(k, v). quote k @ '':'' @ render v) kvs) @ ''}''"
| "render (JRaw s) = compact False s"

section \<open>Reading a string back\<close>

definition unhex :: "char \<Rightarrow> nat" where
  "unhex c = (if is_digit c then byte c - 48 else byte c - 87)"

fun unescape :: "string \<Rightarrow> string" where
  "unescape (c # cs) =
     (if c \<noteq> backslash then c # unescape cs
      else
        (case cs of
           [] \<Rightarrow> []
         | e # rest \<Rightarrow>
             if e = CHR ''u'' then
               (if take 4 rest = ''2028'' then CHR 0xE2 # CHR 0x80 # CHR 0xA8 # unescape (drop 4 rest)
                else if take 4 rest = ''2029'' then CHR 0xE2 # CHR 0x80 # CHR 0xA9 # unescape (drop 4 rest)
                else if take 4 rest = ''fffd'' then CHR 0xEF # CHR 0xBF # CHR 0xBD # unescape (drop 4 rest)
                else char_of (16 * unhex (rest ! 2) + unhex (rest ! 3)) # unescape (drop 4 rest))
             else if e = CHR ''b'' then CHR 0x08 # unescape rest
             else if e = CHR ''f'' then CHR 0x0C # unescape rest
             else if e = CHR ''n'' then CHR 0x0A # unescape rest
             else if e = CHR ''r'' then CHR 0x0D # unescape rest
             else if e = CHR ''t'' then CHR 0x09 # unescape rest
             else e # unescape rest))"
| "unescape [] = []"

definition unquote :: "string \<Rightarrow> string" where
  "unquote s = unescape (butlast (drop 1 s))"

function utf8 :: "string \<Rightarrow> bool" where
  "utf8 [] = True"
| "utf8 (c # cs) = (rune_len (c # cs) \<noteq> 0 \<and> utf8 (drop (rune_len (c # cs) - 1) cs))"
  by pat_completeness auto
termination by (relation "measure length") auto

declare escape.simps [simp del] utf8.simps [simp del] rune_len.simps [simp del] unescape.simps [simp del]

lemma byte_eqs [simp]:
  "byte CHR 0x5C = 92" "byte CHR 0x22 = 34" "byte CHR ''<'' = 60" "byte CHR ''>'' = 62" "byte CHR ''&'' = 38"
  "byte CHR 0xE2 = 226" "byte CHR 0x80 = 128" "byte CHR 0xA8 = 168" "byte CHR 0xA9 = 169"
  by simp_all

lemma unhex_table: "n < 16 \<Longrightarrow> unhex (hextable ! n) = n"
proof -
  assume "n < 16"
  then have "n \<in> set [0 ..< 16]" by simp
  moreover have "\<forall>k \<in> set [0 ..< 16]. unhex (hextable ! k) = k" by code_simp
  ultimately show ?thesis by blast
qed

lemma unescape_nil [simp]: "unescape [] = []"
  by (simp add: unescape.simps)

lemma unescape_other: "c \<noteq> backslash \<Longrightarrow> unescape (c # cs) = c # unescape cs"
  by (simp add: unescape.simps)

lemma unescape_plain: "\<forall>c \<in> set xs. c \<noteq> backslash \<Longrightarrow> unescape (xs @ ys) = xs @ unescape ys"
  by (induction xs) (simp_all add: unescape_other)

lemma unescape_hex: "unescape (backslash # CHR ''u'' # CHR ''0'' # CHR ''0'' # hex_byte c @ ys) = c # unescape ys"
proof -
  have "char_of (16 * (byte c div 16) + byte c mod 16) = c" by simp
  then show ?thesis
    using nibbles [of c]
    by (simp add: unescape.simps(1) [of backslash] hex_byte_def unhex_table numeral_2_eq_2 numeral_3_eq_3)
qed

lemma char_byte: "byte c = n \<Longrightarrow> c = char_of n"
  by auto

lemma unescape_esc_ascii: "unescape (esc_ascii c @ ys) = c # unescape ys"
proof -
  have named: "byte c = 8 \<Longrightarrow> c = CHR 0x08" "byte c = 12 \<Longrightarrow> c = CHR 0x0C" "byte c = 10 \<Longrightarrow> c = CHR 0x0A"
    "byte c = 13 \<Longrightarrow> c = CHR 0x0D" "byte c = 9 \<Longrightarrow> c = CHR 0x09"
    by (drule char_byte; simp add: char_of_def bit_0)+
  consider (a) "c = backslash \<or> c = dquote"
    | (b) "c \<noteq> backslash" "c \<noteq> dquote" "byte c \<in> {8, 12, 10, 13, 9}"
    | (c) "c \<noteq> backslash" "c \<noteq> dquote" "byte c \<notin> {8, 12, 10, 13, 9}"
        "byte c < 32 \<or> c = CHR ''<'' \<or> c = CHR ''>'' \<or> c = CHR ''&''"
    | (d) "c \<noteq> backslash" "c \<noteq> dquote" "byte c \<notin> {8, 12, 10, 13, 9}"
        "\<not> (byte c < 32 \<or> c = CHR ''<'' \<or> c = CHR ''>'' \<or> c = CHR ''&'')"
    by blast
  then show ?thesis
  proof cases
    case a
    then show ?thesis by (auto simp: esc_ascii_def unescape.simps(1) [of backslash])
  next
    case b
    then show ?thesis using named by (auto simp: esc_ascii_def unescape.simps(1) [of backslash])
  next
    case c
    then have "esc_ascii c = [backslash, CHR ''u'', CHR ''0'', CHR ''0''] @ hex_byte c"
      by (auto simp: esc_ascii_def)
    then show ?thesis using unescape_hex by simp
  next
    case d
    then have "esc_ascii c = [c]" by (simp add: esc_ascii_def)
    then show ?thesis using d(1) by (simp add: unescape_other)
  qed
qed

lemma rune_bytes:
  "128 \<le> byte c \<Longrightarrow> x \<in> set (take (rune_len (c # cs)) (c # cs)) \<Longrightarrow> 128 \<le> byte x"
  by (auto simp: rune_len.simps cont_def split: if_splits list.splits)

lemma rune_len_separators:
  "rune_len (CHR 0xE2 # CHR 0x80 # CHR 0xA8 # rest) = 3" "rune_len (CHR 0xE2 # CHR 0x80 # CHR 0xA9 # rest) = 3"
  by (simp_all add: rune_len.simps cont_def)

lemma unescape_separators:
  "unescape (backslash # ''u2028'' @ ys) = CHR 0xE2 # CHR 0x80 # CHR 0xA8 # unescape ys"
  "unescape (backslash # ''u2029'' @ ys) = CHR 0xE2 # CHR 0x80 # CHR 0xA9 # unescape ys"
  by (simp_all add: unescape.simps(1) [of backslash])

lemma take_3_eq: "take 3 (c # cs) = [x, y, z] \<Longrightarrow> c = x \<and> cs = y # z # drop 2 cs"
  by (cases cs; cases "drop 1 cs") (auto simp: numeral_eq_Suc)

lemma escape_cases:
  assumes "\<not> byte c < 128" and "rune_len (c # cs) \<noteq> 0"
  shows "take 3 (c # cs) = [CHR 0xE2, CHR 0x80, CHR 0xA8] \<Longrightarrow> escape (c # cs) = backslash # ''u2028'' @ escape (drop 2 cs)"
    and "take 3 (c # cs) = [CHR 0xE2, CHR 0x80, CHR 0xA9] \<Longrightarrow> escape (c # cs) = backslash # ''u2029'' @ escape (drop 2 cs)"
    and "take 3 (c # cs) \<noteq> [CHR 0xE2, CHR 0x80, CHR 0xA8] \<Longrightarrow> take 3 (c # cs) \<noteq> [CHR 0xE2, CHR 0x80, CHR 0xA9] \<Longrightarrow>
      escape (c # cs) = take (rune_len (c # cs)) (c # cs) @ escape (drop (rune_len (c # cs) - 1) cs)"
  using assms by (simp_all only: escape.simps if_False if_True) simp_all

lemma rune_len_separator:
  "take 3 (c # cs) = [CHR 0xE2, CHR 0x80, x] \<Longrightarrow> x = CHR 0xA8 \<or> x = CHR 0xA9 \<Longrightarrow> rune_len (c # cs) = 3"
  using take_3_eq rune_len_separators by metis

text \<open>Reading an escaped valid UTF-8 string gives the string.\<close>

lemma unescape_escape: "utf8 s \<Longrightarrow> unescape (escape s) = s"
proof (induction s rule: escape.induct)
  case 1
  then show ?case by (simp add: escape.simps)
next
  case (2 c cs)
  let ?n = "rune_len (c # cs)"
  have n: "?n \<noteq> 0" and rest: "utf8 (drop (?n - 1) cs)"
    using 2(6) by (simp_all add: utf8.simps)
  show ?case
  proof (cases "byte c < 128")
    case True
    then have "?n = 1" by (simp add: rune_len.simps)
    then show ?thesis using True 2(1) rest by (simp add: escape.simps unescape_esc_ascii)
  next
    case False
    consider (a) "take 3 (c # cs) = [CHR 0xE2, CHR 0x80, CHR 0xA8]"
      | (b) "take 3 (c # cs) = [CHR 0xE2, CHR 0x80, CHR 0xA9]"
      | (c) "take 3 (c # cs) \<noteq> [CHR 0xE2, CHR 0x80, CHR 0xA8]" "take 3 (c # cs) \<noteq> [CHR 0xE2, CHR 0x80, CHR 0xA9]"
      by blast
    then show ?thesis
    proof cases
      case a
      have "utf8 (drop 2 cs)" using rest rune_len_separator a by simp
      then have "unescape (escape (c # cs)) = CHR 0xE2 # CHR 0x80 # CHR 0xA8 # drop 2 cs"
        by (simp only: escape_cases(1) [OF False n a] unescape_separators 2(3) [OF False n a])
      then show ?thesis using take_3_eq [OF a] by metis
    next
      case b
      have "take 3 (c # cs) \<noteq> [CHR 0xE2, CHR 0x80, CHR 0xA8]" using b by simp
      note ih = 2(4) [OF False n this b]
      have "utf8 (drop 2 cs)" using rest rune_len_separator b by simp
      then have "unescape (escape (c # cs)) = CHR 0xE2 # CHR 0x80 # CHR 0xA9 # drop 2 cs"
        by (simp only: escape_cases(2) [OF False n b] unescape_separators ih)
      then show ?thesis using take_3_eq [OF b] by metis
    next
      case c
      have "\<forall>x \<in> set (take ?n (c # cs)). x \<noteq> backslash"
        using rune_bytes [of c _ cs] False by fastforce
      then have "unescape (take ?n (c # cs) @ escape (drop (?n - 1) cs)) = take ?n (c # cs) @ drop (?n - 1) cs"
        using unescape_plain 2(5) [OF False n c] rest by metis
      also have "\<dots> = c # cs" using n by (cases ?n) simp_all
      finally show ?thesis by (simp only: escape_cases(3) [OF False n c])
    qed
  qed
qed

lemma unquote_quote: "utf8 s \<Longrightarrow> unquote (quote s) = s"
  by (simp add: unquote_def quote_def unescape_escape)

end
