(* ===== verification/Normalizer.thy ===== *)
theory Normalizer
  imports Router Timestamps Json "HOL-Library.List_Lexorder"
begin

text \<open>
  \<^verbatim>\<open>internal/schema/v1/schema.go\<close>, the event schema and its JSON form, and
  \<^verbatim>\<open>internal/normalize/normalizer.go\<close>, from an event to its schema.  The clock and the 16 random bytes of
  a trace id are arguments; the serialisation of the event (\<^verbatim>\<open>protojson\<close>, not part of the repository) is
  the parameter \<open>protojson\<close>.
\<close>

section \<open>The event schema\<close>

record RawMeta =
  rm_Format :: string
  rm_SizeBytes :: nat
  rm_Hash :: string
  rm_Redacted :: bool

record K8sInfo =
  k8s_Namespace :: string
  k8s_Pod :: string
  k8s_Container :: string

record NetworkInfo =
  net_SourceIP :: string
  net_SourcePort :: u32
  net_DestinationIP :: string
  net_DestinationPort :: u32
  net_Protocol :: string
  net_Family :: string

record ProcessInfo =
  pi_PID :: u32
  pi_PPID :: u32
  pi_UID :: u32
  pi_GID :: u32
  pi_Binary :: string
  pi_Args :: "string list"
  pi_CWD :: string

text \<open>A Go map with string keys is an association list with distinct keys.\<close>

record EventSchema =
  SchemaVersion :: int
  Type :: string
  Timestamp :: string
  TraceID :: string
  Node :: string
  Raw :: string
  Raw_Meta :: "RawMeta option"
  K8s :: "K8sInfo option"
  Process :: "ProcessInfo option"
  Network :: "NetworkInfo option"
  Labels :: "(string \<times> string) list"
  Extra :: "(string \<times> json) list"

text \<open>
  \<^verbatim>\<open>generateTraceID\<close> overwrites all 16 bytes of the pooled buffer, so what the buffer held before does not
  matter.
\<close>

definition generateTraceID :: "string \<Rightarrow> string" where
  "generateTraceID b = hex_encode b"

definition format_time :: "i64 \<Rightarrow> string" where
  "format_time ts = RFC3339Nano (unat ts)"

definition NewEventSchema :: "string \<Rightarrow> i64 \<Rightarrow> string \<Rightarrow> EventSchema" where
  "NewEventSchema eventType now b =
     \<lparr>SchemaVersion = 1, Type = eventType, Timestamp = format_time now, TraceID = generateTraceID b,
      Node = '''', Raw = '''', Raw_Meta = None, K8s = None, Process = None, Network = None,
      Labels = [], Extra = []\<rparr>"

definition SetTimestamp :: "i64 \<Rightarrow> EventSchema \<Rightarrow> EventSchema" where
  "SetTimestamp ts e = (if 0 <s ts then e\<lparr>Timestamp := format_time ts\<rparr> else e)"

section \<open>JSON form\<close>

text \<open>
  \<^verbatim>\<open>json.Marshal\<close> writes the fields in the order of the struct, an \<^verbatim>\<open>omitempty\<close> field only when it is not
  empty, and map entries in the order of their keys.
\<close>

definition omitempty_str :: "string \<Rightarrow> string \<Rightarrow> (string \<times> json) list" where
  "omitempty_str k s = (if s = '''' then [] else [(k, JString s)])"

definition omitempty_u32 :: "string \<Rightarrow> u32 \<Rightarrow> (string \<times> json) list" where
  "omitempty_u32 k n = (if n = 0 then [] else [(k, JInt (uint n))])"

definition omitempty_ptr :: "string \<Rightarrow> ('a \<Rightarrow> json) \<Rightarrow> 'a option \<Rightarrow> (string \<times> json) list" where
  "omitempty_ptr k f p = (case p of None \<Rightarrow> [] | Some x \<Rightarrow> [(k, f x)])"

definition omitempty_map :: "string \<Rightarrow> (string \<times> json) list \<Rightarrow> (string \<times> json) list" where
  "omitempty_map k kvs = (if kvs = [] then [] else [(k, JObject (sort_key fst kvs))])"

definition json_RawMeta :: "RawMeta \<Rightarrow> json" where
  "json_RawMeta m = JObject
     ([(''format'', JString (rm_Format m)), (''size_bytes'', JInt (int (rm_SizeBytes m)))] @
      omitempty_str ''hash'' (rm_Hash m) @ [(''redacted'', JBool (rm_Redacted m))])"

definition json_K8sInfo :: "K8sInfo \<Rightarrow> json" where
  "json_K8sInfo k = JObject
     (omitempty_str ''namespace'' (k8s_Namespace k) @ omitempty_str ''pod'' (k8s_Pod k) @
      omitempty_str ''container'' (k8s_Container k))"

definition json_NetworkInfo :: "NetworkInfo \<Rightarrow> json" where
  "json_NetworkInfo n = JObject
     (omitempty_str ''source_ip'' (net_SourceIP n) @ omitempty_u32 ''source_port'' (net_SourcePort n) @
      omitempty_str ''destination_ip'' (net_DestinationIP n) @
      omitempty_u32 ''destination_port'' (net_DestinationPort n) @
      omitempty_str ''protocol'' (net_Protocol n) @ omitempty_str ''family'' (net_Family n))"

definition json_ProcessInfo :: "ProcessInfo \<Rightarrow> json" where
  "json_ProcessInfo p = JObject
     (omitempty_u32 ''pid'' (pi_PID p) @ omitempty_u32 ''ppid'' (pi_PPID p) @
      omitempty_u32 ''uid'' (pi_UID p) @ omitempty_u32 ''gid'' (pi_GID p) @
      omitempty_str ''binary'' (pi_Binary p) @
      (if pi_Args p = [] then [] else [(''args'', JArray (map JString (pi_Args p)))]) @
      omitempty_str ''cwd'' (pi_CWD p))"

definition schema_json :: "EventSchema \<Rightarrow> json" where
  "schema_json e = JObject
     ([(''schema_version'', JInt (SchemaVersion e)), (''type'', JString (Type e)),
       (''ts'', JString (Timestamp e))] @
      omitempty_str ''trace_id'' (TraceID e) @ [(''node'', JString (Node e))] @
      (if Raw e = '''' then [] else [(''raw'', JRaw (Raw e))]) @
      omitempty_ptr ''raw_meta'' json_RawMeta (Raw_Meta e) @
      omitempty_ptr ''k8s'' json_K8sInfo (K8s e) @
      omitempty_ptr ''process'' json_ProcessInfo (Process e) @
      omitempty_ptr ''network'' json_NetworkInfo (Network e) @
      omitempty_map ''labels'' (map (apsnd JString) (Labels e)) @
      omitempty_map ''extra'' (Extra e))"

definition ToJSON :: "EventSchema \<Rightarrow> string" where
  "ToJSON e = render (schema_json e)"

section \<open>Normalisation\<close>

definition normalize_detectEventType :: "event \<Rightarrow> string" where
  "normalize_detectEventType e =
     (if GetProcessExec e \<noteq> None then ''process_exec''
      else if GetProcessExit e \<noteq> None then ''process_exit''
      else if GetProcessKprobe e \<noteq> None then ''process_kprobe''
      else if GetProcessTracepoint e \<noteq> None then ''process_tracepoint''
      else ''unknown'')"

definition normalize_getEventNode :: "event \<Rightarrow> string" where
  "normalize_getEventNode e = (if ev_NodeName e \<noteq> '''' then ev_NodeName e else ''unknown'')"

definition Normalize :: "(event \<Rightarrow> 'err + string) \<Rightarrow> i64 \<Rightarrow> string \<Rightarrow> event \<Rightarrow> 'err + EventSchema" where
  "Normalize protojson now b event =
     (let schema = NewEventSchema (normalize_detectEventType event) now b;
          schema1 = (case ev_Time event of
                       Some t \<Rightarrow> SetTimestamp (unix_nano t) schema
                     | None \<Rightarrow> schema);
          schema2 = schema1\<lparr>Node := normalize_getEventNode event\<rparr>
      in case protojson event of
           Inl err \<Rightarrow> Inl err
         | Inr rawJSON \<Rightarrow>
             Inr (schema2\<lparr>Raw := rawJSON,
                          Raw_Meta := Some \<lparr>rm_Format = ''json_map'', rm_SizeBytes = length rawJSON,
                                            rm_Hash = '''', rm_Redacted = False\<rparr>\<rparr>))"

section \<open>Properties\<close>

lemma unat_positive: "0 <s (ts :: i64) \<Longrightarrow> unat ts < 2 ^ 63"
proof -
  assume "0 <s ts"
  then have pos: "0 < sint ts" by (simp add: word_sless_alt)
  have lt: "sint ts < 2 ^ 63" using sint_lt [of ts] by simp
  have "uint ts = take_bit 64 (sint ts)" using uint_sint [of ts] by simp
  also have "\<dots> = sint ts" using pos lt by (intro take_bit_int_eq_self) simp_all
  finally show ?thesis using lt by (simp add: unat_eq_nat_uint nat_less_iff)
qed

lemma read_format_time: "0 <s ts \<Longrightarrow> read_RFC3339 (format_time ts) = unat ts"
  by (simp add: format_time_def read_RFC3339Nano [OF unat_positive])

lemma normalize_type: "normalize_detectEventType e = (if ev_Payload e = Test then ''unknown'' else DetectEventType e)"
  by (cases "ev_Payload e") (simp_all add: normalize_detectEventType_def DetectEventType_def)

lemma Normalize_eq:
  "Normalize protojson now b e =
     (case protojson e of
        Inl err \<Rightarrow> Inl err
      | Inr raw \<Rightarrow> Inr \<lparr>SchemaVersion = 1, Type = normalize_detectEventType e,
          Timestamp = format_time
            (case ev_Time e of Some t \<Rightarrow> if 0 <s unix_nano t then unix_nano t else now | None \<Rightarrow> now),
          TraceID = hex_encode b, Node = GetEventNode e, Raw = raw,
          Raw_Meta = Some \<lparr>rm_Format = ''json_map'', rm_SizeBytes = length raw, rm_Hash = '''', rm_Redacted = False\<rparr>,
          K8s = None, Process = None, Network = None, Labels = [], Extra = []\<rparr>)"
  by (simp add: Normalize_def NewEventSchema_def SetTimestamp_def generateTraceID_def
      normalize_getEventNode_def GetEventNode_def Let_def split: sum.split option.split)

text \<open>
  C31: Timestamp round trip.  The timestamp text of a schema reads back, to the nanosecond, as the \<^verbatim>\<open>UnixNano\<close> of the event's time when
  the event has a time and that number is positive, and as the clock's time otherwise, the clock being after 1970.
\<close>

theorem timestamp_roundtrip:
  assumes "Normalize protojson now b e = Inr schema" and "0 <s now"
  shows "read_RFC3339 (Timestamp schema) =
    unat (case ev_Time e of Some t \<Rightarrow> if 0 <s unix_nano t then unix_nano t else now | None \<Rightarrow> now)"
  using assms by (auto simp: Normalize_eq read_format_time split: sum.splits option.splits)

theorem timestamp_roundtrip_witness:
  "\<exists>schema. Normalize (\<lambda>_. (Inr ''{}'' :: unit + string)) 7 (replicate 16 (CHR ''a'')) example_event = Inr schema \<and>
     read_RFC3339 (Timestamp schema) = 1000000005"
proof -
  obtain schema where s: "Normalize (\<lambda>_. (Inr ''{}'' :: unit + string)) 7 (replicate 16 (CHR ''a'')) example_event = Inr schema"
    by (simp add: Normalize_eq)
  have u: "unix_nano \<lparr>ts_Seconds = 1, ts_Nanos = 5\<rparr> = 1000000005"
    by (simp add: unix_nano_def)
  have "0 <s (7 :: i64)" "0 <s (1000000005 :: i64)" by (simp_all add: word_sless_alt)
  then have "read_RFC3339 (Timestamp schema) = unat (1000000005 :: i64)"
    using timestamp_roundtrip [OF s] by (simp add: example_event_def u)
  then show ?thesis using s by simp
qed

text \<open>
  Two type detections.  The type stored in the schema is the one the router detects for every event
  except a test event, which the schema calls unknown while routing and the metrics call it test.
\<close>

theorem schema_type_agrees:
  assumes "Normalize protojson now b e = Inr schema"
  shows "Type schema = DetectEventType e \<longleftrightarrow> ev_Payload e \<noteq> Test"
proof -
  have "Type schema = normalize_detectEventType e"
    using assms by (auto simp: Normalize_eq split: sum.splits)
  then show ?thesis by (simp add: normalize_type DetectEventType_payload)
qed

theorem schema_type_agrees_witness:
  "\<exists>schema. Normalize (\<lambda>_. (Inr ''{}'' :: unit + string)) 7 [] (example_event\<lparr>ev_Payload := Test\<rparr>) = Inr schema \<and>
     Type schema \<noteq> DetectEventType (example_event\<lparr>ev_Payload := Test\<rparr>)"
proof -
  obtain schema where s: "Normalize (\<lambda>_. (Inr ''{}'' :: unit + string)) 7 [] (example_event\<lparr>ev_Payload := Test\<rparr>) = Inr schema"
    by (simp add: Normalize_eq)
  show ?thesis using schema_type_agrees [OF s] s by auto
qed

text \<open>
  The raw event is preserved.  Normalisation fails exactly when the serialiser does, with its error,
  and otherwise carries the serialised event unchanged, with its size, and no extracted field.
\<close>

theorem normalize_preserves_raw:
  "map_sum id (\<lambda>s. (Raw s, map_option rm_SizeBytes (Raw_Meta s), Process s, Network s, K8s s))
       (Normalize protojson now b e)
     = map_sum id (\<lambda>raw. (raw, Some (length raw), None, None, None)) (protojson e)"
  by (simp add: Normalize_eq split: sum.split)

text \<open>
  Trace ids.  A trace id has 32 hexadecimal digits and determines the 16 random bytes it was made of, so
  two events share a trace id only when the random source repeats 128 bits.
\<close>

theorem trace_id_injective:
  assumes "length b = 16" and "length b' = 16"
  shows "length (generateTraceID b) = 32 \<and> set (generateTraceID b) \<subseteq> set hextable \<and>
    (generateTraceID b = generateTraceID b' \<longleftrightarrow> b = b')"
  using assms hex_encode_alphabet hex_encode_inj [of b b'] by (auto simp: generateTraceID_def)

theorem trace_id_injective_witness:
  "generateTraceID (replicate 16 (CHR ''a'')) \<noteq> generateTraceID (replicate 16 (CHR ''b''))"
  using trace_id_injective [of "replicate 16 (CHR ''a'')" "replicate 16 (CHR ''b'')"]
  by (simp add: numeral_eq_Suc)

end
