(* ===== verification/Machine.thy ===== *)
theory Machine
  imports Main
begin

text \<open>
  Components that run: a step function, which gives no state where the step is not possible, and the runs of a list of
  events.  The locale \<open>machine\<close> has what every such component shares: induction over runs, composition of runs, invariants, and
  the way to a state of measure zero.  The writer and the event path interpret it.
\<close>

locale machine =
  fixes step :: "'ev \<Rightarrow> 's \<Rightarrow> 's option" and run :: "'ev list \<Rightarrow> 's \<Rightarrow> 's option"
  assumes run_Nil: "run [] s = Some s"
    and run_Cons: "run (e # es) s = (case step e s of None \<Rightarrow> None | Some s1 \<Rightarrow> run es s1)"
begin

lemma run_ConsE:
  assumes "run (e # es) s = Some s'"
  obtains s1 where "step e s = Some s1" "run es s1 = Some s'"
  using assms by (auto simp: run_Cons split: option.splits)

lemma run_induct [consumes 1, case_names Nil Cons]:
  assumes "run es s = Some s'"
    and "P [] s'"
    and "\<And>e es s s1. \<lbrakk>step e s = Some s1; run es s1 = Some s'; P es s1\<rbrakk> \<Longrightarrow> P (e # es) s"
  shows "P es s"
  using assms(1)
proof (induction es arbitrary: s)
  case Nil
  then show ?case using assms(2) by (simp add: run_Nil)
next
  case (Cons e es)
  from Cons.prems obtain s1 where "step e s = Some s1" "run es s1 = Some s'" by (rule run_ConsE)
  then show ?case by (rule assms(3)) (rule Cons.IH, fact)
qed

lemma run_append: "run (es @ es') s = (case run es s of None \<Rightarrow> None | Some s1 \<Rightarrow> run es' s1)"
  by (induction es arbitrary: s) (simp_all add: run_Nil run_Cons split: option.split)

lemma run_invariant:
  assumes "run es s = Some s'" and "I s" and "\<forall>e \<in> set es. P e"
    and "\<And>e s s1. \<lbrakk>step e s = Some s1; P e; I s\<rbrakk> \<Longrightarrow> I s1"
  shows "I s'"
  using assms(1-3) by (induction rule: run_induct) (auto intro: assms(4))

text \<open>While a step allowed by \<open>P\<close> can always make the measure smaller, there is a run that makes it zero.\<close>

lemma run_to_zero:
  fixes measure :: "'s \<Rightarrow> nat"
  assumes "I s"
    and "\<And>s. \<lbrakk>I s; 0 < measure s\<rbrakk> \<Longrightarrow> \<exists>e s1. P e \<and> step e s = Some s1 \<and> I s1 \<and> measure s1 < measure s"
  shows "\<exists>es s'. (\<forall>e \<in> set es. P e) \<and> run es s = Some s' \<and> I s' \<and> measure s' = 0"
  using assms(1)
proof (induction "measure s" arbitrary: s rule: less_induct)
  case less
  show ?case
  proof (cases "measure s = 0")
    case True
    then show ?thesis using less.prems run_Nil by (intro exI [of _ "[]"]) simp
  next
    case False
    then obtain e s1 where e: "P e" "step e s = Some s1" "I s1" "measure s1 < measure s" using assms(2) less.prems by blast
    then obtain es s' where es: "\<forall>e \<in> set es. P e" "run es s1 = Some s'" "I s'" "measure s' = 0" using less.hyps by blast
    then have "run (e # es) s = Some s'" using e(2) by (simp add: run_Cons)
    then show ?thesis using es e(1) by (intro exI [of _ "e # es"] exI [of _ s']) simp
  qed
qed

end

end
