(* ===== verification/Kafka_Producer.thy ===== *)
theory Kafka_Producer
  imports Tetragon Config Metrics
begin

text \<open>
  \<^verbatim>\<open>internal/kafka/producer.go\<close>: building the client configuration, building a record from a
  message, sending it to the asynchronous producer, and the two goroutines that account for results.
  The client library (sarama) is not part of the repository: its configuration is a record with the
  fields the adapter sets and an opaque rest, its producer is the sequence of records it was given.
\<close>

section \<open>Configuration of the client\<close>

datatype RequiredAcks = WaitForAll | WaitForLocal | NoResponse

datatype CompressionCodec =
  CompressionNone | CompressionGZIP | CompressionSnappy | CompressionLZ4 | CompressionZSTD

definition parseAcks :: "string \<Rightarrow> RequiredAcks" where
  "parseAcks acks =
     (if acks = ''all'' then WaitForAll
      else if acks = ''1'' then WaitForLocal
      else if acks = ''0'' then NoResponse
      else WaitForAll)"

definition parseCompression :: "string \<Rightarrow> CompressionCodec" where
  "parseCompression compression =
     (if compression = ''gzip'' then CompressionGZIP
      else if compression = ''snappy'' then CompressionSnappy
      else if compression = ''lz4'' then CompressionLZ4
      else if compression = ''zstd'' then CompressionZSTD
      else CompressionNone)"

record 'r sarama_config =
  Net_DialTimeout :: duration
  Net_ReadTimeout :: duration
  Net_WriteTimeout :: duration
  Net_KeepAlive :: duration
  Net_MaxOpenRequests :: int
  Metadata_Retry_Max :: int
  Metadata_Retry_Backoff :: duration
  Metadata_Timeout :: duration
  Metadata_RefreshFrequency :: duration
  Return_Successes :: bool
  Return_Errors :: bool
  sc_RequiredAcks :: RequiredAcks
  sc_Compression :: CompressionCodec
  sc_MaxMessageBytes :: int
  Flush_Messages :: int
  Flush_Bytes :: int
  Flush_Frequency :: duration
  sc_Idempotent :: bool
  sc_rest :: 'r                    \<comment> \<open>every field the adapter leaves at the library's default\<close>

text \<open>The assignments of \<^verbatim>\<open>NewProducer\<close> to the default configuration \<open>sc\<close> of the library.\<close>

definition producer_config :: "KafkaConfig \<Rightarrow> 'r sarama_config \<Rightarrow> 'r sarama_config" where
  "producer_config cfg sc =
     (let sc1 = sc\<lparr>Net_DialTimeout := 10 * Second, Net_ReadTimeout := 10 * Second,
                Net_WriteTimeout := 10 * Second, Net_KeepAlive := 30 * Second,
                Metadata_Retry_Max := 3, Metadata_Retry_Backoff := 250 * Millisecond,
                Metadata_Timeout := 10 * Second, Metadata_RefreshFrequency := 600 * Second,
                Return_Successes := True, Return_Errors := True,
                sc_RequiredAcks := parseAcks (Acks cfg),
                sc_Compression := parseCompression (Compression cfg),
                sc_MaxMessageBytes := MaxMessageBytes cfg,
                Flush_Messages := MaxMessages (Batch cfg), Flush_Bytes := MaxBytes (Batch cfg),
                Flush_Frequency := word_of_int (FlushIntervalMs (Batch cfg)) * Millisecond\<rparr>
      in if EnableIdempotence (Kafka_Producer cfg)
         then sc1\<lparr>sc_Idempotent := True, Net_MaxOpenRequests := 1\<rparr> else sc1)"

text \<open>
  \<^verbatim>\<open>NewProducer\<close>: the library's constructor is the parameter \<open>new_async\<close>, which either fails or
  gives a producer; on success the two accounting goroutines start.
\<close>

record 'p Producer =
  p_producer :: 'p
  p_ctx_cancelled :: bool
  p_handlers_running :: bool

definition NewProducer ::
  "(string list \<Rightarrow> 'r sarama_config \<Rightarrow> 'err + 'p) \<Rightarrow> 'r sarama_config \<Rightarrow> KafkaConfig \<Rightarrow> metrics
    \<Rightarrow> ('err + 'p Producer) \<times> metrics" where
  "NewProducer new_async sc cfg m =
     (case new_async (Brokers cfg) (producer_config cfg sc) of
        Inl err \<Rightarrow> (Inl err, m)
      | Inr p \<Rightarrow> (Inr \<lparr>p_producer = p, p_ctx_cancelled = False, p_handlers_running = True\<rparr>,
                 m\<lparr>KafkaProducerConnected := True\<rparr>))"

definition Producer_Close :: "('p \<Rightarrow> 'err option) \<Rightarrow> 'p Producer \<Rightarrow> metrics
    \<Rightarrow> 'err option \<times> 'p Producer \<times> metrics" where
  "Producer_Close close_async p m =
     (close_async (p_producer p),
      p\<lparr>p_ctx_cancelled := True, p_handlers_running := False\<rparr>,
      m\<lparr>KafkaProducerConnected := False\<rparr>)"

section \<open>Records\<close>

text \<open>
  A timestamp is the event's own instant, or a reading of the clock when the event has none.
\<close>

datatype instant = EventTime timestamp | ClockTime i64

record ProducerMessage =
  pm_Topic :: string
  pm_Key :: string
  pm_Value :: string
  pm_Timestamp :: instant
  pm_Headers :: "(string \<times> string) list"

definition message_timestamp :: "event option \<Rightarrow> i64 \<Rightarrow> instant" where
  "message_timestamp ev now =
     (case Option.bind ev ev_Time of Some t \<Rightarrow> EventTime t | None \<Rightarrow> ClockTime now)"

definition message_headers :: "string \<Rightarrow> string \<Rightarrow> (string \<times> string) list" where
  "message_headers eventType contentType =
     (let contentType' = (if contentType = '''' then ''application/json'' else contentType);
          headers = [(''content-type'', contentType'), (''schema-version'', ''1'')]
      in if eventType \<noteq> '''' then headers @ [(''event-type'', eventType)] else headers)"

definition producer_message ::
  "string \<Rightarrow> string \<Rightarrow> string \<Rightarrow> event option \<Rightarrow> string \<Rightarrow> string \<Rightarrow> i64 \<Rightarrow> ProducerMessage" where
  "producer_message topic key value ev eventType contentType now =
     \<lparr>pm_Topic = topic, pm_Key = key, pm_Value = value, pm_Timestamp = message_timestamp ev now,
      pm_Headers = message_headers eventType contentType\<rparr>"

text \<open>
  \<^verbatim>\<open>SendMessage\<close>: the select between the producer's input and the context.  With a live context it
  waits until the input takes the record; with a done context either case may be picked
  (\<open>pick_done\<close>).  \<open>input\<close> is the sequence of records the producer has taken so far.
\<close>

definition SendMessage ::
  "ctx \<Rightarrow> bool \<Rightarrow> string \<Rightarrow> string \<Rightarrow> string \<Rightarrow> event option \<Rightarrow> string \<Rightarrow> string \<Rightarrow> i64
    \<Rightarrow> ProducerMessage list \<Rightarrow> ctx_error option \<times> ProducerMessage list" where
  "SendMessage c pick_done topic key value ev eventType contentType now input =
     (case c of
        Some err \<Rightarrow>
          if pick_done then (Some err, input)
          else (None, input @ [producer_message topic key value ev eventType contentType now])
      | None \<Rightarrow> (None, input @ [producer_message topic key value ev eventType contentType now]))"

section \<open>Accounting for results\<close>

text \<open>
  What a turn of the two handler loops sees: the context done, a closed channel, or a result; a nil
  error is ignored.  \<open>None\<close> is the goroutine's return.
\<close>

datatype 'a handler_case = HandlerDone | HandlerClosed | HandlerItem 'a

definition handleErrors_step ::
  "ProducerMessage option handler_case \<Rightarrow> metrics \<Rightarrow> metrics option" where
  "handleErrors_step hc m =
     (case hc of
        HandlerDone \<Rightarrow> None
      | HandlerClosed \<Rightarrow> None
      | HandlerItem None \<Rightarrow> Some m
      | HandlerItem (Some msg) \<Rightarrow> Some (KafkaErrorsTotal_update (bump (''write'', pm_Topic msg)) m))"

definition handleSuccesses_step :: "ProducerMessage handler_case \<Rightarrow> metrics \<Rightarrow> metrics option" where
  "handleSuccesses_step hc m =
     (case hc of
        HandlerDone \<Rightarrow> None
      | HandlerClosed \<Rightarrow> None
      | HandlerItem msg \<Rightarrow>
          Some (KafkaWriteBytesTotal_update (bump_by (length (pm_Value msg)) (pm_Topic msg))
            (KafkaWriteMessagesTotal_update (bump (pm_Topic msg)) m)))"

fun handleSuccesses :: "ProducerMessage handler_case list \<Rightarrow> metrics \<Rightarrow> metrics" where
  "handleSuccesses [] m = m"
| "handleSuccesses (hc # hcs) m =
     (case handleSuccesses_step hc m of None \<Rightarrow> m | Some m' \<Rightarrow> handleSuccesses hcs m')"

text \<open>
  Success accounting.  After the success handler has seen a sequence of acknowledged records, the
  messages and bytes counters of every topic have grown by the number and the total size of that
  topic's records.
\<close>

theorem success_accounting:
  "KafkaWriteMessagesTotal (handleSuccesses (map HandlerItem msgs) m) t
     = KafkaWriteMessagesTotal m t + length (filter (\<lambda>x. pm_Topic x = t) msgs) \<and>
   KafkaWriteBytesTotal (handleSuccesses (map HandlerItem msgs) m) t
     = KafkaWriteBytesTotal m t + (\<Sum>x \<leftarrow> filter (\<lambda>x. pm_Topic x = t) msgs. length (pm_Value x))"
  by (induction msgs arbitrary: m) (simp_all add: handleSuccesses_step_def bump_by_apply)

text \<open>
  Security settings unused.  The client configuration does not depend on the TLS section, the
  SASL section or the client id: enabling them changes nothing, whatever the library's defaults are.
\<close>

theorem producer_config_ignores_security:
  "producer_config (cfg\<lparr>Kafka_TLS := tls, SASL := sasl, ClientID := cid\<rparr>) sc = producer_config cfg sc"
  by (simp add: producer_config_def)

end
