(* ===== verification/Kafka_Writer.thy ===== *)
theory Kafka_Writer
  imports Machine Kafka_Producer Bounded_Queue Router "HOL-Library.AList" "HOL-Library.Multiset"
begin

text \<open>
  \<^verbatim>\<open>internal/kafka/writer.go\<close>: the message channel, the batching workers, the flush and the dead
  letter queue.  A worker's loop body is \<open>worker_step\<close>, for the case of its \<^verbatim>\<open>select\<close> that was picked;
  the whole writer is the interleaving of its workers with \<^verbatim>\<open>Write\<close> and \<^verbatim>\<open>Close\<close> (\<open>writer_step\<close>).
  What the environment decides (clock, state of a context when a select proceeds, the pick of a select
  with several ready cases) is in the records \<open>dlq_env\<close> and \<open>flush_env\<close>.
\<close>

record Message =
  msg_Event :: "event option"
  msg_EventType :: string
  msg_ContentType :: string
  msg_Topic :: string
  msg_Key :: string
  msg_Value :: string
  msg_TraceID :: string

record Writer =
  w_messageCh :: "Message chan"
  w_closeOnce :: bool              \<comment> \<open>whether the \<^verbatim>\<open>sync.Once\<close> has run\<close>

text \<open>\<open>None\<close>: \<^verbatim>\<open>make(chan, n)\<close> panics on a negative size.\<close>

definition NewWriter :: "KafkaConfig \<Rightarrow> Writer option" where
  "NewWriter cfg =
     (if MaxMessages (Batch cfg) * WriterWorkers cfg < 0 then None
      else Some \<lparr>w_messageCh = make_chan (nat (MaxMessages (Batch cfg) * WriterWorkers cfg)), w_closeOnce = False\<rparr>)"

lemma NewWriter_SomeD:
  "NewWriter cfg = Some w \<Longrightarrow>
   w = \<lparr>w_messageCh = make_chan (nat (MaxMessages (Batch cfg) * WriterWorkers cfg)), w_closeOnce = False\<rparr> \<and>
   0 \<le> MaxMessages (Batch cfg) * WriterWorkers cfg"
  by (simp add: NewWriter_def split: if_splits)

section \<open>Writing to the channel\<close>

datatype write_result = WriteOk | WriteQueueFull | WritePanic

definition Write :: "Message \<Rightarrow> Writer \<times> metrics \<Rightarrow> write_result \<times> Writer \<times> metrics" where
  "Write msg = (\<lambda>(w, m).
     case chan_send (w_messageCh w) msg of
       Sent ch' \<Rightarrow> (WriteOk, w\<lparr>w_messageCh := ch'\<rparr>, m)
     | SendBlocks \<Rightarrow> (WriteQueueFull, w, DropsTotal_update (bump ''writer_queue_full'') m)
     | SendPanics \<Rightarrow> (WritePanic, w, m))"

definition Writer_Close :: "Writer \<Rightarrow> Writer" where
  "Writer_Close w =
     (if w_closeOnce w then w
      else w\<lparr>w_messageCh := (case chan_close (w_messageCh w) of Some c \<Rightarrow> c | None \<Rightarrow> w_messageCh w),
             w_closeOnce := True\<rparr>)"

section \<open>Dead letter queue\<close>

text \<open>
  For attempt \<open>k\<close>: the context when the backoff select proceeds and whether its done case was picked,
  the same for the send, and the clock.
\<close>

record dlq_env =
  dlq_wait_ctx :: "nat \<Rightarrow> ctx"
  dlq_wait_pick :: "nat \<Rightarrow> bool"
  dlq_send_ctx :: "nat \<Rightarrow> ctx"
  dlq_send_pick :: "nat \<Rightarrow> bool"
  dlq_now :: "nat \<Rightarrow> i64"

datatype dlq_result = DLQWritten nat | DLQCancelled nat | DLQFailed

definition maxRetries :: nat where
  "maxRetries = 3"

text \<open>\<^verbatim>\<open>for attempt := 0; attempt < maxRetries; attempt++\<close>, by the number of attempts left.\<close>

fun dlq_loop ::
  "dlq_env \<Rightarrow> string \<Rightarrow> Message \<Rightarrow> string \<Rightarrow> nat \<Rightarrow> ProducerMessage list \<times> metrics
    \<Rightarrow> dlq_result \<times> ProducerMessage list \<times> metrics" where
  "dlq_loop env dlqTopic msg reason 0 (inp, m) = (DLQFailed, inp, m)"
| "dlq_loop env dlqTopic msg reason (Suc left) (inp, m) =
     (let attempt = maxRetries - Suc left
      in if attempt > 0 \<and> ctx_done (dlq_wait_ctx env attempt) \<and> dlq_wait_pick env attempt
         then (DLQCancelled attempt, inp, m)
         else
           (case SendMessage (dlq_send_ctx env attempt) (dlq_send_pick env attempt) dlqTopic (msg_Key msg)
                   (msg_Value msg) (msg_Event msg) (msg_EventType msg) (msg_ContentType msg)
                   (dlq_now env attempt) inp of
              (Some err, inp') \<Rightarrow>
                (if attempt = maxRetries - 1
                 then dlq_loop env dlqTopic msg reason left
                        (inp', m\<lparr>DLQWriteFailuresTotal := Suc (DLQWriteFailuresTotal m)\<rparr>)
                 else dlq_loop env dlqTopic msg reason left (inp', m))
            | (None, inp') \<Rightarrow>
                (DLQWritten attempt, inp',
                 DLQEventsBytesTotal_update (\<lambda>n. n + length (msg_Value msg))
                   (DLQEventsTotal_update (bump reason) m))))"

definition writeToDLQ ::
  "router \<Rightarrow> dlq_env \<Rightarrow> Message \<Rightarrow> string \<Rightarrow> ProducerMessage list \<times> metrics
    \<Rightarrow> dlq_result \<times> ProducerMessage list \<times> metrics" where
  "writeToDLQ r env msg reason = dlq_loop env (GetDLQTopic r) msg reason maxRetries"

section \<open>Flushing a batch\<close>

text \<open>
  For the select of message \<open>i\<close>: the flush context when it proceeds and whether its done case was
  picked, the clock, and the environment of the dead letter write for message \<open>i\<close>.
\<close>

record flush_env =
  fe_ctx :: "nat \<Rightarrow> ctx"
  fe_pick :: "nat \<Rightarrow> bool"
  fe_now :: "nat \<Rightarrow> i64"
  fe_dlq :: "nat \<Rightarrow> dlq_env"

definition message_key :: "Message \<Rightarrow> string" where
  "message_key msg =
     (if msg_TraceID msg = '''' then msg_Topic msg @ '':'' @ msg_Key msg else msg_TraceID msg)"

definition message_record :: "Message \<Rightarrow> i64 \<Rightarrow> ProducerMessage" where
  "message_record msg now = producer_message (msg_Topic msg) (msg_Key msg) (msg_Value msg)
     (msg_Event msg) (msg_EventType msg) (msg_ContentType msg) now"

fun dlq_rest ::
  "router \<Rightarrow> flush_env \<Rightarrow> nat \<Rightarrow> Message list \<Rightarrow> ProducerMessage list \<times> metrics
    \<Rightarrow> ProducerMessage list \<times> metrics" where
  "dlq_rest r env i [] st = st"
| "dlq_rest r env i (msg # msgs) st =
     dlq_rest r env (Suc i) msgs (snd (writeToDLQ r (fe_dlq env i) msg ''context cancelled'' st))"

text \<open>
  The loop over the batch.  \<open>i\<close> is the index of the next message, \<open>sent\<close> the map \<^verbatim>\<open>sentMessages\<close>; the
  result says whether the loop ran to its end.
\<close>

fun flush_loop ::
  "router \<Rightarrow> flush_env \<Rightarrow> Message list \<Rightarrow> nat \<Rightarrow> Message list \<Rightarrow> (string \<times> Message) list
    \<Rightarrow> ProducerMessage list \<times> metrics \<Rightarrow> bool \<times> ProducerMessage list \<times> metrics" where
  "flush_loop r env batch i [] sent st = (True, st)"
| "flush_loop r env batch i (msg # msgs) sent (inp, m) =
     (let sent' = AList.update (message_key msg) msg sent
      in if ctx_done (fe_ctx env i) \<and> fe_pick env i
         then (False, dlq_rest r env (length sent') (drop (length sent') batch) (inp, m))
         else flush_loop r env batch (Suc i) msgs sent' (inp @ [message_record msg (fe_now env i)], m))"

text \<open>
  \<^verbatim>\<open>flushBatch\<close>: the flush context is derived from the worker's context \<open>c\<close>, so when \<open>c\<close> is already
  done it is done from the start.  The batch metrics are only updated when the loop ends.  A flush is one step: that
  its sends may wait for the producer, with other goroutines going on meanwhile, is not visible.
\<close>

definition derived :: "ctx \<Rightarrow> flush_env \<Rightarrow> flush_env" where
  "derived c env = (case c of None \<Rightarrow> env | Some err \<Rightarrow> env\<lparr>fe_ctx := \<lambda>_. Some err\<rparr>)"

definition flushBatch ::
  "router \<Rightarrow> ctx \<Rightarrow> flush_env \<Rightarrow> Message list \<Rightarrow> ProducerMessage list \<times> metrics
    \<Rightarrow> ProducerMessage list \<times> metrics" where
  "flushBatch r c env batch st =
     (if batch = [] then st
      else
        (let topic = msg_Topic (hd batch)
         in case flush_loop r (derived c env) batch 0 batch [] st of
              (False, st') \<Rightarrow> st'
            | (True, inp, m) \<Rightarrow>
                (inp, m\<lparr>KafkaWriteLatencyMs := bump topic (KafkaWriteLatencyMs m),
                        KafkaBatchSize := (KafkaBatchSize m)
                          (topic := KafkaBatchSize m topic @ [length batch]),
                        KafkaBatchErrorRate := (KafkaBatchErrorRate m)(topic := 0)\<rparr>)))"

section \<open>Workers\<close>

record worker =
  wk_batch :: "Message list"
  wk_running :: bool

record writer_state =
  ws_writer :: Writer
  ws_workers :: "worker list"
  ws_input :: "ProducerMessage list"      \<comment> \<open>records the asynchronous producer has taken\<close>
  ws_metrics :: metrics

definition Start :: "KafkaConfig \<Rightarrow> Writer \<Rightarrow> metrics \<Rightarrow> writer_state" where
  "Start cfg w m = \<lparr>ws_writer = w,
     ws_workers = replicate (nat (WriterWorkers cfg)) \<lparr>wk_batch = [], wk_running = True\<rparr>,
     ws_input = [], ws_metrics = m\<rparr>"

datatype worker_case = CtxDone | Receive | Tick | MetricsTick

text \<open>Flushing a worker's batch inside the writer's state.\<close>

definition flush_worker ::
  "router \<Rightarrow> ctx \<Rightarrow> flush_env \<Rightarrow> Message list \<Rightarrow> writer_state \<Rightarrow> writer_state" where
  "flush_worker r c env batch s =
     (let (inp, m) = flushBatch r c env batch (ws_input s, ws_metrics s)
      in s\<lparr>ws_input := inp, ws_metrics := m\<rparr>)"

definition set_worker :: "nat \<Rightarrow> worker \<Rightarrow> writer_state \<Rightarrow> writer_state" where
  "set_worker i wk s = s\<lparr>ws_workers := (ws_workers s)[i := wk]\<rparr>"

definition stop_worker :: "nat \<Rightarrow> writer_state \<Rightarrow> writer_state" where
  "stop_worker i s = (set_worker i \<lparr>wk_batch = [], wk_running = False\<rparr> s)
     \<lparr>ws_metrics := (ws_metrics s)\<lparr>KafkaWriterQueueDepth := 0\<rparr>\<rparr>"

text \<open>
  One turn of worker \<open>i\<close>'s loop under context \<open>c\<close>, for the picked case; \<open>None\<close> when the worker does
  not run or the case is not ready.
\<close>

definition worker_step ::
  "KafkaConfig \<Rightarrow> router \<Rightarrow> ctx \<Rightarrow> flush_env \<Rightarrow> nat \<Rightarrow> worker_case \<Rightarrow> writer_state \<Rightarrow> writer_state option"
  where
  "worker_step cfg r c env i wc s =
     (if i < length (ws_workers s) \<and> wk_running (ws_workers s ! i)
      then
        (let batch = wk_batch (ws_workers s ! i)
         in case wc of
              CtxDone \<Rightarrow>
                if ctx_done c then Some (stop_worker i (flush_worker r c env batch s)) else None
            | Receive \<Rightarrow>
                (case chan_recv (w_messageCh (ws_writer s)) of
                   Received msg ch' \<Rightarrow>
                     (let s1 = s\<lparr>ws_writer := (ws_writer s)\<lparr>w_messageCh := ch'\<rparr>\<rparr>;
                          batch' = batch @ [msg]
                      in if int (length batch') \<ge> MaxMessages (Batch cfg)
                         then Some (set_worker i \<lparr>wk_batch = [], wk_running = True\<rparr>
                                (flush_worker r c env batch' s1))
                         else Some (set_worker i \<lparr>wk_batch = batch', wk_running = True\<rparr> s1))
                 | RecvClosed \<Rightarrow> Some (stop_worker i (flush_worker r c env batch s))
                 | RecvBlocks \<Rightarrow> None)
            | Tick \<Rightarrow>
                Some (if batch \<noteq> []
                      then set_worker i \<lparr>wk_batch = [], wk_running = True\<rparr> (flush_worker r c env batch s)
                      else s)
            | MetricsTick \<Rightarrow>
                Some (s\<lparr>ws_metrics := (ws_metrics s)
                  \<lparr>KafkaWriterQueueDepth := chan_len (w_messageCh (ws_writer s))\<rparr>\<rparr>))
      else None)"

section \<open>The writer as a whole\<close>

datatype writer_event =
    WriteEvent Message
  | CloseEvent
  | WorkerEvent nat worker_case flush_env

text \<open>\<open>None\<close>: the step is not possible now, or it panics (a write after the close).\<close>

definition writer_step ::
  "KafkaConfig \<Rightarrow> router \<Rightarrow> ctx \<Rightarrow> writer_event \<Rightarrow> writer_state \<Rightarrow> writer_state option" where
  "writer_step cfg r c we s =
     (case we of
        WriteEvent msg \<Rightarrow>
          (case Write msg (ws_writer s, ws_metrics s) of
             (WritePanic, _) \<Rightarrow> None
           | (_, w, m) \<Rightarrow> Some (s\<lparr>ws_writer := w, ws_metrics := m\<rparr>))
      | CloseEvent \<Rightarrow> Some (s\<lparr>ws_writer := Writer_Close (ws_writer s)\<rparr>)
      | WorkerEvent i wc env \<Rightarrow> worker_step cfg r c env i wc s)"

text \<open>A run: each event with the state of the program's context when it happens.\<close>

fun writer_run ::
  "KafkaConfig \<Rightarrow> router \<Rightarrow> (ctx \<times> writer_event) list \<Rightarrow> writer_state \<Rightarrow> writer_state option" where
  "writer_run cfg r [] s = Some s"
| "writer_run cfg r ((c, we) # es) s =
     (case writer_step cfg r c we s of None \<Rightarrow> None | Some s' \<Rightarrow> writer_run cfg r es s')"

interpretation wr: machine "\<lambda>(c, we). writer_step cfg r c we" "writer_run cfg r" for cfg r
  by unfold_locales auto

section \<open>The dead letter queue: at most one record, three attempts\<close>

lemma dlq_cases:
  "case writeToDLQ r env msg reason (inp, m) of
     (DLQWritten k, inp', m') \<Rightarrow> k < maxRetries \<and>
       inp' = inp @ [producer_message (GetDLQTopic r) (msg_Key msg) (msg_Value msg) (msg_Event msg)
         (msg_EventType msg) (msg_ContentType msg) (dlq_now env k)] \<and>
       m' = m\<lparr>DLQEventsTotal := bump reason (DLQEventsTotal m),
              DLQEventsBytesTotal := DLQEventsBytesTotal m + length (msg_Value msg)\<rparr>
   | (DLQCancelled k, inp', m') \<Rightarrow> 0 < k \<and> k < maxRetries \<and> inp' = inp \<and> m' = m
   | (DLQFailed, inp', m') \<Rightarrow>
       inp' = inp \<and> m' = m\<lparr>DLQWriteFailuresTotal := Suc (DLQWriteFailuresTotal m)\<rparr>"
  by (auto simp: writeToDLQ_def maxRetries_def numeral_3_eq_3 SendMessage_def Let_def
      split: option.split)

text \<open>
  Dead letter outcome.  A dead letter write ends after at most three attempts in one of three ways.
  Written at attempt \<open>k\<close>: one record on the DLQ topic with the message's key and value, the DLQ event
  and byte counters grown accordingly, no failure counted.  Cancelled: after the first attempt, with
  nothing sent and nothing counted.  Failed: nothing sent, one failure counted.
\<close>

theorem dlq_outcome:
  "case writeToDLQ r env msg reason (inp, m) of
     (DLQWritten k, inp', m') \<Rightarrow> k < maxRetries \<and>
       inp' = inp @ [producer_message (GetDLQTopic r) (msg_Key msg) (msg_Value msg) (msg_Event msg)
         (msg_EventType msg) (msg_ContentType msg) (dlq_now env k)] \<and>
       m' = m\<lparr>DLQEventsTotal := bump reason (DLQEventsTotal m),
              DLQEventsBytesTotal := DLQEventsBytesTotal m + length (msg_Value msg)\<rparr>
   | (DLQCancelled k, inp', m') \<Rightarrow> 0 < k \<and> k < maxRetries \<and> inp' = inp \<and> m' = m
   | (DLQFailed, inp', m') \<Rightarrow>
       inp' = inp \<and> m' = m\<lparr>DLQWriteFailuresTotal := Suc (DLQWriteFailuresTotal m)\<rparr>"
  by (rule dlq_cases)

lemma writeToDLQ_input:
  "\<exists>ds. fst (snd (writeToDLQ r env msg reason st)) = fst st @ ds \<and> length ds \<le> 1 \<and>
     (\<forall>d \<in> set ds. pm_Topic d = GetDLQTopic r \<and> pm_Key d = msg_Key msg \<and> pm_Value d = msg_Value msg)"
proof -
  obtain inp m where st: "st = (inp, m)" by fastforce
  obtain res inp' m' where w: "writeToDLQ r env msg reason (inp, m) = (res, inp', m')"
    by (metis prod_cases3)
  show ?thesis
    using dlq_cases [where r = r and env = env and msg = msg and reason = reason and inp = inp and m = m] w st
    by (cases res) (auto simp: producer_message_def)
qed

lemma writeToDLQ_drops: "DropsTotal (snd (snd (writeToDLQ r env msg reason (inp, m)))) = DropsTotal m"
proof -
  obtain res inp' m' where w: "writeToDLQ r env msg reason (inp, m) = (res, inp', m')"
    by (metis prod_cases3)
  show ?thesis using dlq_cases [where r = r and env = env and msg = msg and reason = reason and inp = inp and m = m] w by (cases res) auto
qed

section \<open>Flushing\<close>

definition record_body :: "ProducerMessage \<Rightarrow> string \<times> string \<times> string \<times> (string \<times> string) list" where
  "record_body pm = (pm_Topic pm, pm_Key pm, pm_Value pm, pm_Headers pm)"

definition message_body :: "Message \<Rightarrow> string \<times> string \<times> string \<times> (string \<times> string) list" where
  "message_body msg = (msg_Topic msg, msg_Key msg, msg_Value msg,
     message_headers (msg_EventType msg) (msg_ContentType msg))"

lemma record_body_message_record [simp]: "record_body (message_record msg t) = message_body msg"
  by (simp add: record_body_def message_record_def message_body_def producer_message_def)

text \<open>The records a flush hands over, message \<open>i\<close> with the clock reading of its turn.\<close>

fun flush_records :: "flush_env \<Rightarrow> nat \<Rightarrow> Message list \<Rightarrow> ProducerMessage list" where
  "flush_records env i [] = []"
| "flush_records env i (msg # msgs) = message_record msg (fe_now env i) # flush_records env (Suc i) msgs"

lemma length_flush_records [simp]: "length (flush_records env i msgs) = length msgs"
  by (induction msgs arbitrary: i) simp_all

lemma flush_records_body [simp]: "map record_body (flush_records env i msgs) = map message_body msgs"
  by (induction msgs arbitrary: i) simp_all

definition env_live :: "flush_env \<Rightarrow> bool" where
  "env_live env \<longleftrightarrow> fe_ctx env = (\<lambda>_. None)"

lemma flush_loop_live:
  "env_live env \<Longrightarrow> flush_loop r env batch i msgs sent (inp, m) = (True, inp @ flush_records env i msgs, m)"
  by (induction msgs arbitrary: i sent inp) (simp_all add: env_live_def ctx_done_def Let_def)

lemma flushBatch_live:
  assumes "env_live env"
  shows "fst (flushBatch r None env batch (inp, m)) = inp @ flush_records env 0 batch"
  using assms by (simp add: flushBatch_def derived_def flush_loop_live Let_def)

text \<open>A cancelled loop: what was put into \<^verbatim>\<open>sentMessages\<close> decides where the dead letters start.\<close>

lemma length_update_new: "k \<notin> fst ` set al \<Longrightarrow> length (AList.update k v al) = Suc (length al)"
  by (induction al) auto

lemma flush_loop_cancelled:
  assumes "distinct (map message_key (pre @ msgs))"
    and "fst ` set sent = message_key ` set pre" and "length sent = length pre"
    and "j < length msgs"
    and "\<forall>k < j. \<not> (ctx_done (fe_ctx env (i + k)) \<and> fe_pick env (i + k))"
    and "ctx_done (fe_ctx env (i + j)) \<and> fe_pick env (i + j)"
  shows "flush_loop r env (pre @ msgs) i msgs sent (inp, m) =
    (False, dlq_rest r env (Suc (length pre + j)) (drop (Suc j) msgs)
       (inp @ flush_records env i (take j msgs), m))"
  using assms
proof (induction msgs arbitrary: pre i sent inp j)
  case Nil
  then show ?case by simp
next
  case (Cons msg msgs)
  let ?sent = "AList.update (message_key msg) msg sent"
  have new: "message_key msg \<notin> fst ` set sent" using Cons.prems(1,2) by auto
  then have len: "length ?sent = Suc (length pre)" using Cons.prems(3) by (simp add: length_update_new)
  show ?case
  proof (cases j)
    case 0
    then show ?thesis using Cons.prems(6) len by (simp add: Let_def del: dlq_rest.simps)
  next
    case (Suc j')
    have keys: "fst ` set ?sent = message_key ` set (pre @ [msg])"
      using Cons.prems(2) by (simp add: dom_update)
    have go: "\<not> (ctx_done (fe_ctx env i) \<and> fe_pick env i)"
      using Cons.prems(5) Suc by (metis add.right_neutral zero_less_Suc)
    have "flush_loop r env ((pre @ [msg]) @ msgs) (Suc i) msgs ?sent (inp @ [message_record msg (fe_now env i)], m) =
      (False, dlq_rest r env (Suc (length (pre @ [msg]) + j')) (drop (Suc j') msgs)
         ((inp @ [message_record msg (fe_now env i)]) @ flush_records env (Suc i) (take j' msgs), m))"
    proof (rule Cons.IH)
      show "distinct (map message_key ((pre @ [msg]) @ msgs))" using Cons.prems(1) by simp
      show "fst ` set ?sent = message_key ` set (pre @ [msg])" by (rule keys)
      show "length ?sent = length (pre @ [msg])" using len by simp
      show "j' < length msgs" using Cons.prems(4) Suc by simp
      show "\<forall>k<j'. \<not> (ctx_done (fe_ctx env (Suc i + k)) \<and> fe_pick env (Suc i + k))"
        using Cons.prems(5) Suc by (metis Suc_mono add_Suc add_Suc_right)
      show "ctx_done (fe_ctx env (Suc i + j')) \<and> fe_pick env (Suc i + j')"
        using Cons.prems(6) Suc by simp
    qed
    then show ?thesis using go Suc by (auto simp: Let_def)
  qed
qed

lemma dlq_rest_input:
  "\<exists>ds. fst (dlq_rest r env i msgs st) = fst st @ ds \<and> length ds \<le> length msgs \<and>
     (\<forall>d \<in> set ds. pm_Topic d = GetDLQTopic r \<and>
        (\<exists>msg \<in> set msgs. pm_Key d = msg_Key msg \<and> pm_Value d = msg_Value msg))"
proof (induction msgs arbitrary: i st)
  case Nil
  then show ?case by simp
next
  case (Cons msg msgs)
  let ?st = "snd (writeToDLQ r (fe_dlq env i) msg ''context cancelled'' st)"
  obtain ds where ds: "fst ?st = fst st @ ds" "length ds \<le> 1"
    "\<forall>d \<in> set ds. pm_Topic d = GetDLQTopic r \<and> pm_Key d = msg_Key msg \<and> pm_Value d = msg_Value msg"
    using writeToDLQ_input by blast
  obtain es where es: "fst (dlq_rest r env (Suc i) msgs ?st) = fst ?st @ es" "length es \<le> length msgs"
    "\<forall>d \<in> set es. pm_Topic d = GetDLQTopic r \<and>
       (\<exists>msg \<in> set msgs. pm_Key d = msg_Key msg \<and> pm_Value d = msg_Value msg)"
    using Cons.IH by blast
  have "fst (dlq_rest r env i (msg # msgs) st) = fst st @ (ds @ es)" using ds(1) es(1) by simp
  moreover have "length (ds @ es) \<le> length (msg # msgs)" using ds(2) es(2) by simp
  ultimately show ?case using ds(3) es(3) by (intro exI [of _ "ds @ es"]) auto
qed

text \<open>
  C16: A cancelled flush loses a message.  When the messages of a batch have different keys and the flush
  context is found done at the select of message \<open>j\<close>, the messages before \<open>j\<close> go to the producer, each
  message after \<open>j\<close> gives at most one dead letter, and message \<open>j\<close> itself, already entered into
  \<^verbatim>\<open>sentMessages\<close>, is neither sent nor dead-lettered: fewer records than messages come out.
\<close>

theorem flush_cancel_loses_message:
  assumes "distinct (map message_key batch)" and "j < length batch"
    and "\<forall>k < j. \<not> (ctx_done (fe_ctx env k) \<and> fe_pick env k)"
    and "ctx_done (fe_ctx env j) \<and> fe_pick env j"
  shows "\<exists>ds. fst (flushBatch r None env batch (inp, m)) = inp @ flush_records env 0 (take j batch) @ ds \<and>
    length (take j batch) + length ds < length batch \<and>
    (\<forall>d \<in> set ds. pm_Topic d = GetDLQTopic r \<and>
       (\<exists>msg \<in> set (drop (Suc j) batch). pm_Key d = msg_Key msg \<and> pm_Value d = msg_Value msg))"
proof -
  have "flush_loop r env batch 0 batch [] (inp, m) =
    (False, dlq_rest r env (Suc j) (drop (Suc j) batch) (inp @ flush_records env 0 (take j batch), m))"
    using flush_loop_cancelled [of "[]" batch "[]" j env 0 r inp m] assms by simp
  moreover have "batch \<noteq> []" using assms(2) by auto
  ultimately have out: "flushBatch r None env batch (inp, m)
      = dlq_rest r env (Suc j) (drop (Suc j) batch) (inp @ flush_records env 0 (take j batch), m)"
    by (simp add: flushBatch_def derived_def Let_def)
  obtain ds where ds: "fst (dlq_rest r env (Suc j) (drop (Suc j) batch)
        (inp @ flush_records env 0 (take j batch), m)) = (inp @ flush_records env 0 (take j batch)) @ ds"
    "length ds \<le> length (drop (Suc j) batch)"
    "\<forall>d \<in> set ds. pm_Topic d = GetDLQTopic r \<and>
       (\<exists>msg \<in> set (drop (Suc j) batch). pm_Key d = msg_Key msg \<and> pm_Value d = msg_Value msg)"
    using dlq_rest_input [of r env "Suc j" "drop (Suc j) batch"
        "(inp @ flush_records env 0 (take j batch), m)"] by auto
  have "length (take j batch) + length ds < length batch" using ds(2) assms(2) by simp
  then show ?thesis using out ds(1,3) by auto
qed

text \<open>Two messages, a flush whose context is done from the start, and one whose context stays live.\<close>

definition example_message :: "string \<Rightarrow> Message" where
  "example_message trace = \<lparr>msg_Event = None, msg_EventType = ''process_exec'',
     msg_ContentType = ''application/json'', msg_Topic = ''tetragon.process.exec'',
     msg_Key = ''node-a:process_exec:42'', msg_Value = ''{}'', msg_TraceID = trace\<rparr>"

definition dlq_env_done :: dlq_env where
  "dlq_env_done = \<lparr>dlq_wait_ctx = \<lambda>_. Some Canceled, dlq_wait_pick = \<lambda>_. True,
     dlq_send_ctx = \<lambda>_. Some Canceled, dlq_send_pick = \<lambda>_. True, dlq_now = \<lambda>_. 0\<rparr>"

definition flush_env_done :: flush_env where
  "flush_env_done = \<lparr>fe_ctx = \<lambda>_. Some Canceled, fe_pick = \<lambda>_. True, fe_now = \<lambda>_. 0,
     fe_dlq = \<lambda>_. dlq_env_done\<rparr>"

definition flush_env_live :: flush_env where
  "flush_env_live = \<lparr>fe_ctx = \<lambda>_. None, fe_pick = \<lambda>_. False, fe_now = \<lambda>_. 0,
     fe_dlq = \<lambda>_. dlq_env_done\<rparr>"

lemma env_live_example [simp]: "env_live flush_env_live"
  by (simp add: env_live_def flush_env_live_def)

theorem flush_cancel_loses_message_witness:
  "\<exists>ds. fst (flushBatch (NewRouter Map.empty) None flush_env_done
      [example_message ''t1'', example_message ''t2''] ([], metrics_init)) = ds \<and>
     length ds < 2"
  using flush_cancel_loses_message [of "[example_message ''t1'', example_message ''t2'']" 0
      flush_env_done "NewRouter Map.empty" "[]" metrics_init]
  by (auto simp: message_key_def example_message_def flush_env_done_def ctx_done_def)

end
