(* ===== verification/Writer_Properties.thy ===== *)
theory Writer_Properties
  imports Kafka_Writer
begin

text \<open>
  What the writer of \<^verbatim>\<open>internal/kafka/writer.go\<close> guarantees as a whole: its bounds, exactly one record
  per accepted message while no context is done, order with one worker, and the drain after \<^verbatim>\<open>Close\<close>.
\<close>

section \<open>The message channel is a counting bounded queue\<close>

definition writer_put :: "Writer \<times> metrics \<Rightarrow> Message \<Rightarrow> bool \<times> Writer \<times> metrics" where
  "writer_put wm msg = (case Write msg wm of (res, wm') \<Rightarrow> (res = WriteOk, wm'))"

definition writer_get :: "Writer \<times> metrics \<Rightarrow> (Message \<times> Writer \<times> metrics) option" where
  "writer_get = (\<lambda>(w, m). case chan_recv (w_messageCh w) of
     Received v ch' \<Rightarrow> Some (v, w\<lparr>w_messageCh := ch'\<rparr>, m) | _ \<Rightarrow> None)"

definition writer_items :: "Writer \<times> metrics \<Rightarrow> Message list" where
  "writer_items wm = chan_buf (w_messageCh (fst wm))"

definition writer_bound :: "Writer \<times> metrics \<Rightarrow> nat" where
  "writer_bound wm = chan_cap (w_messageCh (fst wm))"

definition writer_dropped :: "Writer \<times> metrics \<Rightarrow> nat" where
  "writer_dropped wm = DropsTotal (snd wm) ''writer_queue_full''"

definition writer_open :: "Writer \<times> metrics \<Rightarrow> bool" where
  "writer_open wm \<longleftrightarrow> \<not> chan_closed (w_messageCh (fst wm))"

lemmas writer_view_defs = writer_items_def writer_bound_def writer_dropped_def writer_open_def

lemma writer_put_open:
  "writer_open (w, m) \<Longrightarrow> writer_put (w, m) msg =
     (if length (chan_buf (w_messageCh w)) < chan_cap (w_messageCh w)
      then (True, w\<lparr>w_messageCh := (w_messageCh w)\<lparr>chan_buf := chan_buf (w_messageCh w) @ [msg]\<rparr>\<rparr>, m)
      else (False, w, DropsTotal_update (bump ''writer_queue_full'') m))"
  by (simp add: writer_put_def writer_view_defs Write_def chan_send_def)

lemma writer_get_eq:
  "writer_get (w, m) =
     (case chan_buf (w_messageCh w) of [] \<Rightarrow> None
      | v # vs \<Rightarrow> Some (v, w\<lparr>w_messageCh := (w_messageCh w)\<lparr>chan_buf := vs\<rparr>\<rparr>, m))"
  by (simp add: writer_get_def chan_recv_def split: list.split)

interpretation wq: counting_queue writer_items writer_bound writer_put writer_get writer_open writer_dropped
proof (unfold_locales, goal_cases)
  case (5 wm) then show ?case
    by (cases wm) (simp add: writer_get_eq writer_items_def split: list.split)
next
  case (6 wm x wm') then show ?case
    by (cases wm) (auto simp: writer_get_eq writer_view_defs split: list.splits)
next
  case (8 wm x wm') then show ?case
    by (cases wm) (auto simp: writer_get_eq writer_view_defs split: list.splits)
qed ((case_tac q; simp add: writer_put_open; simp add: writer_view_defs)+)

text \<open>
  Writer queue accounting.  While the channel is open, every sequence of writes and receives behaves
  as the abstract bounded queue: messages leave in the order of their acceptance, each write is
  accepted or counted under \<^verbatim>\<open>drops_total{reason="writer_queue_full"}\<close>.
\<close>

theorem writer_queue_refines:
  assumes "writer_open wm" and "impl_run writer_put writer_get ops wm = (obs, wm')"
  shows "spec_run ops \<lparr>sq_items = writer_items wm, sq_bound = writer_bound wm, sq_dropped = writer_dropped wm\<rparr>
    = (obs, \<lparr>sq_items = writer_items wm', sq_bound = writer_bound wm', sq_dropped = writer_dropped wm'\<rparr>)"
  using wq.run_refines [OF assms(1), of ops] assms(2) by (simp add: wq.abs_queue_def)

section \<open>Well-formedness\<close>

text \<open>The accepted messages that have not been handed over: the batches and the channel.\<close>

definition in_flight :: "writer_state \<Rightarrow> Message list" where
  "in_flight s = concat (map wk_batch (ws_workers s)) @ chan_buf (w_messageCh (ws_writer s))"

text \<open>
  The channel is within its capacity, and every worker's batch is below the flush size.
\<close>

definition writer_wf :: "KafkaConfig \<Rightarrow> writer_state \<Rightarrow> bool" where
  "writer_wf cfg s \<longleftrightarrow> chan_wf (w_messageCh (ws_writer s)) \<and>
     (\<forall>wk \<in> set (ws_workers s). int (length (wk_batch wk)) < MaxMessages (Batch cfg))"

lemma flush_worker_simps [simp]:
  "ws_writer (flush_worker r c env batch s) = ws_writer s"
  "ws_workers (flush_worker r c env batch s) = ws_workers s"
  by (simp_all add: flush_worker_def split: prod.split)

lemma set_worker_simps [simp]:
  "ws_writer (set_worker i wk s) = ws_writer s"
  "ws_workers (set_worker i wk s) = (ws_workers s)[i := wk]"
  "ws_input (set_worker i wk s) = ws_input s"
  "ws_metrics (set_worker i wk s) = ws_metrics s"
  by (simp_all add: set_worker_def)

lemma stop_worker_simps [simp]:
  "ws_writer (stop_worker i s) = ws_writer s"
  "ws_workers (stop_worker i s) = (ws_workers s)[i := \<lparr>wk_batch = [], wk_running = False\<rparr>]"
  "ws_input (stop_worker i s) = ws_input s"
  by (simp_all add: stop_worker_def)

text \<open>The ways a worker's turn can go, for case analysis.\<close>

lemma worker_step_cases:
  assumes "worker_step cfg r c env i wc s = Some s'"
  obtains
    (stop) "i < length (ws_workers s)" "wk_running (ws_workers s ! i)"
      "s' = stop_worker i (flush_worker r c env (wk_batch (ws_workers s ! i)) s)"
      "wc = CtxDone \<and> ctx_done c \<or>
       wc = Receive \<and> chan_buf (w_messageCh (ws_writer s)) = [] \<and> chan_closed (w_messageCh (ws_writer s))"
  | (full) msg ch' s1 where "i < length (ws_workers s)" "wk_running (ws_workers s ! i)" "wc = Receive"
      "chan_recv (w_messageCh (ws_writer s)) = Received msg ch'"
      "s1 = s\<lparr>ws_writer := (ws_writer s)\<lparr>w_messageCh := ch'\<rparr>\<rparr>"
      "s' = set_worker i \<lparr>wk_batch = [], wk_running = True\<rparr>
         (flush_worker r c env (wk_batch (ws_workers s ! i) @ [msg]) s1)"
  | (collect) msg ch' s1 where "i < length (ws_workers s)" "wk_running (ws_workers s ! i)" "wc = Receive"
      "chan_recv (w_messageCh (ws_writer s)) = Received msg ch'"
      "s1 = s\<lparr>ws_writer := (ws_writer s)\<lparr>w_messageCh := ch'\<rparr>\<rparr>"
      "int (length (wk_batch (ws_workers s ! i) @ [msg])) < MaxMessages (Batch cfg)"
      "s' = set_worker i \<lparr>wk_batch = wk_batch (ws_workers s ! i) @ [msg], wk_running = True\<rparr> s1"
  | (tick) "i < length (ws_workers s)" "wk_running (ws_workers s ! i)" "wc = Tick"
      "s' = set_worker i \<lparr>wk_batch = [], wk_running = True\<rparr>
         (flush_worker r c env (wk_batch (ws_workers s ! i)) s)"
  | (same) m where "s' = s\<lparr>ws_metrics := m\<rparr>"
proof -
  from assms have run: "i < length (ws_workers s)" "wk_running (ws_workers s ! i)"
    by (auto simp: worker_step_def split: if_splits)
  show thesis
  proof (cases wc)
    case CtxDone
    with assms run show thesis
      by (intro stop) (auto simp: worker_step_def Let_def split: if_splits)
  next
    case Receive
    show thesis
    proof (cases "chan_recv (w_messageCh (ws_writer s))")
      case (Received msg ch')
      show thesis
      proof (cases "int (length (wk_batch (ws_workers s ! i) @ [msg])) < MaxMessages (Batch cfg)")
        case True
        with assms run Receive Received show thesis
          by (intro collect [OF run Receive Received refl True]) (simp add: worker_step_def Let_def)
      next
        case False
        with assms run Receive Received show thesis
          by (intro full [OF run Receive Received refl]) (simp add: worker_step_def Let_def not_less)
      qed
    next
      case RecvClosed
      with assms run Receive show thesis
        by (intro stop) (auto simp: worker_step_def Let_def chan_results)
    next
      case RecvBlocks
      with assms run Receive show thesis by (simp add: worker_step_def Let_def)
    qed
  next
    case Tick
    show thesis
    proof (cases "wk_batch (ws_workers s ! i) = []")
      case True
      with assms run Tick have "s' = s" by (simp add: worker_step_def Let_def)
      then show thesis by (intro same [of "ws_metrics s"]) simp
    next
      case False
      with assms run Tick show thesis by (intro tick) (simp_all add: worker_step_def Let_def)
    qed
  next
    case MetricsTick
    with assms run show thesis
      by (intro same [of "(ws_metrics s)\<lparr>KafkaWriterQueueDepth := chan_len (w_messageCh (ws_writer s))\<rparr>"])
        (simp add: worker_step_def Let_def)
  qed
qed

lemma worker_step_wf:
  assumes "writer_wf cfg s" and "0 < MaxMessages (Batch cfg)"
    and "worker_step cfg r c env i wc s = Some s'"
  shows "writer_wf cfg s'"
proof -
  have upd: "\<And>wk. int (length (wk_batch wk)) < MaxMessages (Batch cfg) \<Longrightarrow>
      \<forall>v \<in> set ((ws_workers s)[i := wk]). int (length (wk_batch v)) < MaxMessages (Batch cfg)"
    using assms(1) set_update_subset_insert by (fastforce simp: writer_wf_def)
  have nil: "\<And>b. \<forall>v \<in> set ((ws_workers s)[i := \<lparr>wk_batch = [], wk_running = b\<rparr>]).
      int (length (wk_batch v)) < MaxMessages (Batch cfg)"
    using assms(2) by (intro upd) simp
  from assms(3) show ?thesis
    using assms(1,2)
  proof (cases rule: worker_step_cases)
    case (full msg ch' s1)
    then have "chan_wf ch'" using assms(1) chan_wf_recv by (auto simp: writer_wf_def)
    with full nil show ?thesis by (simp add: writer_wf_def)
  next
    case (collect msg ch' s1)
    then have "chan_wf ch'" using assms(1) chan_wf_recv by (auto simp: writer_wf_def)
    with collect upd [of "\<lparr>wk_batch = wk_batch (ws_workers s ! i) @ [msg], wk_running = True\<rparr>"] show ?thesis
      by (simp add: writer_wf_def)
  qed (use nil in \<open>simp_all add: writer_wf_def\<close>)
qed

lemma writer_step_wf:
  assumes "writer_wf cfg s" and "0 < MaxMessages (Batch cfg)"
    and "writer_step cfg r c we s = Some s'"
  shows "writer_wf cfg s'"
proof (cases we)
  case (WorkerEvent i wc env)
  with assms show ?thesis by (auto simp: writer_step_def intro: worker_step_wf)
next
  case CloseEvent
  with assms show ?thesis
    by (auto simp: writer_step_def writer_wf_def Writer_Close_def chan_close_def chan_wf_def chan_len_def)
next
  case (WriteEvent msg)
  with assms show ?thesis
    by (auto simp: writer_step_def writer_wf_def Write_def chan_results
        split: send_result.splits write_result.splits) (auto simp: chan_wf_def chan_len_def)
qed

lemma writer_run_wf:
  assumes "writer_run cfg r es s = Some s'" and "writer_wf cfg s" and "0 < MaxMessages (Batch cfg)"
  shows "writer_wf cfg s'"
  using assms by (induction rule: wr.run_induct) (auto dest: writer_step_wf)

lemma Start_wf: "0 < MaxMessages (Batch cfg) \<Longrightarrow> NewWriter cfg = Some w \<Longrightarrow> writer_wf cfg (Start cfg w m)"
  by (auto simp: writer_wf_def Start_def dest!: NewWriter_SomeD)

lemma step_bound:
  "writer_step cfg r c we s = Some s' \<Longrightarrow>
   chan_cap (w_messageCh (ws_writer s')) = chan_cap (w_messageCh (ws_writer s)) \<and>
   length (ws_workers s') = length (ws_workers s)"
proof (cases we)
  case (WorkerEvent i wc env)
  assume "writer_step cfg r c we s = Some s'"
  with WorkerEvent have "worker_step cfg r c env i wc s = Some s'" by (simp add: writer_step_def)
  then show ?thesis by (cases rule: worker_step_cases) (auto simp: chan_results)
qed (auto simp: writer_step_def Write_def Writer_Close_def chan_close_def chan_results
    split: send_result.splits)

lemma run_bound:
  assumes "writer_run cfg r es s = Some s'"
  shows "chan_cap (w_messageCh (ws_writer s')) = chan_cap (w_messageCh (ws_writer s)) \<and>
    length (ws_workers s') = length (ws_workers s)"
  using assms by (induction rule: wr.run_induct) (auto dest: step_bound)

text \<open>
  Writer bounds.  Whatever happens, cancellation included, the channel never holds more than
  \<open>max_messages * writer_workers\<close> messages, no worker's batch reaches \<open>max_messages\<close> between turns, and
  the number of workers is the configured one.
\<close>

theorem writer_bounds:
  assumes "0 < MaxMessages (Batch cfg)" and "NewWriter cfg = Some w"
    and "writer_run cfg r es (Start cfg w m) = Some s"
  shows "int (chan_len (w_messageCh (ws_writer s))) \<le> MaxMessages (Batch cfg) * WriterWorkers cfg \<and>
    (\<forall>wk \<in> set (ws_workers s). int (length (wk_batch wk)) < MaxMessages (Batch cfg)) \<and>
    length (ws_workers s) = nat (WriterWorkers cfg)"
proof -
  have "writer_wf cfg s" using writer_run_wf [OF assms(3) Start_wf [OF assms(1,2)] assms(1)] .
  moreover have "chan_cap (w_messageCh (ws_writer s)) = nat (MaxMessages (Batch cfg) * WriterWorkers cfg)"
    "length (ws_workers s) = nat (WriterWorkers cfg)"
    "0 \<le> MaxMessages (Batch cfg) * WriterWorkers cfg"
    using run_bound [OF assms(3)] NewWriter_SomeD [OF assms(2)] by (simp_all add: Start_def make_chan_def)
  ultimately show ?thesis by (auto simp: writer_wf_def chan_wf_def le_nat_iff)
qed

text \<open>A small writer and a run of it: one worker, batches of two.\<close>

definition example_kafka :: KafkaConfig where
  "example_kafka = (Kafka DefaultConfig)\<lparr>Batch := \<lparr>MaxMessages = 2, MaxBytes = 1000, FlushIntervalMs = 100\<rparr>,
     WriterWorkers := 1\<rparr>"

definition example_run :: "(ctx \<times> writer_event) list" where
  "example_run = [(None, WriteEvent (example_message ''t1'')), (None, WriteEvent (example_message ''t2'')),
     (None, WorkerEvent 0 Receive flush_env_live), (None, WorkerEvent 0 Receive flush_env_live)]"

definition example_writer :: Writer where
  "example_writer = the (NewWriter example_kafka)"

definition example_start :: writer_state where
  "example_start = Start example_kafka example_writer metrics_init"

lemmas example_writer_eval = example_kafka_def example_run_def example_start_def example_writer_def Start_def NewWriter_def
  make_chan_def writer_step_def worker_step_def Write_def chan_send_def chan_recv_def flush_worker_def
  flushBatch_def derived_def flush_env_live_def set_worker_def ctx_done_def stop_worker_def

definition example_router :: router where
  "example_router = NewRouter Map.empty"

lemma example_batch: "MaxMessages (Batch example_kafka) = 2" "WriterWorkers example_kafka = 1"
  by (simp_all add: example_kafka_def)

lemma example_writer: "NewWriter example_kafka = Some example_writer"
  by (simp add: example_writer_def NewWriter_def example_batch)

lemma example_run_result:
  "\<exists>s. writer_run example_kafka r example_run example_start = Some s \<and> in_flight s = []"
  by (simp add: example_writer_eval in_flight_def Let_def)

theorem writer_bounds_witness:
  "\<exists>s. writer_run example_kafka example_router example_run (Start example_kafka example_writer metrics_init) = Some s
    \<and> int (chan_len (w_messageCh (ws_writer s))) \<le> 2"
  using example_run_result [of example_router] writer_bounds [OF _ example_writer, of example_router example_run metrics_init]
  by (auto simp: example_batch example_start_def)

section \<open>Exactly one record per accepted message\<close>

text \<open>Everything handed over or still to be handed over, as a multiset of record bodies.\<close>

definition bodies :: "writer_state \<Rightarrow> (string \<times> string \<times> string \<times> (string \<times> string) list) multiset" where
  "bodies s = mset (map record_body (ws_input s)) + mset (map message_body (in_flight s))"

definition step_written :: "writer_event \<Rightarrow> writer_state \<Rightarrow> Message list" where
  "step_written we s =
     (case we of
        WriteEvent msg \<Rightarrow> if fst (Write msg (ws_writer s, ws_metrics s)) = WriteOk then [msg] else []
      | _ \<Rightarrow> [])"

text \<open>The messages a run accepted, in order.\<close>

fun run_written :: "KafkaConfig \<Rightarrow> router \<Rightarrow> (ctx \<times> writer_event) list \<Rightarrow> writer_state \<Rightarrow> Message list" where
  "run_written cfg r [] s = []"
| "run_written cfg r ((c, we) # es) s =
     (case writer_step cfg r c we s of
        None \<Rightarrow> []
      | Some s' \<Rightarrow> step_written we s @ run_written cfg r es s')"

text \<open>An event with no context done: neither the program's nor a flush's 30 second timeout.\<close>

definition live_event :: "ctx \<times> writer_event \<Rightarrow> bool" where
  "live_event ce \<longleftrightarrow> fst ce = None \<and>
     (case snd ce of WorkerEvent i wc env \<Rightarrow> env_live env | _ \<Rightarrow> True)"

lemma flush_worker_live:
  assumes "env_live env"
  shows "ws_input (flush_worker r None env batch s) = ws_input s @ flush_records env 0 batch"
  using flushBatch_live [OF assms, of r batch "ws_input s" "ws_metrics s"]
  by (simp add: flush_worker_def split: prod.split) (metis fst_conv)

lemma mset_workers_update:
  assumes "i < length ws"
  shows "mset (map f (concat (map wk_batch (ws[i := wk])))) + mset (map f (wk_batch (ws ! i)))
    = mset (map f (concat (map wk_batch ws))) + mset (map f (wk_batch wk))"
  using concat_map_list_update [OF assms, of wk_batch] by simp

lemma worker_step_bodies:
  assumes "worker_step cfg r None env i wc s = Some s'" and "env_live env"
  shows "bodies s' = bodies s"
  using assms(1)
proof (cases rule: worker_step_cases)
  case stop
  show ?thesis using mset_workers_update [OF stop(1), of message_body "\<lparr>wk_batch = [], wk_running = False\<rparr>"]
    by (simp add: stop(3) bodies_def in_flight_def flush_worker_live [OF assms(2)] ac_simps)
next
  case (full msg ch' s1)
  then have "chan_buf (w_messageCh (ws_writer s)) = msg # chan_buf ch'" by (auto simp: chan_results)
  then show ?thesis
    using mset_workers_update [OF full(1), of message_body "\<lparr>wk_batch = [], wk_running = True\<rparr>"]
    by (simp add: full(5,6) bodies_def in_flight_def flush_worker_live [OF assms(2)] ac_simps)
next
  case (collect msg ch' s1)
  then have "chan_buf (w_messageCh (ws_writer s)) = msg # chan_buf ch'" by (auto simp: chan_results)
  then show ?thesis
    using mset_workers_update [OF collect(1), of message_body
        "\<lparr>wk_batch = wk_batch (ws_workers s ! i) @ [msg], wk_running = True\<rparr>"]
    by (simp add: collect(5,7) bodies_def in_flight_def)
next
  case tick
  show ?thesis using mset_workers_update [OF tick(1), of message_body "\<lparr>wk_batch = [], wk_running = True\<rparr>"]
    by (simp add: tick(4) bodies_def in_flight_def flush_worker_live [OF assms(2)] ac_simps)
qed (simp add: bodies_def in_flight_def)

lemma chan_buf_Writer_Close [simp]: "chan_buf (w_messageCh (Writer_Close w)) = chan_buf (w_messageCh w)"
  by (simp add: Writer_Close_def chan_close_def)

lemma writer_step_bodies:
  assumes "writer_step cfg r c we s = Some s'" and "live_event (c, we)"
  shows "bodies s' = bodies s + mset (map message_body (step_written we s))"
proof (cases we)
  case (WriteEvent msg)
  then show ?thesis using assms
    by (auto simp: writer_step_def step_written_def Write_def bodies_def in_flight_def chan_results
        split: send_result.splits)
next
  case CloseEvent
  then show ?thesis using assms
    by (auto simp: writer_step_def step_written_def bodies_def in_flight_def)
next
  case (WorkerEvent i wc env)
  then have "worker_step cfg r None env i wc s = Some s'" "env_live env"
    using assms by (auto simp: writer_step_def live_event_def)
  then show ?thesis using WorkerEvent worker_step_bodies by (simp add: step_written_def)
qed

lemma writer_run_bodies:
  assumes "writer_run cfg r es s = Some s'" and "\<forall>e \<in> set es. live_event e"
  shows "bodies s' = bodies s + mset (map message_body (run_written cfg r es s))"
  using assms
proof (induction rule: wr.run_induct)
  case (Cons e es s s1)
  obtain c we where e: "e = (c, we)" by fastforce
  with Cons have "bodies s1 = bodies s + mset (map message_body (step_written we s))"
    using writer_step_bodies by simp
  then show ?case using Cons e by simp
qed simp

text \<open>
  C6: Exactly once into the producer.  As long as no context is done, in every interleaving of writes,
  workers and the close, the records the asynchronous producer has taken are, as a multiset, the
  messages accepted so far without those still in a batch or in the channel: nothing is lost,
  duplicated or altered in topic, key, value or headers.
\<close>

theorem writer_exactly_once:
  assumes "NewWriter cfg = Some w" and "writer_run cfg r es (Start cfg w m) = Some s" and "\<forall>e \<in> set es. live_event e"
  shows "mset (map record_body (ws_input s)) + mset (map message_body (in_flight s))
    = mset (map message_body (run_written cfg r es (Start cfg w m)))"
proof -
  have "in_flight (Start cfg w m) = []"
    using NewWriter_SomeD [OF assms(1)] by (simp add: in_flight_def Start_def make_chan_def)
  then have "bodies (Start cfg w m) = {#}"
    by (simp add: bodies_def Start_def)
  then show ?thesis using writer_run_bodies [OF assms(2,3)] by (simp add: bodies_def)
qed

section \<open>One worker keeps the order\<close>

definition single_queue :: "writer_state \<Rightarrow> (string \<times> string \<times> string \<times> (string \<times> string) list) list" where
  "single_queue s = map record_body (ws_input s)
     @ map message_body (wk_batch (ws_workers s ! 0) @ chan_buf (w_messageCh (ws_writer s)))"

lemma writer_step_single:
  assumes "writer_step cfg r c we s = Some s'" and "live_event (c, we)" and "length (ws_workers s) = 1"
  shows "single_queue s' = single_queue s @ map message_body (step_written we s)
    \<and> length (ws_workers s') = 1"
proof (cases we)
  case (WriteEvent msg)
  then show ?thesis using assms
    by (auto simp: writer_step_def step_written_def Write_def single_queue_def chan_results
        split: send_result.splits)
next
  case CloseEvent
  then show ?thesis using assms
    by (auto simp: writer_step_def step_written_def single_queue_def)
next
  case (WorkerEvent i wc env)
  then have step: "worker_step cfg r None env i wc s = Some s'" and live: "env_live env"
    using assms by (auto simp: writer_step_def live_event_def)
  have "single_queue s' = single_queue s \<and> length (ws_workers s') = 1"
    using step
  proof (cases rule: worker_step_cases)
    case stop
    then show ?thesis using assms(3) by (simp add: single_queue_def flush_worker_live [OF live])
  next
    case (full msg ch' s1)
    then have "chan_buf (w_messageCh (ws_writer s)) = msg # chan_buf ch'" by (auto simp: chan_results)
    then show ?thesis using assms(3) full by (simp add: single_queue_def flush_worker_live [OF live])
  next
    case (collect msg ch' s1)
    then have "chan_buf (w_messageCh (ws_writer s)) = msg # chan_buf ch'" by (auto simp: chan_results)
    then show ?thesis using assms(3) collect by (simp add: single_queue_def)
  next
    case tick
    then show ?thesis using assms(3) by (simp add: single_queue_def flush_worker_live [OF live])
  qed (use assms(3) in \<open>simp add: single_queue_def\<close>)
  then show ?thesis using WorkerEvent by (simp add: step_written_def)
qed

lemma writer_run_single:
  assumes "writer_run cfg r es s = Some s'" and "\<forall>e \<in> set es. live_event e"
    and "length (ws_workers s) = 1"
  shows "single_queue s' = single_queue s @ map message_body (run_written cfg r es s)"
  using assms
proof (induction rule: wr.run_induct)
  case (Cons e es s s1)
  obtain c we where e: "e = (c, we)" by fastforce
  have "single_queue s1 = single_queue s @ map message_body (step_written we s)" "length (ws_workers s1) = 1"
    using writer_step_single [of cfg r c we s s1] Cons e by simp_all
  then show ?case using Cons e by simp
qed simp

text \<open>
  C13: Order with one worker.  With \<^verbatim>\<open>writer_workers = 1\<close> and no context done, the records reach the
  producer in the order in which their messages were accepted.
\<close>

theorem writer_single_order:
  assumes "NewWriter cfg = Some w" and "WriterWorkers cfg = 1"
    and "writer_run cfg r es (Start cfg w m) = Some s" and "\<forall>e \<in> set es. live_event e"
  shows "map record_body (ws_input s)
      @ map message_body (wk_batch (ws_workers s ! 0) @ chan_buf (w_messageCh (ws_writer s)))
    = map message_body (run_written cfg r es (Start cfg w m))"
proof -
  have "single_queue (Start cfg w m) = []" "length (ws_workers (Start cfg w m)) = 1"
    using assms(2) NewWriter_SomeD [OF assms(1)] by (simp_all add: single_queue_def Start_def make_chan_def)
  then show ?thesis using writer_run_single [OF assms(3,4)] by (simp add: single_queue_def)
qed

section \<open>Draining after the close\<close>





theorem writer_exactly_once_witness:
  "\<exists>s. writer_run example_kafka example_router example_run (Start example_kafka example_writer metrics_init) = Some s
    \<and> mset (map record_body (ws_input s))
      = mset (map message_body (run_written example_kafka example_router example_run example_start))"
proof -
  obtain s where s: "writer_run example_kafka example_router example_run example_start = Some s" "in_flight s = []"
    using example_run_result by blast
  have "\<forall>e \<in> set example_run. live_event e"
    by (simp add: example_run_def live_event_def)
  with s show ?thesis using writer_exactly_once [OF example_writer, of example_router example_run metrics_init s]
    by (simp add: example_start_def)
qed

theorem writer_single_order_witness:
  "\<exists>s. writer_run example_kafka example_router example_run (Start example_kafka example_writer metrics_init) = Some s
    \<and> length (map record_body (ws_input s)) \<le> length (run_written example_kafka example_router example_run example_start)"
proof -
  obtain s where s: "writer_run example_kafka example_router example_run example_start = Some s"
    using example_run_result by blast
  have "\<forall>e \<in> set example_run. live_event e"
    by (simp add: example_run_def live_event_def)
  with s have "map record_body (ws_input s)
      @ map message_body (wk_batch (ws_workers s ! 0) @ chan_buf (w_messageCh (ws_writer s)))
    = map message_body (run_written example_kafka example_router example_run example_start)"
    using writer_single_order [OF example_writer, of example_router example_run metrics_init s]
    by (simp add: example_start_def example_batch)
  then have "length (map record_body (ws_input s)) \<le> length (map message_body (run_written example_kafka example_router example_run example_start))"
    by (metis length_append le_add1)
  with s show ?thesis by (simp add: example_start_def)
qed

theorem writer_queue_refines_witness:
  "fst (impl_run writer_put writer_get [Put (example_message ''t1''), Get] (example_writer, metrics_init))
    = [PutResult True, GotResult (Some (example_message ''t1''))]"
proof -
  let ?wm = "(example_writer, metrics_init)"
  obtain obs wm' where r: "impl_run writer_put writer_get [Put (example_message ''t1''), Get] ?wm = (obs, wm')"
    by (rule prod.exhaust)
  have w: "writer_open ?wm" "writer_items ?wm = []" "writer_bound ?wm = 2"
    by (simp_all add: writer_view_defs NewWriter_SomeD [OF example_writer] make_chan_def example_batch)
  then have "obs = [PutResult True, GotResult (Some (example_message ''t1''))]"
    using writer_queue_refines [OF w(1) r] by simp
  then show ?thesis using r by simp
qed

section \<open>What the shutdown can lose\<close>

lemma stopped_step:
  assumes "\<forall>wk \<in> set (ws_workers s). \<not> wk_running wk" and "writer_step cfg r c we s = Some s'"
  shows "ws_input s' = ws_input s \<and> ws_workers s' = ws_workers s \<and>
    (\<exists>more. chan_buf (w_messageCh (ws_writer s')) = chan_buf (w_messageCh (ws_writer s)) @ more)"
proof (cases we)
  case (WorkerEvent i wc env)
  then have "worker_step cfg r c env i wc s = Some s'" using assms(2) by (simp add: writer_step_def)
  then have "i < length (ws_workers s) \<and> wk_running (ws_workers s ! i)"
    by (auto simp: worker_step_def split: if_splits)
  then show ?thesis using assms(1) nth_mem by blast
qed (use assms in \<open>auto simp: writer_step_def Write_def chan_results split: send_result.splits\<close>)

lemma stopped_run:
  assumes "writer_run cfg r es s = Some s'" and "\<forall>wk \<in> set (ws_workers s). \<not> wk_running wk"
  shows "ws_input s' = ws_input s \<and>
    (\<exists>more. chan_buf (w_messageCh (ws_writer s')) = chan_buf (w_messageCh (ws_writer s)) @ more)"
  using assms
proof (induction rule: wr.run_induct)
  case (Cons e es s s1)
  obtain c we where "e = (c, we)" by fastforce
  then have st: "ws_input s1 = ws_input s" "ws_workers s1 = ws_workers s"
    "\<exists>more. chan_buf (w_messageCh (ws_writer s1)) = chan_buf (w_messageCh (ws_writer s)) @ more"
    using stopped_step [of s cfg r c we s1] Cons by simp_all
  then show ?case using Cons.IH Cons.prems by auto
qed simp

text \<open>The workers stop one after the other, each picking the done context.\<close>

definition cancel_workers :: "ctx_error \<Rightarrow> (nat \<Rightarrow> flush_env) \<Rightarrow> nat list \<Rightarrow> (ctx \<times> writer_event) list" where
  "cancel_workers err env = map (\<lambda>i. (Some err, WorkerEvent i CtxDone (env i)))"

lemma cancel_workers_run:
  assumes "distinct is" and "\<forall>i \<in> set is. i < length (ws_workers s) \<and> wk_running (ws_workers s ! i)"
  shows "\<exists>s1. writer_run cfg r (cancel_workers err env is) s = Some s1 \<and> ws_writer s1 = ws_writer s \<and>
    length (ws_workers s1) = length (ws_workers s) \<and>
    (\<forall>j < length (ws_workers s). wk_running (ws_workers s1 ! j) \<longleftrightarrow> wk_running (ws_workers s ! j) \<and> j \<notin> set is)"
  using assms
proof (induction "is" arbitrary: s)
  case (Cons i "is")
  define s0 where "s0 = stop_worker i (flush_worker r (Some err) (env i) (wk_batch (ws_workers s ! i)) s)"
  have step: "writer_step cfg r (Some err) (WorkerEvent i CtxDone (env i)) s = Some s0"
    using Cons.prems(2) by (simp add: writer_step_def worker_step_def ctx_done_def s0_def)
  have "\<forall>k \<in> set is. k < length (ws_workers s0) \<and> wk_running (ws_workers s0 ! k)"
    using Cons.prems by (auto simp: s0_def nth_list_update)
  from Cons.IH [OF _ this] Cons.prems(1) obtain s1 where
    s1: "writer_run cfg r (cancel_workers err env is) s0 = Some s1" "ws_writer s1 = ws_writer s0"
      "length (ws_workers s1) = length (ws_workers s0)"
      "\<forall>j < length (ws_workers s0). wk_running (ws_workers s1 ! j) \<longleftrightarrow> wk_running (ws_workers s0 ! j) \<and> j \<notin> set is"
    by auto
  have "writer_run cfg r (cancel_workers err env (i # is)) s = Some s1"
    using step s1(1) by (simp add: cancel_workers_def)
  moreover have "wk_running (ws_workers s1 ! j) \<longleftrightarrow> wk_running (ws_workers s ! j) \<and> j \<notin> set (i # is)"
    if "j < length (ws_workers s)" for j
    using s1(4) that by (cases "j = i") (auto simp: s0_def)
  ultimately show ?case using s1(2,3) by (auto simp: s0_def)
qed (simp add: cancel_workers_def)

text \<open>
  C18: Messages left behind.  In any state, whatever is in the channel and in the batches, the workers can all stop as soon
  as the program's context is done: each picks the done context, and the channel is left as it is.  After that no further event, the
  writer's close included, hands anything to the producer, and the messages stay at the head of the channel for good.
\<close>

theorem cancelled_workers_strand_messages:
  "\<exists>es1 s1. (\<forall>(c, we) \<in> set es1. c = Some err \<and> (\<exists>i. we = WorkerEvent i CtxDone env)) \<and> writer_run cfg r es1 s = Some s1 \<and>
     chan_buf (w_messageCh (ws_writer s1)) = chan_buf (w_messageCh (ws_writer s)) \<and> (\<forall>wk \<in> set (ws_workers s1). \<not> wk_running wk) \<and>
     (\<forall>es s'. writer_run cfg r es s1 = Some s' \<longrightarrow> ws_input s' = ws_input s1 \<and>
       (\<exists>more. chan_buf (w_messageCh (ws_writer s')) = chan_buf (w_messageCh (ws_writer s)) @ more))"
proof -
  define running where "running = filter (\<lambda>i. wk_running (ws_workers s ! i)) [0..<length (ws_workers s)]"
  have "distinct running" "\<forall>i \<in> set running. i < length (ws_workers s) \<and> wk_running (ws_workers s ! i)"
    by (auto simp: running_def)
  from cancel_workers_run [OF this, of cfg r err "\<lambda>_. env"] obtain s1 where
    s1: "writer_run cfg r (cancel_workers err (\<lambda>_. env) running) s = Some s1" "ws_writer s1 = ws_writer s"
      "length (ws_workers s1) = length (ws_workers s)"
      "\<forall>j < length (ws_workers s). wk_running (ws_workers s1 ! j) \<longleftrightarrow> wk_running (ws_workers s ! j) \<and> j \<notin> set running"
    by blast
  have stopped: "\<forall>wk \<in> set (ws_workers s1). \<not> wk_running wk"
    using s1(3,4) by (auto simp: in_set_conv_nth running_def)
  have "\<forall>(c, we) \<in> set (cancel_workers err (\<lambda>_. env) running). c = Some err \<and> (\<exists>i. we = WorkerEvent i CtxDone env)"
    by (auto simp: cancel_workers_def)
  moreover have "\<forall>es s'. writer_run cfg r es s1 = Some s' \<longrightarrow> ws_input s' = ws_input s1 \<and>
      (\<exists>more. chan_buf (w_messageCh (ws_writer s')) = chan_buf (w_messageCh (ws_writer s)) @ more)"
    using stopped_run [OF _ stopped] s1(2) by simp
  ultimately show ?thesis using s1(1,2) stopped
    by (intro exI [of _ "cancel_workers err (\<lambda>_. env) running"] exI [of _ s1]) simp
qed

text \<open>A message accepted by a writer whose context is then cancelled.\<close>

theorem cancelled_workers_strand_messages_witness:
  "\<exists>es1 s s1. writer_run example_kafka example_router [(None, WriteEvent (example_message ''t1''))] example_start = Some s \<and>
     writer_run example_kafka example_router es1 s = Some s1 \<and>
     (\<forall>s'. writer_run example_kafka example_router [(Some Canceled, CloseEvent)] s1 = Some s' \<longrightarrow>
        ws_input s' = ws_input s1 \<and> example_message ''t1'' \<in> set (chan_buf (w_messageCh (ws_writer s'))))"
proof -
  obtain s where s: "writer_run example_kafka example_router [(None, WriteEvent (example_message ''t1''))] example_start = Some s"
      "chan_buf (w_messageCh (ws_writer s)) = [example_message ''t1'']"
    by (simp add: example_writer_eval Let_def)
  from cancelled_workers_strand_messages [of Canceled flush_env_done example_kafka example_router s] obtain es1 s1 where
    s1: "writer_run example_kafka example_router es1 s = Some s1"
      "\<forall>es s'. writer_run example_kafka example_router es s1 = Some s' \<longrightarrow> ws_input s' = ws_input s1 \<and>
        (\<exists>more. chan_buf (w_messageCh (ws_writer s')) = chan_buf (w_messageCh (ws_writer s)) @ more)"
    by metis
  have "ws_input s' = ws_input s1 \<and> example_message ''t1'' \<in> set (chan_buf (w_messageCh (ws_writer s')))"
    if "writer_run example_kafka example_router [(Some Canceled, CloseEvent)] s1 = Some s'" for s'
    using s1(2) that s(2) by fastforce
  then show ?thesis using s(1) s1(1) by blast
qed

end
