(* ===== verification/Pipeline.thy ===== *)
theory Pipeline
  imports Grpc_Stream Event_Queue Partition_Key Normalizer Writer_Properties Machine "HOL-Library.Sublist"
begin

text \<open>
  The event path of \<^verbatim>\<open>cmd/consumer/main.go\<close>: \<^verbatim>\<open>processEvents\<close> moves events from the stream's channel through
  the sampler into the queue, \<^verbatim>\<open>writeToKafka\<close> turns queued events into messages for the writer.  The state of the
  whole path is \<open>pipeline\<close>; one turn of any of its goroutines is a \<open>pipeline_step\<close>, and a run is any interleaving
  of them.  The serialisers (\<^verbatim>\<open>protojson\<close>, \<^verbatim>\<open>proto.Marshal\<close>) are parameters.  Log lines are not modelled.
\<close>

section \<open>Processing one queued event\<close>

definition getEventNodeName :: "event \<Rightarrow> string" where
  "getEventNodeName event = (if ev_NodeName event \<noteq> '''' then ev_NodeName event else ''unknown'')"

datatype wk_result = WkContinues | WkPanics

definition latency :: "string \<Rightarrow> metrics \<Rightarrow> metrics" where
  "latency stage m = EventProcessingLatencyMs_update (bump stage) m"

text \<open>The format switch: the value and its content type, \<open>Inl\<close> when serialising failed.\<close>

definition serialize ::
  "(event \<Rightarrow> 'e + string) \<Rightarrow> SchemaConfig \<Rightarrow> event \<Rightarrow> EventSchema \<Rightarrow> ('e + string) \<times> string" where
  "serialize protobytes schemaCfg event schema =
     (let format = (if Schema_Format schemaCfg = '''' then ''json'' else Schema_Format schemaCfg)
      in if format = ''protobuf'' then (protobytes event, ''application/protobuf'')
         else (Inr (if length (Raw schema) > 0 then Raw schema else ToJSON schema), ''application/json''))"

text \<open>
  The second half of the loop body of \<^verbatim>\<open>writeToKafka\<close>: route, key, write.  \<open>has_writer\<close> is false when Kafka was not
  reachable at start-up.
\<close>

definition deliver ::
  "Config \<Rightarrow> router \<Rightarrow> bool \<Rightarrow> event \<Rightarrow> string \<Rightarrow> string \<Rightarrow> string \<Rightarrow> string \<Rightarrow> Writer \<times> metrics
    \<Rightarrow> wk_result \<times> Writer \<times> metrics" where
  "deliver cfg r has_writer event eventType contentType val traceID = (\<lambda>(w, m).
     let m1 = latency ''serialize'' m;
         topic = Route r event;
         m2 = latency ''route'' m1;
         key = GenerateDedupKey event (PartitionKey (Routing cfg));
         msg = \<lparr>msg_Event = Some event, msg_EventType = eventType, msg_ContentType = contentType,
                msg_Topic = topic, msg_Key = key, msg_Value = val, msg_TraceID = traceID\<rparr>
     in if \<not> has_writer
        then (WkContinues, w, EventsOutTotal_update (bump (topic, ''writer_not_initialized'')) m2)
        else (case Write msg (w, m2) of
                (WriteOk, w', m3) \<Rightarrow>
                  (WkContinues, w', latency ''total'' (EventsOutTotal_update (bump (topic, ''success'')) m3))
              | (WriteQueueFull, w', m3) \<Rightarrow>
                  (WkContinues, w', latency ''total'' (EventsOutTotal_update (bump (topic, ''failed'')) m3))
              | (WritePanic, w', m3) \<Rightarrow> (WkPanics, w', m3)))"

text \<open>
  The first half, after a successful pop: normalise and serialise, a failure of either being counted and ending the
  turn.  \<open>now\<close> and \<open>rnd\<close> are the clock and the random bytes of the trace id.
\<close>

definition writeToKafka_event ::
  "(event \<Rightarrow> 'e + string) \<Rightarrow> (event \<Rightarrow> 'e + string) \<Rightarrow> Config \<Rightarrow> router \<Rightarrow> bool \<Rightarrow> i64 \<Rightarrow> string \<Rightarrow> event
    \<Rightarrow> Writer \<times> metrics \<Rightarrow> wk_result \<times> Writer \<times> metrics" where
  "writeToKafka_event protojson protobytes cfg r has_writer now rnd event = (\<lambda>(w, m).
     let eventType = DetectEventType event
     in case Normalize protojson now rnd event of
          Inl err \<Rightarrow> (WkContinues, w, NormalizeErrorsTotal_update (bump eventType) m)
        | Inr schema \<Rightarrow>
            (let m1 = latency ''normalize'' (NormalizeLatencyMs_update (bump (Type schema)) m)
             in case serialize protobytes (Schema cfg) event schema of
                  (Inl err, contentType) \<Rightarrow> (WkContinues, w, NormalizeErrorsTotal_update (bump (Type schema)) m1)
                | (Inr val, contentType) \<Rightarrow>
                    deliver cfg r has_writer event eventType contentType val (TraceID schema) (w, m1)))"

section \<open>The goroutines together\<close>

text \<open>
  \<open>pl_pending\<close> is the event \<^verbatim>\<open>processEvents\<close> has taken from the channel and is pushing.  The metrics are those in
  \<open>pl_ws\<close>.  A goroutine that has returned, or ended by a panic, is not running.
\<close>

record pipeline =
  pl_ch :: "event chan"
  pl_pending :: "event option"
  pl_queue :: Queue
  pl_pe_running :: bool
  pl_wk_running :: bool
  pl_has_writer :: bool
  pl_ws :: writer_state

abbreviation pl_metrics :: "pipeline \<Rightarrow> metrics" where
  "pl_metrics s \<equiv> ws_metrics (pl_ws s)"

definition set_metrics :: "metrics \<Rightarrow> pipeline \<Rightarrow> pipeline" where
  "set_metrics m s = s\<lparr>pl_ws := (pl_ws s)\<lparr>ws_metrics := m\<rparr>\<rparr>"

text \<open>
  \<^verbatim>\<open>processEvents\<close>: the select, with the sampler, then the push and the count.  In block mode a push may have to wait, with
  no step possible meanwhile.
\<close>

definition processEvents_select :: "Config \<Rightarrow> ctx \<Rightarrow> bool \<Rightarrow> rat \<Rightarrow> pipeline \<Rightarrow> pipeline option" where
  "processEvents_select cfg c pick_done rnd s =
     (if \<not> pl_pe_running s \<or> pl_pending s \<noteq> None then None
      else if ctx_done c \<and> (pick_done \<or> chan_buf (pl_ch s) = []) then Some (s\<lparr>pl_pe_running := False\<rparr>)
      else
        (case chan_recv (pl_ch s) of
           Received event ch' \<Rightarrow>
             (let (keep, m) = ShouldSample (Stream (Tetragon cfg)) rnd event (pl_metrics s);
                  s1 = set_metrics m (s\<lparr>pl_ch := ch'\<rparr>)
              in Some (if keep then s1\<lparr>pl_pending := Some event\<rparr> else s1))
         | _ \<Rightarrow> None))"

definition processEvents_push :: "ctx \<Rightarrow> bool \<Rightarrow> pipeline \<Rightarrow> pipeline option" where
  "processEvents_push c pick_done s =
     (if \<not> pl_pe_running s then None
      else
        (case pl_pending s of
           None \<Rightarrow> None
         | Some event \<Rightarrow>
             (case Push c pick_done event (pl_queue s, pl_metrics s) of
                (PushBlocked, _) \<Rightarrow> None
              | (PushPanic, q, m) \<Rightarrow>
                  Some ((set_metrics m s)\<lparr>pl_queue := q, pl_pending := None, pl_pe_running := False\<rparr>)
              | (_, q, m) \<Rightarrow>
                  Some ((set_metrics (EventsInTotal_update (bump (DetectEventType event)) m) s)
                    \<lparr>pl_queue := q, pl_pending := None\<rparr>))))"

text \<open>
  \<^verbatim>\<open>writeToKafka\<close>: a pop that fails because the context was cancelled ends the loop, another error is logged and
  the loop goes on.  The pop, the processing of the event and the write of its message are one step.
\<close>

definition writeToKafka_turn ::
  "(event \<Rightarrow> 'e + string) \<Rightarrow> (event \<Rightarrow> 'e + string) \<Rightarrow> Config \<Rightarrow> router \<Rightarrow> ctx \<Rightarrow> bool \<Rightarrow> i64 \<Rightarrow> string
    \<Rightarrow> pipeline \<Rightarrow> pipeline option" where
  "writeToKafka_turn protojson protobytes cfg r c pick_done now rnd s =
     (if \<not> pl_wk_running s then None
      else
        (case Pop c pick_done (pl_queue s) of
           (PopErr Canceled, q) \<Rightarrow> Some (s\<lparr>pl_queue := q, pl_wk_running := False\<rparr>)
         | (PopErr DeadlineExceeded, q) \<Rightarrow> Some (s\<lparr>pl_queue := q\<rparr>)
         | (Popped event, q) \<Rightarrow>
             (case writeToKafka_event protojson protobytes cfg r (pl_has_writer s) now rnd event
                     (ws_writer (pl_ws s), pl_metrics s) of
                (res, w, m) \<Rightarrow>
                  Some (s\<lparr>pl_queue := q, pl_wk_running := (res = WkContinues),
                          pl_ws := (pl_ws s)\<lparr>ws_writer := w, ws_metrics := m\<rparr>\<rparr>))
         | _ \<Rightarrow> None))"

text \<open>A step of the path, by the goroutine that makes it.\<close>

datatype 'r pl_event =
    StreamTurn "'r read_turn"
  | SelectTurn ctx bool rat
  | PushTurn ctx bool
  | PopTurn ctx bool i64 string
  | WriterTurn ctx writer_event
  | QueueLoop loop_case

definition pipeline_step ::
  "(event \<Rightarrow> 'e + string) \<Rightarrow> (event \<Rightarrow> 'e + string) \<Rightarrow> Config \<Rightarrow> router \<Rightarrow> 'r pl_event \<Rightarrow> pipeline \<Rightarrow> pipeline option" where
  "pipeline_step protojson protobytes cfg r ev s =
     (case ev of
        StreamTurn t \<Rightarrow>
          (if rt_taken t = 0 then
             (case ReadEvents_turn t (pl_ch s, pl_metrics s) of
                (_, ch, m) \<Rightarrow> Some (set_metrics m (s\<lparr>pl_ch := ch\<rparr>)))
           else None)
      | SelectTurn c pick rnd \<Rightarrow> processEvents_select cfg c pick rnd s
      | PushTurn c pick \<Rightarrow> processEvents_push c pick s
      | PopTurn c pick now rnd \<Rightarrow> writeToKafka_turn protojson protobytes cfg r c pick now rnd s
      | WriterTurn c we \<Rightarrow>
          (case we of
             WriteEvent _ \<Rightarrow> None
           | _ \<Rightarrow> map_option (\<lambda>ws. s\<lparr>pl_ws := ws\<rparr>) (writer_step (Kafka cfg) r c we (pl_ws s)))
      | QueueLoop lc \<Rightarrow>
          map_option (\<lambda>(q, m). set_metrics m (s\<lparr>pl_queue := q\<rparr>))
            (updateMetricsLoop_step lc (pl_queue s, pl_metrics s)))"

fun pipeline_run ::
  "(event \<Rightarrow> 'e + string) \<Rightarrow> (event \<Rightarrow> 'e + string) \<Rightarrow> Config \<Rightarrow> router \<Rightarrow> 'r pl_event list \<Rightarrow> pipeline \<Rightarrow> pipeline option" where
  "pipeline_run protojson protobytes cfg r [] s = Some s"
| "pipeline_run protojson protobytes cfg r (ev # evs) s =
     (case pipeline_step protojson protobytes cfg r ev s of
        None \<Rightarrow> None
      | Some s' \<Rightarrow> pipeline_run protojson protobytes cfg r evs s')"

text \<open>
  The state \<^verbatim>\<open>main\<close> builds: a channel and a queue of the configured size, and the writer, when the producer
  could be created.  \<open>None\<close>: a configured size is negative, and a \<^verbatim>\<open>make\<close> panics.  Without a producer there is no writer and
  there are no workers; that part of the state is then not used.
\<close>

definition pipeline_init :: "Config \<Rightarrow> bool \<Rightarrow> metrics \<Rightarrow> pipeline option" where
  "pipeline_init cfg has_writer m =
     (case NewQueue (Stream (Tetragon cfg)) m of
        None \<Rightarrow> None
      | Some (q, m') \<Rightarrow>
          map_option (\<lambda>ws. \<lparr>pl_ch = make_chan (nat (MaxQueue (Stream (Tetragon cfg)))), pl_pending = None, pl_queue = q,
              pl_pe_running = True, pl_wk_running = True, pl_has_writer = has_writer, pl_ws = ws\<rparr>)
            (if has_writer then map_option (\<lambda>w. Start (Kafka cfg) w m') (NewWriter (Kafka cfg))
             else Some ((Start (Kafka cfg) \<lparr>w_messageCh = make_chan 0, w_closeOnce = False\<rparr> m')\<lparr>ws_workers := []\<rparr>)))"

interpretation pl: machine "pipeline_step protojson protobytes cfg r" "pipeline_run protojson protobytes cfg r"
  for protojson protobytes cfg r
  by unfold_locales simp_all

end
