(* ===== verification/Pipeline_Properties.thy ===== *)
theory Pipeline_Properties
  imports Pipeline
begin

text \<open>
  What the event path guarantees in every interleaving of its goroutines: order, accounting, and the content of
  what reaches the producer.  The ghost functions read off a run the events received from the stream,
  popped from the queue and sampled out.
\<close>

section \<open>What a step does to the events under way\<close>

fun step_received :: "'r pl_event \<Rightarrow> event list" where
  "step_received (StreamTurn t) = (case (rt_ctx t, rt_recv t) of (None, Inr e) \<Rightarrow> [e] | _ \<Rightarrow> [])"
| "step_received _ = []"

fun step_popped :: "'r pl_event \<Rightarrow> pipeline \<Rightarrow> event list" where
  "step_popped (PopTurn c pick now rnd) s =
     (case fst (Pop c pick (pl_queue s)) of Popped e \<Rightarrow> if pl_wk_running s then [e] else [] | _ \<Rightarrow> [])"
| "step_popped _ s = []"

fun step_sampled_out :: "Config \<Rightarrow> 'r pl_event \<Rightarrow> pipeline \<Rightarrow> nat" where
  "step_sampled_out cfg (SelectTurn c pick rnd) s =
     (case processEvents_select cfg c pick rnd s of
        Some s' \<Rightarrow> if pl_pe_running s' \<and> pl_pending s' = None then 1 else 0
      | None \<Rightarrow> 0)"
| "step_sampled_out cfg _ s = 0"

definition in_pipe :: "pipeline \<Rightarrow> event list" where
  "in_pipe s = chan_buf (q_ch (pl_queue s)) @ (case pl_pending s of None \<Rightarrow> [] | Some e \<Rightarrow> [e]) @ chan_buf (pl_ch s)"

text \<open>The intake metrics: those the stream, the sampler, the queue and the event loop count.\<close>

definition intake :: "metrics \<Rightarrow> nat \<times> (string \<Rightarrow> nat) \<times> (string \<Rightarrow> nat) \<times> nat \<times> nat" where
  "intake m = (GrpcEventsReceivedTotal m, SampledTotal m, EventsInTotal m,
     DropsTotal m ''stream_channel_full'', DropsTotal m ''queue_full'')"

lemma intake_eq:
  "intake m' = intake m \<longleftrightarrow> GrpcEventsReceivedTotal m' = GrpcEventsReceivedTotal m \<and>
     SampledTotal m' = SampledTotal m \<and> EventsInTotal m' = EventsInTotal m \<and>
     DropsTotal m' ''stream_channel_full'' = DropsTotal m ''stream_channel_full'' \<and>
     DropsTotal m' ''queue_full'' = DropsTotal m ''queue_full''"
  by (auto simp: intake_def)

lemma intake_set_metrics [simp]:
  "pl_metrics (set_metrics m s) = m" "pl_ch (set_metrics m s) = pl_ch s" "pl_pending (set_metrics m s) = pl_pending s"
  "pl_queue (set_metrics m s) = pl_queue s" "pl_pe_running (set_metrics m s) = pl_pe_running s"
  "pl_wk_running (set_metrics m s) = pl_wk_running s" "pl_has_writer (set_metrics m s) = pl_has_writer s"
  "ws_writer (pl_ws (set_metrics m s)) = ws_writer (pl_ws s)" "in_pipe (set_metrics m s) = in_pipe s"
  by (simp_all add: set_metrics_def in_pipe_def)

lemma stream_turn_effect:
  assumes "ReadEvents_turn t (ch, m) = (r, ch', m')" and "rt_taken t = 0"
  shows "subseq (chan_buf ch') (chan_buf ch @ step_received (StreamTurn t :: 'r pl_event)) \<and> chan_closed ch' = chan_closed ch \<and>
    SampledTotal m' = SampledTotal m \<and> EventsInTotal m' = EventsInTotal m \<and>
    DropsTotal m' ''queue_full'' = DropsTotal m ''queue_full''"
  using assms
  by (auto simp: ReadEvents_turn_def take_events_def chan_send_def Let_def bump_by_apply
      split: option.splits sum.splits if_splits)

lemma stream_turn_live:
  assumes "ReadEvents_turn t (ch, m) = (r, ch', m')" and "rt_taken t = 0" and "rt_send_ctx t = None"
    and "\<not> chan_closed ch"
  shows "length (chan_buf ch @ step_received (StreamTurn t :: 'r pl_event)) + stream_drops m = length (chan_buf ch') + stream_drops m'"
  using assms
  by (auto simp: ReadEvents_turn_def take_events_def chan_send_def Let_def bump_by_apply
      split: option.splits sum.splits if_splits)

lemma ShouldSample_effect:
  assumes "ShouldSample cfg rnd e m = (keep, m')"
  shows "m' = (if keep then SampledTotal_update (bump (DetectEventType e)) m else m)"
  using assms by (auto simp: ShouldSample_def Let_def split: if_splits)

lemma Push_effect:
  assumes "Push c pick e (q, m) = (res, q', m')"
  shows "chan_buf (q_ch q') = chan_buf (q_ch q) @ (if res = PushOk then [e] else []) \<and>
    m' = (if res = PushErr ErrQueueFull then DropsTotal_update (bump ''queue_full'') m else m) \<and>
    chan_closed (q_ch q') = chan_closed (q_ch q) \<and> (c = None \<longrightarrow> \<not> chan_closed (q_ch q) \<longrightarrow>
      res = PushOk \<or> res = PushErr ErrQueueFull \<or> res = PushBlocked)"
  using assms by (auto simp: Push_def chan_send_def split: option.splits if_splits)

lemma Pop_effect:
  assumes "Pop c pick q = (res, q')"
  shows "(case res of Popped e \<Rightarrow> chan_buf (q_ch q) = e # chan_buf (q_ch q') | _ \<Rightarrow> q' = q) \<and>
    chan_closed (q_ch q') = chan_closed (q_ch q)"
  using assms by (auto simp: Pop_def chan_recv_def split: option.splits list.splits if_splits)

section \<open>The workers of the writer leave the event counters alone\<close>

text \<open>All counters of events and their losses.\<close>

definition counters :: "metrics \<Rightarrow> (nat \<times> (string \<Rightarrow> nat) \<times> (string \<Rightarrow> nat) \<times> nat \<times> nat) \<times> (string \<Rightarrow> nat) \<times> (string \<Rightarrow> nat)" where
  "counters m = (intake m, NormalizeErrorsTotal m, DropsTotal m)"

lemma writeToDLQ_counters: "counters (snd (snd (writeToDLQ r env msg reason st))) = counters (snd st)"
proof -
  obtain inp m where st: "st = (inp, m)" by fastforce
  obtain res inp' m' where w: "writeToDLQ r env msg reason (inp, m) = (res, inp', m')"
    by (metis prod_cases3)
  show ?thesis
    using dlq_cases [where r = r and env = env and msg = msg and reason = reason and inp = inp and m = m] w st
    by (cases res) (auto simp: counters_def intake_def)
qed

lemma dlq_rest_counters: "counters (snd (dlq_rest r env i msgs st)) = counters (snd st)"
  by (induction msgs arbitrary: i st) (simp_all add: writeToDLQ_counters)

lemma flush_loop_counters: "counters (snd (snd (flush_loop r env batch i msgs sent st))) = counters (snd st)"
proof (induction msgs arbitrary: i sent st)
  case (Cons msg msgs)
  then show ?case by (cases st) (simp add: Let_def dlq_rest_counters)
qed simp

lemma flushBatch_counters: "counters (snd (flushBatch r c env batch st)) = counters (snd st)"
proof (cases "batch = []")
  case False
  obtain ok inp m where l: "flush_loop r (derived c env) batch 0 batch [] st = (ok, inp, m)" by (metis prod_cases3)
  then have "counters m = counters (snd st)" using flush_loop_counters [of r "derived c env" batch 0 batch "[]" st] by simp
  then show ?thesis using False l by (cases ok) (simp_all add: flushBatch_def counters_def intake_def Let_def)
qed (simp add: flushBatch_def)

lemma flush_worker_counters [simp]: "counters (ws_metrics (flush_worker r c env batch s)) = counters (ws_metrics s)"
  using flushBatch_counters [of r c env batch "(ws_input s, ws_metrics s)"]
  by (cases "flushBatch r c env batch (ws_input s, ws_metrics s)") (simp add: flush_worker_def)

lemma depth_counters [simp]: "counters (m\<lparr>KafkaWriterQueueDepth := n\<rparr>) = counters m"
  by (simp add: counters_def intake_def)

lemma stop_worker_counters [simp]: "counters (ws_metrics (stop_worker i s)) = counters (ws_metrics s)"
  by (simp add: stop_worker_def)

lemma worker_step_counters:
  "worker_step cfg r c env i wc s = Some s' \<Longrightarrow> counters (ws_metrics s') = counters (ws_metrics s)"
  by (cases wc) (auto simp: worker_step_def Let_def split: if_splits recv_result.splits)

lemma writer_step_counters:
  assumes "writer_step cfg r c we s = Some s'" and "\<And>msg. we \<noteq> WriteEvent msg"
  shows "counters (ws_metrics s') = counters (ws_metrics s)"
  using assms worker_step_counters by (cases we) (auto simp: writer_step_def)

lemma writer_step_intake:
  assumes "writer_step cfg r c we s = Some s'" and "\<And>msg. we \<noteq> WriteEvent msg"
  shows "intake (ws_metrics s') = intake (ws_metrics s)"
  using writer_step_counters [OF assms] by (simp add: counters_def)

lemma Write_effect:
  assumes "Write msg (w, m) = (res, w', m')"
  shows "intake m' = intake m \<and> chan_buf (w_messageCh w') = chan_buf (w_messageCh w) @ (if res = WriteOk then [msg] else [])"
  using assms by (auto simp: Write_def chan_send_def intake_def split: if_splits)

text \<open>Processing an event leaves the writer alone but for one write.\<close>

lemma event_writer:
  assumes "writeToKafka_event protojson protobytes cfg r hw now rnd e (w, m) = (res, w', m')"
  obtains (none) "w' = w" | (one) msg m1 res1 m2 where "Write msg (w, m1) = (res1, w', m2)"
  using assms
  by (force simp: writeToKafka_event_def deliver_def Let_def split: sum.splits prod.splits write_result.splits if_splits)

lemma latency_simps [simp]:
  "intake (latency stage m) = intake m" "EventsOutTotal (latency stage m) = EventsOutTotal m"
  "NormalizeErrorsTotal (latency stage m) = NormalizeErrorsTotal m" "DropsTotal (latency stage m) = DropsTotal m"
  by (simp_all add: latency_def intake_def)

lemma intake_updates [simp]:
  "intake (EventsOutTotal_update f m) = intake m" "intake (NormalizeErrorsTotal_update g m) = intake m"
  "intake (NormalizeLatencyMs_update g m) = intake m"
  by (simp_all add: intake_def)

lemma writeToKafka_event_intake:
  "intake (snd (snd (writeToKafka_event protojson protobytes cfg r hw now rnd e (w, m)))) = intake m"
proof (cases "Normalize protojson now rnd e")
  case (Inr schema)
  show ?thesis
  proof (cases "fst (serialize protobytes (Schema cfg) e schema)")
    case (Inr v)
    then obtain ct where s: "serialize protobytes (Schema cfg) e schema = (Inr v, ct)"
      by (metis prod.collapse)
    show ?thesis
      using Write_effect
      by (simp add: writeToKafka_event_def deliver_def Let_def \<open>Normalize protojson now rnd e = Inr schema\<close> s
          split: prod.split write_result.split)
  next
    case (Inl err)
    then obtain ct where "serialize protobytes (Schema cfg) e schema = (Inl err, ct)" by (metis prod.collapse)
    then show ?thesis using Inr by (simp add: writeToKafka_event_def deliver_def Let_def)
  qed
qed (simp add: writeToKafka_event_def deliver_def)

section \<open>Order\<close>

text \<open>One step: what leaves the path and what is still in it comes, in order, from what was in it and what arrived.\<close>

lemma select_cases:
  assumes "processEvents_select cfg c pick rnd s = Some s'"
  obtains (return) "s' = s\<lparr>pl_pe_running := False\<rparr>" "pl_pe_running s" "ctx_done c"
    | (take) e es keep where "pl_pe_running s" "pl_pending s = None" "chan_buf (pl_ch s) = e # es"
        "s' = (set_metrics (if keep then SampledTotal_update (bump (DetectEventType e)) (pl_metrics s) else pl_metrics s)
          (s\<lparr>pl_ch := (pl_ch s)\<lparr>chan_buf := es\<rparr>\<rparr>))\<lparr>pl_pending := if keep then Some e else None\<rparr>"
proof -
  have st: "pl_pe_running s" "pl_pending s = None"
    using assms by (auto simp: processEvents_select_def split: if_splits)
  show thesis
  proof (cases "ctx_done c \<and> (pick \<or> chan_buf (pl_ch s) = [])")
    case True
    then show thesis using assms st by (intro return) (auto simp: processEvents_select_def)
  next
    case False
    then obtain e es where buf: "chan_buf (pl_ch s) = e # es"
      using assms st by (cases "chan_buf (pl_ch s)") (auto simp: processEvents_select_def chan_recv_def split: if_splits)
    obtain keep m where ss: "ShouldSample (Stream (Tetragon cfg)) rnd e (pl_metrics s) = (keep, m)" by fastforce
    have "s' = (set_metrics m (s\<lparr>pl_ch := (pl_ch s)\<lparr>chan_buf := es\<rparr>\<rparr>))\<lparr>pl_pending := if keep then Some e else None\<rparr>"
      using assms st False buf ss by (auto simp: processEvents_select_def chan_recv_def Let_def set_metrics_def)
    then show thesis using st buf ShouldSample_effect [OF ss] by (intro take [of e es keep]) simp_all
  qed
qed

lemma push_cases:
  assumes "processEvents_push c pick s = Some s'"
  obtains e res q m where "pl_pe_running s" "pl_pending s = Some e"
    "Push c pick e (pl_queue s, pl_metrics s) = (res, q, m)" "res \<noteq> PushBlocked"
    "s' = (set_metrics (if res = PushPanic then m else EventsInTotal_update (bump (DetectEventType e)) m) s)
        \<lparr>pl_queue := q, pl_pending := None, pl_pe_running := (res \<noteq> PushPanic)\<rparr>"
proof -
  have run: "pl_pe_running s" using assms by (auto simp: processEvents_push_def split: if_splits)
  then obtain e where e: "pl_pending s = Some e" using assms by (auto simp: processEvents_push_def split: option.splits)
  obtain res q m where p: "Push c pick e (pl_queue s, pl_metrics s) = (res, q, m)" by (metis prod_cases3)
  have nb: "res \<noteq> PushBlocked" using assms run e p by (auto simp: processEvents_push_def)
  have "s' = (set_metrics (if res = PushPanic then m else EventsInTotal_update (bump (DetectEventType e)) m) s)
        \<lparr>pl_queue := q, pl_pending := None, pl_pe_running := (res \<noteq> PushPanic)\<rparr>"
    using assms run e p nb by (cases s; cases res) (auto simp: processEvents_push_def set_metrics_def)
  with that run e p nb show thesis by blast
qed

lemma pop_cases:
  assumes "writeToKafka_turn protojson protobytes cfg r c pick now rnd s = Some s'"
  obtains (err) running where "pl_wk_running s" "s' = s\<lparr>pl_wk_running := running\<rparr>"
      "\<forall>e. fst (Pop c pick (pl_queue s)) \<noteq> Popped e" "c \<noteq> None"
    | (popped) e q res w m where "pl_wk_running s" "Pop c pick (pl_queue s) = (Popped e, q)"
        "writeToKafka_event protojson protobytes cfg r (pl_has_writer s) now rnd e (ws_writer (pl_ws s), pl_metrics s) = (res, w, m)"
        "s' = s\<lparr>pl_queue := q, pl_wk_running := (res = WkContinues), pl_ws := (pl_ws s)\<lparr>ws_writer := w, ws_metrics := m\<rparr>\<rparr>"
proof -
  obtain res q where p: "Pop c pick (pl_queue s) = (res, q)" by fastforce
  have run: "pl_wk_running s" using assms by (auto simp: writeToKafka_turn_def split: if_splits)
  show thesis
  proof (cases res)
    case (Popped e)
    obtain res w m where w: "writeToKafka_event protojson protobytes cfg r (pl_has_writer s) now rnd e
        (ws_writer (pl_ws s), pl_metrics s) = (res, w, m)" by (metis prod_cases3)
    then show thesis using popped [of e q res w m] assms run p Popped by (simp add: writeToKafka_turn_def)
  next
    case (PopErr ce)
    have q: "q = pl_queue s" using Pop_effect [OF p] PopErr by simp
    have c: "c \<noteq> None"
      using p PopErr by (auto simp: Pop_def split: option.splits recv_result.splits)
    have "s' = s\<lparr>pl_wk_running := (ce = DeadlineExceeded)\<rparr>"
      using assms run p PopErr q by (cases ce) (simp_all add: writeToKafka_turn_def)
    then show thesis using err run p PopErr c by simp
  qed (use assms run p in \<open>simp_all add: writeToKafka_turn_def\<close>)
qed

lemma queue_loop_effect:
  assumes "updateMetricsLoop_step lc (q, m) = Some (q', m')"
  shows "q_ch q' = q_ch q \<and> intake m' = intake m"
  using assms by (cases lc) (auto simp: updateMetricsLoop_step_def intake_def split: if_splits)

text \<open>The steps of the path, by what they do.\<close>

lemma step_cases:
  assumes "pipeline_step protojson protobytes cfg r ev s = Some s'"
  obtains
    (stream) t res ch m where "ev = StreamTurn t" "rt_taken t = 0" "ReadEvents_turn t (pl_ch s, pl_metrics s) = (res, ch, m)"
      "s' = set_metrics m (s\<lparr>pl_ch := ch\<rparr>)"
  | (return) c pick rnd where "ev = SelectTurn c pick rnd" "s' = s\<lparr>pl_pe_running := False\<rparr>" "ctx_done c"
      "step_sampled_out cfg ev s = 0"
  | (take) c pick rnd e es keep where "ev = SelectTurn c pick rnd" "pl_pe_running s" "pl_pending s = None"
      "chan_buf (pl_ch s) = e # es" "step_sampled_out cfg ev s = (if keep then 0 else 1)"
      "s' = (set_metrics (if keep then SampledTotal_update (bump (DetectEventType e)) (pl_metrics s) else pl_metrics s)
          (s\<lparr>pl_ch := (pl_ch s)\<lparr>chan_buf := es\<rparr>\<rparr>))\<lparr>pl_pending := if keep then Some e else None\<rparr>"
  | (push) c pick e res q m where "ev = PushTurn c pick" "pl_pe_running s" "pl_pending s = Some e"
      "Push c pick e (pl_queue s, pl_metrics s) = (res, q, m)" "res \<noteq> PushBlocked"
      "s' = (set_metrics (if res = PushPanic then m else EventsInTotal_update (bump (DetectEventType e)) m) s)
        \<lparr>pl_queue := q, pl_pending := None, pl_pe_running := (res \<noteq> PushPanic)\<rparr>"
  | (pop_err) c pick now rnd running where "ev = PopTurn c pick now rnd" "s' = s\<lparr>pl_wk_running := running\<rparr>" "pl_wk_running s" "c \<noteq> None"
      "step_popped ev s = []"
  | (popped) c pick now rnd e q res w m where "ev = PopTurn c pick now rnd" "pl_wk_running s" "Pop c pick (pl_queue s) = (Popped e, q)"
      "writeToKafka_event protojson protobytes cfg r (pl_has_writer s) now rnd e (ws_writer (pl_ws s), pl_metrics s) = (res, w, m)"
      "s' = s\<lparr>pl_queue := q, pl_wk_running := (res = WkContinues), pl_ws := (pl_ws s)\<lparr>ws_writer := w, ws_metrics := m\<rparr>\<rparr>"
      "step_popped ev s = [e]"
  | (writer) c we ws where "ev = WriterTurn c we" "writer_step (Kafka cfg) r c we (pl_ws s) = Some ws" "s' = s\<lparr>pl_ws := ws\<rparr>"
      "\<And>msg. we \<noteq> WriteEvent msg"
  | (queue) lc q m where "ev = QueueLoop lc" "updateMetricsLoop_step lc (pl_queue s, pl_metrics s) = Some (q, m)"
      "s' = set_metrics m (s\<lparr>pl_queue := q\<rparr>)"
proof (cases ev)
  case (StreamTurn t)
  obtain res ch m where t: "ReadEvents_turn t (pl_ch s, pl_metrics s) = (res, ch, m)" by (metis prod_cases3)
  then show thesis using assms StreamTurn by (intro stream [OF _ _ t]) (auto simp: pipeline_step_def split: if_splits)
next
  case (SelectTurn c pick rnd)
  with assms have sel: "processEvents_select cfg c pick rnd s = Some s'" by (simp add: pipeline_step_def)
  then show thesis
  proof (cases rule: select_cases)
    case return
    then show thesis using that(2) SelectTurn sel by simp
  next
    case (take e es keep)
    have "step_sampled_out cfg ev s = (if keep then 0 else 1)" using take SelectTurn sel by simp
    then show thesis using that(3) [OF SelectTurn take(1-3)] take(4) by blast
  qed
next
  case (PushTurn c pick)
  with assms have "processEvents_push c pick s = Some s'" by (simp add: pipeline_step_def)
  then show thesis by (cases rule: push_cases) (use push PushTurn in blast)
next
  case (PopTurn c pick now rnd)
  with assms have "writeToKafka_turn protojson protobytes cfg r c pick now rnd s = Some s'" by (simp add: pipeline_step_def)
  then show thesis
  proof (cases rule: pop_cases)
    case (err running)
    then show thesis using pop_err PopTurn by (simp split: pop_result.splits)
  next
    case (popped e q res w m)
    then show thesis using that(6) PopTurn by simp
  qed
next
  case (WriterTurn c we)
  then show thesis using assms writer by (auto simp: pipeline_step_def split: writer_event.splits)
next
  case (QueueLoop lc)
  then show thesis using assms queue by (auto simp: pipeline_step_def)
qed

lemma step_order:
  assumes "pipeline_step protojson protobytes cfg r ev s = Some s'"
  shows "subseq (step_popped ev s @ in_pipe s') (in_pipe s @ step_received ev)"
  using assms
proof (cases rule: step_cases)
  case (stream t res ch m)
  then show ?thesis using stream_turn_effect [OF stream(3,2)]
    by (auto simp: in_pipe_def simp del: step_received.simps intro: list_emb_append_mono)
next
  case (push c pick e res q m)
  then show ?thesis using Push_effect [OF push(4)] by (auto simp: in_pipe_def intro: list_emb_append_mono)
next
  case (popped c pick now rnd e q res w m)
  then show ?thesis using Pop_effect [OF popped(3)] by (simp add: in_pipe_def)
next
  case (queue lc q m)
  then show ?thesis using queue_loop_effect [OF queue(2)] by (simp add: in_pipe_def)
qed (auto simp: in_pipe_def simp del: step_popped.simps(1) intro: list_emb_append_mono)

fun run_popped ::
  "(event \<Rightarrow> 'e + string) \<Rightarrow> (event \<Rightarrow> 'e + string) \<Rightarrow> Config \<Rightarrow> router \<Rightarrow> 'r pl_event list \<Rightarrow> pipeline \<Rightarrow> event list" where
  "run_popped protojson protobytes cfg r [] s = []"
| "run_popped protojson protobytes cfg r (ev # evs) s =
     (case pipeline_step protojson protobytes cfg r ev s of
        None \<Rightarrow> []
      | Some s' \<Rightarrow> step_popped ev s @ run_popped protojson protobytes cfg r evs s')"

definition run_received :: "'r pl_event list \<Rightarrow> event list" where
  "run_received evs = concat (map step_received evs)"

lemma run_order:
  assumes "pipeline_run protojson protobytes cfg r evs s = Some s'"
  shows "subseq (run_popped protojson protobytes cfg r evs s @ in_pipe s') (in_pipe s @ run_received evs)"
  using assms
proof (induction rule: pl.run_induct)
  case Nil
  then show ?case by (simp add: run_received_def)
next
  case (Cons ev evs s s1)
  have "subseq (step_popped ev s @ run_popped protojson protobytes cfg r evs s1 @ in_pipe s')
      (step_popped ev s @ in_pipe s1 @ run_received evs)"
    using list_emb_append_mono [OF subseq_order.order_refl Cons.IH, of "step_popped ev s"] by simp
  also have "subseq (step_popped ev s @ in_pipe s1 @ run_received evs) (in_pipe s @ step_received ev @ run_received evs)"
    using list_emb_append_mono [OF step_order [OF Cons(1)] subseq_order.order_refl [of "run_received evs"]] by simp
  finally show ?case using Cons(1) by (simp add: run_received_def)
qed

section \<open>Accounting\<close>

definition pipe_open :: "pipeline \<Rightarrow> bool" where
  "pipe_open s \<longleftrightarrow> \<not> chan_closed (pl_ch s) \<and> \<not> chan_closed (q_ch (pl_queue s))"

text \<open>A step at which no context is done while an event is in a goroutine's hands.\<close>

fun live_step :: "'r pl_event \<Rightarrow> bool" where
  "live_step (StreamTurn t) = (rt_send_ctx t = None)"
| "live_step (PushTurn c pick) = (c = None)"
| "live_step _ = True"

abbreviation queue_drops :: "metrics \<Rightarrow> nat" where
  "queue_drops m \<equiv> DropsTotal m ''queue_full''"

definition pending_of :: "pipeline \<Rightarrow> string \<Rightarrow> nat" where
  "pending_of s t = (case pl_pending s of Some e \<Rightarrow> if DetectEventType e = t then 1 else 0 | None \<Rightarrow> 0)"

definition balanced :: "nat \<Rightarrow> event list \<Rightarrow> event list \<Rightarrow> pipeline \<Rightarrow> pipeline \<Rightarrow> bool" where
  "balanced sampled_out received popped s s' \<longleftrightarrow>
     pipe_open s' \<and>
     length (in_pipe s) + length received + stream_drops (pl_metrics s) + queue_drops (pl_metrics s)
       = length (in_pipe s') + length popped + stream_drops (pl_metrics s') + queue_drops (pl_metrics s') + sampled_out \<and>
     (\<forall>t. SampledTotal (pl_metrics s') t + EventsInTotal (pl_metrics s) t + pending_of s t
       = SampledTotal (pl_metrics s) t + EventsInTotal (pl_metrics s') t + pending_of s' t)"

lemma balanced_trans:
  assumes "balanced k1 r1 p1 s s1" and "balanced k2 r2 p2 s1 s2"
  shows "balanced (k1 + k2) (r1 @ r2) (p1 @ p2) s s2"
proof -
  have "SampledTotal (pl_metrics s2) t + EventsInTotal (pl_metrics s) t + pending_of s t
       = SampledTotal (pl_metrics s) t + EventsInTotal (pl_metrics s2) t + pending_of s2 t" for t
  proof -
    have "SampledTotal (pl_metrics s1) t + EventsInTotal (pl_metrics s) t + pending_of s t
        = SampledTotal (pl_metrics s) t + EventsInTotal (pl_metrics s1) t + pending_of s1 t"
      "SampledTotal (pl_metrics s2) t + EventsInTotal (pl_metrics s1) t + pending_of s1 t
        = SampledTotal (pl_metrics s1) t + EventsInTotal (pl_metrics s2) t + pending_of s2 t"
      using assms unfolding balanced_def by blast+
    then show ?thesis by linarith
  qed
  then show ?thesis using assms by (simp add: balanced_def)
qed

lemma same_intake_balanced:
  assumes "intake (pl_metrics s') = intake (pl_metrics s)" and "pl_ch s' = pl_ch s" and "pl_pending s' = pl_pending s"
    and "q_ch (pl_queue s') = q_ch (pl_queue s)" and "pipe_open s"
  shows "balanced 0 [] [] s s'"
  using assms by (simp add: balanced_def pipe_open_def in_pipe_def pending_of_def intake_eq)

lemma step_balanced:
  assumes "pipeline_step protojson protobytes cfg r ev s = Some s'" and "live_step ev" and "pipe_open s"
  shows "balanced (step_sampled_out cfg ev s) (step_received ev) (step_popped ev s) s s'"
  using assms(1)
proof (cases rule: step_cases)
  case (stream t res ch m)
  then show ?thesis
    using stream_turn_effect [OF stream(3,2)] stream_turn_live [OF stream(3,2)] assms(2,3)
    by (simp add: balanced_def pipe_open_def in_pipe_def pending_of_def del: step_received.simps)
next
  case (return c pick rnd)
  then show ?thesis using assms(3) by (simp add: balanced_def pipe_open_def in_pipe_def pending_of_def)
next
  case (take c pick rnd e es keep)
  then show ?thesis using assms(3)
    by (cases keep) (simp_all add: balanced_def pipe_open_def in_pipe_def pending_of_def bump_by_apply)
next
  case (push c pick e res q m)
  have "res = PushOk \<or> res = PushErr ErrQueueFull"
    using Push_effect [OF push(4)] push(1,5) assms(2,3) by (auto simp: pipe_open_def)
  then show ?thesis using Push_effect [OF push(4)] push assms(3)
    by (auto simp: balanced_def pipe_open_def in_pipe_def pending_of_def bump_by_apply)
next
  case (pop_err c pick now rnd running)
  then show ?thesis using assms(3)
    by (simp add: balanced_def pipe_open_def in_pipe_def pending_of_def del: step_popped.simps(1))
next
  case (popped c pick now rnd e q res w m)
  have "intake m = intake (pl_metrics s)"
    using writeToKafka_event_intake [of protojson protobytes cfg r "pl_has_writer s" now rnd e "ws_writer (pl_ws s)" "pl_metrics s"]
      popped(4) by simp
  then show ?thesis using Pop_effect [OF popped(3)] popped assms(3)
    by (simp add: balanced_def pipe_open_def in_pipe_def pending_of_def intake_eq)
next
  case (writer c we ws)
  then have "balanced 0 [] [] s s'"
    using writer_step_intake [OF writer(2,4)] assms(3) by (intro same_intake_balanced) simp_all
  then show ?thesis using writer by simp
next
  case (queue lc q m)
  then have "balanced 0 [] [] s s'"
    using queue_loop_effect [OF queue(2)] assms(3) by (intro same_intake_balanced) simp_all
  then show ?thesis using queue by simp
qed

fun run_sampled_out ::
  "(event \<Rightarrow> 'e + string) \<Rightarrow> (event \<Rightarrow> 'e + string) \<Rightarrow> Config \<Rightarrow> router \<Rightarrow> 'r pl_event list \<Rightarrow> pipeline \<Rightarrow> nat" where
  "run_sampled_out protojson protobytes cfg r [] s = 0"
| "run_sampled_out protojson protobytes cfg r (ev # evs) s =
     (case pipeline_step protojson protobytes cfg r ev s of
        None \<Rightarrow> 0
      | Some s' \<Rightarrow> step_sampled_out cfg ev s + run_sampled_out protojson protobytes cfg r evs s')"

lemma run_balanced:
  assumes "pipeline_run protojson protobytes cfg r evs s = Some s'" and "\<forall>ev \<in> set evs. live_step ev" and "pipe_open s"
  shows "balanced (run_sampled_out protojson protobytes cfg r evs s) (run_received evs)
    (run_popped protojson protobytes cfg r evs s) s s'"
  using assms
proof (induction rule: pl.run_induct)
  case Nil
  then show ?case by (simp add: balanced_def run_received_def)
next
  case (Cons ev evs s s1)
  have b: "balanced (step_sampled_out cfg ev s) (step_received ev) (step_popped ev s) s s1"
    using step_balanced [OF Cons(1)] Cons.prems by simp
  then have "pipe_open s1" by (simp add: balanced_def)
  then show ?case
    using balanced_trans [OF b Cons.IH] Cons.prems(1) Cons(1) by (simp add: run_received_def)
qed

lemma pipeline_init_state:
  assumes "pipeline_init cfg hw m = Some s"
  shows "pipe_open s \<and> in_pipe s = [] \<and> pl_pending s = None \<and> intake (pl_metrics s) = intake m \<and>
    ws_input (pl_ws s) = [] \<and> in_flight (pl_ws s) = [] \<and> pl_has_writer s = hw"
  using assms
  by (auto simp: pipeline_init_def NewQueue_def pipe_open_def in_pipe_def make_chan_def Start_def
      in_flight_def intake_def split: option.splits if_splits dest!: NewWriter_SomeD)

end
