(* ===== verification/Topic_Admin.thy ===== *)
theory Topic_Admin
  imports Config Metrics
begin

text \<open>
  \<^verbatim>\<open>internal/kafka/topic_admin.go\<close>: creating the compacted topics at start-up.  The cluster
  administration client (sarama) is not part of the repository: its calls are the fields of a
  \<open>ClusterAdmin\<close> over an unknown cluster state \<open>'c\<close>, and what its documentation promises is
  \<open>admin_contract\<close>.
\<close>

record TopicDetail =
  NumPartitions :: u32                     \<comment> \<open>int32\<close>
  td_ReplicationFactor :: "16 word"        \<comment> \<open>int16\<close>
  ConfigEntries :: "(string \<times> string) list"

record ('c, 'e) ClusterAdmin =
  ListTopics :: "'c \<Rightarrow> ('e + (string \<rightharpoonup> TopicDetail)) \<times> 'c"
  CreateTopic :: "string \<Rightarrow> TopicDetail \<Rightarrow> bool \<Rightarrow> 'c \<Rightarrow> 'e option \<times> 'c"
  Admin_Close :: "'c \<Rightarrow> 'e option \<times> 'c"

record ('c, 'e) TopicAdmin =
  ta_admin :: "('c, 'e) ClusterAdmin"
  ta_config :: TopicAdminConfig

text \<open>\<^verbatim>\<open>NewTopicAdmin\<close>: \<open>new_admin\<close> is the library's constructor, called with the library's default configuration.\<close>

definition NewTopicAdmin ::
  "(string list \<Rightarrow> 'e + ('c, 'e) ClusterAdmin) \<Rightarrow> string list \<Rightarrow> TopicAdminConfig \<Rightarrow> 'e + ('c, 'e) TopicAdmin" where
  "NewTopicAdmin new_admin brokers cfg =
     (case new_admin brokers of
        Inl err \<Rightarrow> Inl err
      | Inr admin \<Rightarrow> Inr \<lparr>ta_admin = admin, ta_config = cfg\<rparr>)"

section \<open>Creating one topic\<close>

text \<open>
  The details of a new topic.  The number of partitions is converted to int32, which keeps the low 32
  bits; the retention is printed as a decimal number.
\<close>

definition topic_detail :: "TopicAdminConfig \<Rightarrow> TopicDetail" where
  "topic_detail cfg =
     (let replicationFactor = (case ReplicationFactor cfg of Some rf \<Rightarrow> rf | None \<Rightarrow> - 1)
      in \<lparr>NumPartitions = word_of_int (Partitions cfg), td_ReplicationFactor = replicationFactor,
          ConfigEntries =
            [(''cleanup.policy'', CleanupPolicy cfg),
             (''min.cleanable.dirty.ratio'', MinCleanableDirtyRatio cfg),
             (''segment.ms'', ''3600000''),
             (''retention.ms'', fmt_int (RetentionMs cfg))]\<rparr>)"

text \<open>The duration is observed on every path, by the deferred call.\<close>

definition CreateCompactedTopic ::
  "('c, 'e) TopicAdmin \<Rightarrow> string \<Rightarrow> 'c \<times> metrics \<Rightarrow> 'e option \<times> 'c \<times> metrics" where
  "CreateCompactedTopic ta topic = (\<lambda>(c, m).
     let observe = (\<lambda>m. m\<lparr>KafkaTopicCreateDurationSeconds := Suc (KafkaTopicCreateDurationSeconds m)\<rparr>)
     in case ListTopics (ta_admin ta) c of
          (Inl err, c1) \<Rightarrow> (Some err, c1, observe m)
        | (Inr topics, c1) \<Rightarrow>
            if topics topic \<noteq> None
            then (None, c1, observe (KafkaTopicCreateTotal_update (bump ''skipped'') m))
            else
              (case CreateTopic (ta_admin ta) topic (topic_detail (ta_config ta)) False c1 of
                 (Some err, c2) \<Rightarrow> (Some err, c2, observe (KafkaTopicCreateTotal_update (bump ''failed'') m))
               | (None, c2) \<Rightarrow> (None, c2, observe (KafkaTopicCreateTotal_update (bump ''success'') m))))"

section \<open>Creating all topics\<close>

text \<open>The loop of \<^verbatim>\<open>EnsureTopics\<close> with its \<^verbatim>\<open>successCount\<close>; an error does not end it.\<close>

fun ensure_loop ::
  "('c, 'e) TopicAdmin \<Rightarrow> string list \<Rightarrow> nat \<times> 'c \<times> metrics \<Rightarrow> nat \<times> 'c \<times> metrics" where
  "ensure_loop ta [] st = st"
| "ensure_loop ta (topic # topics) (successCount, c, m) =
     (case CreateCompactedTopic ta topic (c, m) of
        (Some err, c', m') \<Rightarrow> ensure_loop ta topics (successCount, c', m')
      | (None, c', m') \<Rightarrow> ensure_loop ta topics (Suc successCount, c', m'))"

definition EnsureTopics ::
  "('c, 'e) TopicAdmin \<Rightarrow> string list \<Rightarrow> 'c \<times> metrics \<Rightarrow> 'e option \<times> 'c \<times> metrics" where
  "EnsureTopics ta topics = (\<lambda>(c, m).
     if \<not> AutoCreate (ta_config ta) then (None, c, m)
     else (None, snd (ensure_loop ta topics (0, c, m))))"

definition TopicAdmin_Close :: "('c, 'e) TopicAdmin \<Rightarrow> 'c \<Rightarrow> 'e option \<times> 'c" where
  "TopicAdmin_Close ta c = Admin_Close (ta_admin ta) c"

section \<open>The contract of the administration client\<close>

text \<open>
  What sarama documents of the two calls.  \<open>view\<close> is the set of topics that exist in the cluster, with the details a new one was
  asked for; nobody else changes it in the meantime.  \<^verbatim>\<open>ListTopics\<close> reports existing topics, but not necessarily all of them: a topic just created may be missing from the list
  for some seconds, and of the details nothing is promised.  \<^verbatim>\<open>CreateTopic\<close> succeeds only for a topic that
  does not exist, which it adds; when it fails, the topic may have been created all the same (the request may time out).  Either call may fail
  at any time.
\<close>

definition admin_contract :: "('c, 'e) ClusterAdmin \<Rightarrow> ('c \<Rightarrow> string \<rightharpoonup> TopicDetail) \<Rightarrow> bool" where
  "admin_contract admin view \<longleftrightarrow>
     (\<forall>c res c'. ListTopics admin c = (res, c') \<longrightarrow>
        view c' = view c \<and> (\<forall>ts. res = Inr ts \<longrightarrow> dom ts \<subseteq> dom (view c))) \<and>
     (\<forall>c topic d res c'. CreateTopic admin topic d False c = (res, c') \<longrightarrow>
        (res = None \<longrightarrow> view c topic = None \<and> view c' = (view c)(topic \<mapsto> d)) \<and>
        (view c' = view c \<or> view c topic = None \<and> view c' = (view c)(topic \<mapsto> d)))"

lemma contract_list:
  assumes "admin_contract admin view" and "ListTopics admin c = (res, c')"
  shows "view c' = view c \<and> (\<forall>ts. res = Inr ts \<longrightarrow> dom ts \<subseteq> dom (view c))"
  using assms by (simp add: admin_contract_def)

lemma contract_create:
  assumes "admin_contract admin view" and "CreateTopic admin topic d False c = (res, c')"
  shows "(res = None \<longrightarrow> view c' topic \<noteq> None) \<and>
    (view c' = view c \<or> view c topic = None \<and> view c' = (view c)(topic \<mapsto> d))"
  using assms unfolding admin_contract_def by (metis fun_upd_same option.distinct(1))

text \<open>A client whose lists can always be had, and one that does not refuse a missing topic.\<close>

definition lists_topics :: "('c, 'e) ClusterAdmin \<Rightarrow> bool" where
  "lists_topics admin \<longleftrightarrow> (\<forall>c. \<exists>ts. fst (ListTopics admin c) = Inr ts)"

definition accepts_topic :: "('c, 'e) ClusterAdmin \<Rightarrow> ('c \<Rightarrow> string \<rightharpoonup> TopicDetail) \<Rightarrow> TopicDetail \<Rightarrow> string \<Rightarrow> bool" where
  "accepts_topic admin view d topic \<longleftrightarrow> (\<forall>c. view c topic = None \<longrightarrow> fst (CreateTopic admin topic d False c) = None)"

definition ensured :: "metrics \<Rightarrow> nat" where
  "ensured m = KafkaTopicCreateTotal m ''success'' + KafkaTopicCreateTotal m ''skipped''"

definition counted :: "metrics \<Rightarrow> nat" where
  "counted m = ensured m + KafkaTopicCreateTotal m ''failed''"

text \<open>What handling one topic does, and handling several.\<close>

definition handled ::
  "('c, 'e) TopicAdmin \<Rightarrow> ('c \<Rightarrow> string \<rightharpoonup> TopicDetail) \<Rightarrow> string list \<Rightarrow> 'c \<times> metrics \<Rightarrow> 'c \<times> metrics \<Rightarrow> bool" where
  "handled ta view topics = (\<lambda>(c, m) (c', m').
     view c \<subseteq>\<^sub>m view c' \<and>
     (\<forall>t \<in> dom (view c') - dom (view c). t \<in> set topics \<and> view c' t = Some (topic_detail (ta_config ta))) \<and>
     KafkaTopicCreateDurationSeconds m' = KafkaTopicCreateDurationSeconds m + length topics \<and>
     ensured m \<le> ensured m' \<and> ensured m' \<le> ensured m + length topics \<and>
     (ensured m' = ensured m + length topics \<longrightarrow> set topics \<subseteq> dom (view c')) \<and>
     counted m \<le> counted m' \<and> counted m' \<le> counted m + length topics \<and>
     (lists_topics (ta_admin ta) \<longrightarrow> counted m' = counted m + length topics \<and>
       (\<forall>t \<in> set topics. accepts_topic (ta_admin ta) view (topic_detail (ta_config ta)) t \<longrightarrow> t \<in> dom (view c'))))"

lemma CreateCompactedTopic_handled:
  assumes "admin_contract (ta_admin ta) view" and "CreateCompactedTopic ta topic (c, m) = (res, c', m')"
  shows "handled ta view [topic] (c, m) (c', m') \<and> ensured m' = ensured m + (if res = None then 1 else 0)"
proof -
  obtain lres c1 where l: "ListTopics (ta_admin ta) c = (lres, c1)" by fastforce
  note v1 = contract_list [OF assms(1) l]
  show ?thesis
  proof (cases lres)
    case (Inl err)
    then have "\<not> lists_topics (ta_admin ta)" unfolding lists_topics_def using l by (metis fst_conv sum.distinct(1))
    with Inl show ?thesis using assms(2) l v1
      by (auto simp: CreateCompactedTopic_def Let_def handled_def ensured_def counted_def)
  next
    case (Inr ts)
    show ?thesis
    proof (cases "ts topic")
      case (Some d)
      then have "topic \<in> dom (view c)" using v1 Inr by blast
      then show ?thesis using assms(2) l v1 Inr Some
        by (auto simp: CreateCompactedTopic_def Let_def handled_def ensured_def counted_def)
    next
      case None
      obtain cres c2 where cr: "CreateTopic (ta_admin ta) topic (topic_detail (ta_config ta)) False c1 = (cres, c2)"
        by fastforce
      note v2 = contract_create [OF assms(1) cr]
      have grow: "view c \<subseteq>\<^sub>m view c2 \<and>
          (\<forall>t \<in> dom (view c2) - dom (view c). t = topic \<and> view c2 t = Some (topic_detail (ta_config ta)))"
      proof (cases "view c2 = view c1")
        case True
        then show ?thesis using v1 by simp
      next
        case False
        then have "view c topic = None" "view c2 = (view c)(topic \<mapsto> topic_detail (ta_config ta))" using v1 v2 by auto
        then show ?thesis by (auto simp: map_le_def)
      qed
      have there: "topic \<in> dom (view c2)" if "accepts_topic (ta_admin ta) view (topic_detail (ta_config ta)) topic"
      proof (cases "view c1 topic")
        case None
        then have "cres = None" using that cr by (metis accepts_topic_def fst_conv)
        then show ?thesis using v2 by blast
      next
        case (Some d)
        then show ?thesis using v2 by auto
      qed
      have res: "res = cres" "c' = c2"
        using assms(2) l Inr None cr by (auto simp: CreateCompactedTopic_def Let_def split: option.splits)
      have m: "KafkaTopicCreateDurationSeconds m' = Suc (KafkaTopicCreateDurationSeconds m)"
        "ensured m' = ensured m + (if cres = None then 1 else 0)" "counted m' = Suc (counted m)"
        using assms(2) l Inr None cr
        by (auto simp: CreateCompactedTopic_def Let_def ensured_def counted_def split: option.splits)
      have "cres = None \<Longrightarrow> topic \<in> dom (view c2)" using v2 by blast
      then show ?thesis using grow there res m by (auto simp: handled_def)
    qed
  qed
qed

lemma handled_trans:
  assumes "handled ta view xs s s1" and "handled ta view ys s1 s2"
  shows "handled ta view (xs @ ys) s s2"
proof -
  obtain c m where s: "s = (c, m)" by fastforce
  obtain c1 m1 where s1: "s1 = (c1, m1)" by fastforce
  obtain c2 m2 where s2: "s2 = (c2, m2)" by fastforce
  have le1: "view c \<subseteq>\<^sub>m view c1" using assms(1) by (simp add: s s1 handled_def)
  have le: "view c1 \<subseteq>\<^sub>m view c2" using assms(2) by (simp add: s1 s2 handled_def)
  have dom: "dom (view c) \<subseteq> dom (view c1)" "dom (view c1) \<subseteq> dom (view c2)"
    using le1 le map_le_implies_dom_le by blast+
  have new: "t \<in> set (xs @ ys) \<and> view c2 t = Some (topic_detail (ta_config ta))" if "t \<in> dom (view c2) - dom (view c)" for t
  proof (cases "t \<in> dom (view c1)")
    case True
    then have "t \<in> set xs \<and> view c1 t = Some (topic_detail (ta_config ta))" using assms(1) that by (simp add: s s1 handled_def)
    then show ?thesis using le True by (simp add: map_le_def)
  next
    case False
    then show ?thesis using assms(2) that by (simp add: s1 s2 handled_def)
  qed
  have all: "set (xs @ ys) \<subseteq> dom (view c2)" if "ensured m2 = ensured m + length (xs @ ys)"
  proof -
    have "ensured m1 = ensured m + length xs" "ensured m2 = ensured m1 + length ys"
      using assms that by (auto simp: s s1 s2 handled_def)
    then have "set xs \<subseteq> dom (view c1)" "set ys \<subseteq> dom (view c2)" using assms by (auto simp: s s1 s2 handled_def)
    then show ?thesis using dom by auto
  qed
  have "view c \<subseteq>\<^sub>m view c2" using le1 le by (rule map_le_trans)
  moreover have "lists_topics (ta_admin ta) \<longrightarrow> counted m2 = counted m + length (xs @ ys) \<and>
      (\<forall>t \<in> set (xs @ ys). accepts_topic (ta_admin ta) view (topic_detail (ta_config ta)) t \<longrightarrow> t \<in> dom (view c2))"
  proof
    assume l: "lists_topics (ta_admin ta)"
    have "\<forall>t \<in> set xs. accepts_topic (ta_admin ta) view (topic_detail (ta_config ta)) t \<longrightarrow> t \<in> dom (view c1)"
      and "\<forall>t \<in> set ys. accepts_topic (ta_admin ta) view (topic_detail (ta_config ta)) t \<longrightarrow> t \<in> dom (view c2)"
      and "counted m1 = counted m + length xs" and "counted m2 = counted m1 + length ys"
      using assms l unfolding s s1 s2 handled_def prod.case by blast+
    then show "counted m2 = counted m + length (xs @ ys) \<and>
      (\<forall>t \<in> set (xs @ ys). accepts_topic (ta_admin ta) view (topic_detail (ta_config ta)) t \<longrightarrow> t \<in> dom (view c2))"
      using dom(2) unfolding length_append set_append by (simp add: ball_Un) blast
  qed
  moreover have "KafkaTopicCreateDurationSeconds m2 = KafkaTopicCreateDurationSeconds m + length (xs @ ys) \<and>
      ensured m \<le> ensured m2 \<and> ensured m2 \<le> ensured m + length (xs @ ys) \<and>
      counted m \<le> counted m2 \<and> counted m2 \<le> counted m + length (xs @ ys)"
    using assms by (simp add: s s1 s2 handled_def)
  ultimately show ?thesis using new all unfolding s s2 handled_def prod.case by blast
qed

lemma ensure_loop_handled:
  assumes "admin_contract (ta_admin ta) view" and "ensure_loop ta topics (n, c, m) = (n', c', m')"
  shows "handled ta view topics (c, m) (c', m') \<and> n' + ensured m = n + ensured m'"
  using assms(2)
proof (induction topics arbitrary: n c m)
  case (Cons topic topics)
  obtain res c1 m1 where s: "CreateCompactedTopic ta topic (c, m) = (res, c1, m1)" by (metis prod_cases3)
  note g = CreateCompactedTopic_handled [OF assms(1) s]
  have "ensure_loop ta topics (n + (if res = None then 1 else 0), c1, m1) = (n', c', m')"
    using Cons.prems s by (auto split: option.splits)
  note ih = Cons.IH [OF this]
  have "handled ta view ([topic] @ topics) (c, m) (c', m')" using handled_trans g ih by blast
  then show ?case using ih g by (auto split: if_splits)
qed (simp add: handled_def)

text \<open>
  C23: Topics are ensured.  With automatic creation on, \<^verbatim>\<open>EnsureTopics\<close> returns no error whatever the cluster
  does.  Existing topics keep their details, and every topic that appears is one of those asked for and has the
  configured details.  At most one outcome per topic asked for is counted; where topics can be listed, it is exactly one per topic, and each
  topic that the cluster does not refuse while it is missing exists at the end.  And when every topic was counted as created or skipped,
  all of them exist.
\<close>

theorem topics_ensured:
  assumes "admin_contract (ta_admin ta) view" and "AutoCreate (ta_config ta)"
    and "EnsureTopics ta topics (c, m) = (res, c', m')"
  shows "res = None \<and> view c \<subseteq>\<^sub>m view c' \<and>
    (\<forall>t \<in> dom (view c') - dom (view c). t \<in> set topics \<and> view c' t = Some (topic_detail (ta_config ta))) \<and>
    counted m' \<le> counted m + length topics \<and>
    (lists_topics (ta_admin ta) \<longrightarrow> counted m' = counted m + length topics \<and>
      (\<forall>t \<in> set topics. accepts_topic (ta_admin ta) view (topic_detail (ta_config ta)) t \<longrightarrow> t \<in> dom (view c'))) \<and>
    (ensured m' = ensured m + length topics \<longrightarrow> set topics \<subseteq> dom (view c'))"
proof -
  obtain n' where l: "ensure_loop ta topics (0, c, m) = (n', c', m')" and "res = None"
    using assms(2,3) by (cases "ensure_loop ta topics (0, c, m)") (auto simp: EnsureTopics_def)
  then show ?thesis using ensure_loop_handled [OF assms(1) l] by (simp add: handled_def)
qed

text \<open>
  A cluster held in two maps, the topics that exist and those that are listed already; a new topic is listed from the next listing
  on, and creating one fails when it exists or is in a set of refused names.
\<close>

definition map_admin :: "string set \<Rightarrow> ((string \<rightharpoonup> TopicDetail) \<times> (string \<rightharpoonup> TopicDetail), unit) ClusterAdmin" where
  "map_admin refused = \<lparr>ListTopics = \<lambda>(c, listed). (Inr (listed |` dom c), (c, c)),
     CreateTopic = \<lambda>topic d validate_only (c, listed).
       if topic \<in> refused \<or> c topic \<noteq> None then (Some (), (c, listed)) else (None, (c(topic \<mapsto> d), listed)),
     Admin_Close = \<lambda>c. (None, c)\<rparr>"

lemma map_admin_contract: "admin_contract (map_admin refused) fst"
  by (auto simp: admin_contract_def map_admin_def split: if_splits)

lemma map_admin_lists: "lists_topics (map_admin refused)"
  by (simp add: lists_topics_def map_admin_def split: prod.split)

lemma map_admin_accepts: "topic \<notin> refused \<Longrightarrow> accepts_topic (map_admin refused) fst d topic"
  by (simp add: accepts_topic_def map_admin_def split: prod.split)

definition example_admin :: "((string \<rightharpoonup> TopicDetail) \<times> (string \<rightharpoonup> TopicDetail), unit) TopicAdmin" where
  "example_admin = \<lparr>ta_admin = map_admin {''bad''}, ta_config = TopicAdmin (Kafka DefaultConfig)\<rparr>"

theorem topics_ensured_witness:
  "\<exists>c' m'. EnsureTopics example_admin [''a'', ''bad'', ''a''] ((Map.empty, Map.empty), metrics_init) = (None, c', m') \<and>
     ''a'' \<in> dom (fst c') \<and> dom (fst c') \<subseteq> {''a'', ''bad''} \<and> counted m' = 3"
proof -
  obtain res c' m' where s: "EnsureTopics example_admin [''a'', ''bad'', ''a''] ((Map.empty, Map.empty), metrics_init) = (res, c', m')"
    by (metis prod_cases3)
  have "admin_contract (ta_admin example_admin) fst" "AutoCreate (ta_config example_admin)"
    "lists_topics (ta_admin example_admin)" "accepts_topic (ta_admin example_admin) fst (topic_detail (ta_config example_admin)) ''a''"
    by (simp_all add: example_admin_def map_admin_contract map_admin_lists map_admin_accepts DefaultConfig_def)
  note topics_ensured [OF this(1,2) s] this
  then have t: "res = None" "''a'' \<in> dom (fst c')" "dom (fst c') \<subseteq> {''a'', ''bad''}" "counted m' = counted metrics_init + 3" by auto
  then show ?thesis using s by (simp add: counted_def ensured_def metrics_init_def)
qed

end
