(* ===== verification/Delivery.thy ===== *)
theory Delivery
  imports Pipeline_Properties Topic_Admin
begin

text \<open>
  The end-to-end properties of the event path: what happens to each event, what the records handed to the
  producer are, and what the shutdown of \<^verbatim>\<open>main\<close> waits for.
\<close>

section \<open>One outcome for each event\<close>

text \<open>
  Topic, key, value and headers of an event's record, \<open>None\<close> when it cannot be serialised.
\<close>

definition event_body ::
  "(event \<Rightarrow> 'e + string) \<Rightarrow> (event \<Rightarrow> 'e + string) \<Rightarrow> Config \<Rightarrow> router \<Rightarrow> event
    \<Rightarrow> (string \<times> string \<times> string \<times> (string \<times> string) list) option" where
  "event_body protojson protobytes cfg r e =
     (case protojson e of
        Inl err \<Rightarrow> None
      | Inr raw \<Rightarrow>
          (let key = GenerateDedupKey e (PartitionKey (Routing cfg)); t = DetectEventType e
           in if Schema_Format (Schema cfg) = ''protobuf'' then
                (case protobytes e of
                   Inl err \<Rightarrow> None
                 | Inr v \<Rightarrow> Some (Route r e, key, v, message_headers t ''application/protobuf''))
              else Some (Route r e, key, raw, message_headers t ''application/json'')))"

definition write_status :: "bool \<Rightarrow> Writer \<Rightarrow> string" where
  "write_status has_writer w =
     (if \<not> has_writer then ''writer_not_initialized''
      else if length (chan_buf (w_messageCh w)) < chan_cap (w_messageCh w) then ''success'' else ''failed'')"

text \<open>The serialised form of an event is never the empty text: it is at least the two braces of a JSON object.\<close>

definition nonempty_json :: "(event \<Rightarrow> 'e + string) \<Rightarrow> bool" where
  "nonempty_json protojson \<longleftrightarrow> (\<forall>e. protojson e \<noteq> Inr '''')"

lemma serialize_body:
  assumes "nonempty_json protojson" and "Normalize protojson now rnd e = Inr schema"
  shows "case serialize protobytes (Schema cfg) e schema of
      (Inl err, ct) \<Rightarrow> event_body protojson protobytes cfg r e = None
    | (Inr v, ct) \<Rightarrow> event_body protojson protobytes cfg r e =
        Some (Route r e, GenerateDedupKey e (PartitionKey (Routing cfg)), v, message_headers (DetectEventType e) ct)"
proof -
  obtain raw where raw: "protojson e = Inr raw" "Raw schema = raw"
    using assms(2) by (auto simp: Normalize_eq split: sum.splits)
  then have "raw \<noteq> ''''" using assms(1) unfolding nonempty_json_def by metis
  then show ?thesis using raw
    by (simp add: serialize_def event_body_def Let_def split: sum.split)
qed

lemma Write_open:
  assumes "\<not> chan_closed (w_messageCh w)"
  shows "Write msg (w, m) =
    (if length (chan_buf (w_messageCh w)) < chan_cap (w_messageCh w)
     then (WriteOk, w\<lparr>w_messageCh := (w_messageCh w)\<lparr>chan_buf := chan_buf (w_messageCh w) @ [msg]\<rparr>\<rparr>, m)
     else (WriteQueueFull, w, DropsTotal_update (bump ''writer_queue_full'') m))"
  using assms by (simp add: Write_def chan_send_def)

lemma Normalize_type:
  assumes "Normalize protojson now rnd e = Inr schema"
  shows "Type schema \<in> event_types"
proof -
  have "Type schema = normalize_detectEventType e"
    using assms by (auto simp: Normalize_eq split: sum.splits)
  then show ?thesis by (simp add: normalize_detectEventType_def event_types_def)
qed

lemma event_outcome:
  assumes "nonempty_json protojson" and "\<not> chan_closed (w_messageCh w)"
    and "writeToKafka_event protojson protobytes cfg r hw now rnd e (w, m) = (res, w', m')"
  shows "res = WkContinues \<and>
    (case event_body protojson protobytes cfg r e of
       None \<Rightarrow> w' = w \<and> EventsOutTotal m' = EventsOutTotal m \<and> DropsTotal m' = DropsTotal m \<and>
         (\<exists>t. t \<in> event_types \<and> NormalizeErrorsTotal m' = bump t (NormalizeErrorsTotal m))
     | Some b \<Rightarrow>
         EventsOutTotal m' = bump (Route r e, write_status hw w) (EventsOutTotal m) \<and>
         NormalizeErrorsTotal m' = NormalizeErrorsTotal m \<and>
         map message_body (chan_buf (w_messageCh w')) = map message_body (chan_buf (w_messageCh w)) @
           (if write_status hw w = ''success'' then [b] else []) \<and>
         DropsTotal m' = (if write_status hw w = ''failed'' then bump ''writer_queue_full'' (DropsTotal m) else DropsTotal m))"
proof (cases "Normalize protojson now rnd e")
  case (Inl err)
  then have "event_body protojson protobytes cfg r e = None"
    by (auto simp: Normalize_eq event_body_def split: sum.splits)
  then show ?thesis using assms(3) Inl DetectEventType_range [of e] by (auto simp: writeToKafka_event_def deliver_def)
next
  case (Inr schema)
  obtain v ct where s: "serialize protobytes (Schema cfg) e schema = (v, ct)" by fastforce
  note body = serialize_body [OF assms(1) Inr, of protobytes cfg r, unfolded s]
  show ?thesis
  proof (cases v)
    case (Inl err)
    moreover have "Type schema \<in> event_types" using Inr by (rule Normalize_type)
    ultimately show ?thesis using assms(3) Inr s body by (auto simp: writeToKafka_event_def deliver_def Let_def)
  next
    case (Inr val)
    then have b: "event_body protojson protobytes cfg r e =
        Some (Route r e, GenerateDedupKey e (PartitionKey (Routing cfg)), val, message_headers (DetectEventType e) ct)"
      using body by simp
    show ?thesis
      using assms(2,3) \<open>Normalize protojson now rnd e = Inr schema\<close> s Inr
      by (auto simp: b writeToKafka_event_def deliver_def Let_def Write_open write_status_def message_body_def split: if_splits)
  qed
qed

text \<open>
  C7: One outcome per event.  Processing a queued event while the writer is open never panics and has exactly one
  outcome: it cannot be serialised, and one normalisation error is counted and nothing written; or one \<^verbatim>\<open>events_out\<close> is counted for
  its topic, with the status of the write, and exactly on success the message with its topic, key, value and headers is the
  last one of the writer's channel.
\<close>

theorem one_outcome_per_event:
  assumes "nonempty_json protojson" and "\<not> chan_closed (w_messageCh w)"
    and "writeToKafka_event protojson protobytes cfg r hw now rnd e (w, m) = (res, w', m')"
  shows "res = WkContinues \<and>
    (case event_body protojson protobytes cfg r e of
       None \<Rightarrow> w' = w \<and> EventsOutTotal m' = EventsOutTotal m \<and> DropsTotal m' = DropsTotal m \<and>
         (\<exists>t. t \<in> event_types \<and> NormalizeErrorsTotal m' = bump t (NormalizeErrorsTotal m))
     | Some b \<Rightarrow>
         EventsOutTotal m' = bump (Route r e, write_status hw w) (EventsOutTotal m) \<and>
         NormalizeErrorsTotal m' = NormalizeErrorsTotal m \<and>
         map message_body (chan_buf (w_messageCh w')) = map message_body (chan_buf (w_messageCh w)) @
           (if write_status hw w = ''success'' then [b] else []) \<and>
         DropsTotal m' = (if write_status hw w = ''failed'' then bump ''writer_queue_full'' (DropsTotal m) else DropsTotal m))"
  by (rule event_outcome [OF assms])

text \<open>A serialiser for the witnesses.\<close>

definition braces :: "event \<Rightarrow> unit + string" where
  "braces e = Inr ''{}''"

lemma braces_nonempty [simp]: "nonempty_json braces"
  by (simp add: nonempty_json_def braces_def)

definition default_router :: router where
  "default_router = NewRouter default_topics"

lemma default_writer [simp]:
  "NewWriter (Kafka DefaultConfig) = Some \<lparr>w_messageCh = make_chan 36000, w_closeOnce = False\<rparr>"
  by (simp add: NewWriter_def DefaultConfig_def)

theorem one_outcome_per_event_witness:
  "\<exists>w' m'. writeToKafka_event braces braces DefaultConfig default_router True 7 ''r'' example_event
      (the (NewWriter (Kafka DefaultConfig)), metrics_init) = (WkContinues, w', m') \<and>
     EventsOutTotal m' (Route default_router example_event, ''success'') = 1 \<and> chan_len (w_messageCh w') = 1"
proof -
  let ?w = "the (NewWriter (Kafka DefaultConfig))"
  obtain res w' m' where s: "writeToKafka_event braces braces DefaultConfig default_router True 7 ''r'' example_event
      (?w, metrics_init) = (res, w', m')" by (metis prod_cases3)
  have w: "\<not> chan_closed (w_messageCh ?w)" "write_status True ?w = ''success''" "chan_buf (w_messageCh ?w) = []"
    by (simp_all add: make_chan_def write_status_def)
  obtain b where b: "event_body braces braces DefaultConfig default_router example_event = Some b"
    by (simp add: event_body_def braces_def Let_def DefaultConfig_def)
  have out: "res = WkContinues" "EventsOutTotal m' = bump (Route default_router example_event, ''success'') (EventsOutTotal metrics_init)"
    "map message_body (chan_buf (w_messageCh w')) = [b]"
    using one_outcome_per_event [OF braces_nonempty w(1) s] b w(2,3) by simp_all
  then have "length (chan_buf (w_messageCh w')) = 1" by (metis length_map length_Cons list.size(3) One_nat_def)
  then show ?thesis using s out by (simp add: chan_len_def metrics_init_def)
qed

section \<open>Order and accounting along the path\<close>

text \<open>A run of one event from the stream into the writer, and the state it starts from.\<close>

definition example_pipe :: pipeline where
  "example_pipe = the (pipeline_init DefaultConfig True metrics_init)"

definition example_events :: "unit pl_event list" where
  "example_events = [StreamTurn (example_turn 0), SelectTurn None False (1 / 2), PushTurn None False]"

lemmas example_pipe_eval = example_pipe_def example_events_def pipeline_init_def NewQueue_def
  pipeline_step_def ReadEvents_turn_def example_turn_def take_events_def chan_send_def make_chan_def
  processEvents_select_def processEvents_push_def set_metrics_def chan_recv_def ShouldSample_def Push_def ctx_done_def

lemma example_pipe_init: "pipeline_init DefaultConfig True metrics_init = Some example_pipe"
  by (simp add: example_pipe_def pipeline_init_def NewQueue_def) (simp add: DefaultConfig_def)

lemma default_stream [simp]:
  "MaxQueue (Stream (Tetragon DefaultConfig)) = 50000" "DropIfQueueFull (Stream (Tetragon DefaultConfig))"
  "SampleRatio (Stream (Tetragon DefaultConfig)) = Fin 1"
  by (simp_all add: DefaultConfig_def)

lemma example_run_queued:
  "\<exists>s. pipeline_run braces braces DefaultConfig default_router example_events example_pipe = Some s \<and>
     chan_buf (q_ch (pl_queue s)) = [example_event] \<and> pl_wk_running s \<and> \<not> chan_closed (q_ch (pl_queue s))"
  by (simp add: example_pipe_eval Let_def)

text \<open>
  C3: Events keep their order.  In every interleaving of the goroutines, whatever contexts are done, the events
  popped for Kafka followed by those still under way form a subsequence of the events received from the stream: none is
  duplicated, reordered or made up.
\<close>

theorem events_keep_order:
  assumes "pipeline_init cfg hw m = Some s0" and "pipeline_run protojson protobytes cfg r evs s0 = Some s"
  shows "subseq (run_popped protojson protobytes cfg r evs s0 @ in_pipe s) (run_received evs)"
  using run_order [OF assms(2)] pipeline_init_state [OF assms(1)] by simp

theorem events_keep_order_witness:
  "\<exists>s. pipeline_run braces braces DefaultConfig default_router example_events example_pipe = Some s \<and>
     subseq (in_pipe s) [example_event] \<and> in_pipe s \<noteq> []"
proof -
  obtain s where s: "pipeline_run braces braces DefaultConfig default_router example_events example_pipe = Some s"
    "chan_buf (q_ch (pl_queue s)) = [example_event]"
    using example_run_queued by blast
  have "subseq (run_popped braces braces DefaultConfig default_router example_events example_pipe @ in_pipe s) (run_received example_events)"
    by (rule events_keep_order [OF example_pipe_init s(1)])
  moreover have "run_received example_events = [example_event]"
    by (simp add: run_received_def example_events_def example_turn_def)
  ultimately have "subseq (in_pipe s) [example_event]" by (metis append_Nil list_emb_append2 subseq_order.order_refl subseq_order.order_trans)
  then show ?thesis using s by (auto simp: in_pipe_def)
qed

text \<open>
  C5: Every event is accounted for.  While no context is done at a push or a send, every event received from the
  stream is still under way, popped for Kafka, counted as dropped at the channel or at the queue, or sampled out; and for each
  type the sampled counter and the input counter agree up to the event being pushed.
\<close>

theorem every_event_accounted:
  assumes "pipeline_init cfg hw m = Some s0" and "pipeline_run protojson protobytes cfg r evs s0 = Some s"
    and "\<forall>ev \<in> set evs. live_step ev"
  shows "length (run_received evs) + stream_drops m + queue_drops m =
      length (in_pipe s) + length (run_popped protojson protobytes cfg r evs s0) +
      stream_drops (pl_metrics s) + queue_drops (pl_metrics s) + run_sampled_out protojson protobytes cfg r evs s0 \<and>
    SampledTotal (pl_metrics s) t + EventsInTotal m t = SampledTotal m t + EventsInTotal (pl_metrics s) t + pending_of s t"
proof -
  note i = pipeline_init_state [OF assms(1)]
  have "balanced (run_sampled_out protojson protobytes cfg r evs s0) (run_received evs)
      (run_popped protojson protobytes cfg r evs s0) s0 s"
    using run_balanced [OF assms(2,3)] i by simp
  then show ?thesis using i by (simp add: balanced_def intake_eq pending_of_def)
qed

theorem every_event_accounted_witness:
  "\<exists>s. pipeline_run braces braces DefaultConfig default_router example_events example_pipe = Some s \<and>
     1 = length (in_pipe s) + length (run_popped braces braces DefaultConfig default_router example_events example_pipe) +
       stream_drops (pl_metrics s) + queue_drops (pl_metrics s) +
       run_sampled_out braces braces DefaultConfig default_router example_events example_pipe"
proof -
  obtain s where s: "pipeline_run braces braces DefaultConfig default_router example_events example_pipe = Some s"
    using example_run_queued by blast
  have "\<forall>ev \<in> set example_events. live_step ev" by (simp add: example_events_def example_turn_def)
  from every_event_accounted [OF example_pipe_init s this] s show ?thesis
    by (simp add: run_received_def example_events_def example_turn_def metrics_init_def)
qed

section \<open>From events to records\<close>

definition event_bodies ::
  "(event \<Rightarrow> 'e + string) \<Rightarrow> (event \<Rightarrow> 'e + string) \<Rightarrow> Config \<Rightarrow> router \<Rightarrow> event
    \<Rightarrow> (string \<times> string \<times> string \<times> (string \<times> string) list) list" where
  "event_bodies protojson protobytes cfg r e =
     (case event_body protojson protobytes cfg r e of None \<Rightarrow> [] | Some b \<Rightarrow> [b])"

text \<open>No context of the writer is done.\<close>

fun live_delivery :: "'r pl_event \<Rightarrow> bool" where
  "live_delivery (WriterTurn c we) = live_event (c, we)"
| "live_delivery _ = True"

lemma Write_adds:
  assumes "Write msg (w, m) = (res, w', m')"
  shows "map message_body (chan_buf (w_messageCh w')) = map message_body (chan_buf (w_messageCh w)) \<or>
    map message_body (chan_buf (w_messageCh w')) = map message_body (chan_buf (w_messageCh w)) @ [message_body msg]"
  using Write_effect [OF assms] by (auto split: if_splits)

lemma event_adds:
  assumes "nonempty_json protojson"
    and "writeToKafka_event protojson protobytes cfg r hw now rnd e (w, m) = (res, w', m')"
  shows "\<exists>bs. map message_body (chan_buf (w_messageCh w')) = map message_body (chan_buf (w_messageCh w)) @ bs \<and>
    subseq bs (event_bodies protojson protobytes cfg r e)"
proof (cases "Normalize protojson now rnd e")
  case (Inl err)
  then show ?thesis using assms(2) by (auto simp: writeToKafka_event_def deliver_def intro: exI [of _ "[]"])
next
  case (Inr schema)
  obtain v ct where s: "serialize protobytes (Schema cfg) e schema = (v, ct)" by fastforce
  note body = serialize_body [OF assms(1) Inr, of protobytes cfg r, unfolded s]
  show ?thesis
  proof (cases v)
    case (Inl err)
    then show ?thesis using assms(2) Inr s by (auto simp: writeToKafka_event_def deliver_def Let_def intro: exI [of _ "[]"])
  next
    case (Inr val)
    then have b: "event_bodies protojson protobytes cfg r e =
        [(Route r e, GenerateDedupKey e (PartitionKey (Routing cfg)), val, message_headers (DetectEventType e) ct)]"
      using body by (simp add: event_bodies_def)
    let ?msg = "\<lparr>msg_Event = Some e, msg_EventType = DetectEventType e, msg_ContentType = ct, msg_Topic = Route r e,
      msg_Key = GenerateDedupKey e (PartitionKey (Routing cfg)), msg_Value = val, msg_TraceID = TraceID schema\<rparr>"
    have "w' = w \<or> (\<exists>m1 res1 m2. Write ?msg (w, m1) = (res1, w', m2))"
      using assms(2) \<open>Normalize protojson now rnd e = Inr schema\<close> s Inr
      by (auto simp: writeToKafka_event_def deliver_def Let_def split: if_splits prod.splits write_result.splits)
    then consider "w' = w" | m1 res1 m2 where "Write ?msg (w, m1) = (res1, w', m2)" by blast
    then show ?thesis
    proof cases
      case 1
      then show ?thesis by (intro exI [of _ "[]"]) simp
    next
      case (2 m1 res1 m2)
      have "message_body ?msg = hd (event_bodies protojson protobytes cfg r e)"
        by (simp add: b message_body_def)
      then show ?thesis using Write_adds [OF 2] b by (metis append_Nil2 list.sel(1) list_emb_Nil subseq_order.order_refl)
    qed
  qed
qed

lemma bodies_append:
  assumes "ws_input s' = ws_input s" and "ws_workers s' = ws_workers s"
    and "map message_body (chan_buf (w_messageCh (ws_writer s'))) = map message_body (chan_buf (w_messageCh (ws_writer s))) @ bs"
  shows "bodies s' = bodies s + mset bs"
  using assms by (simp add: bodies_def in_flight_def)

lemma subseq_mset: "subseq xs ys \<Longrightarrow> mset xs \<subseteq># mset ys"
  by (induction rule: list_emb.induct) (auto simp: subset_mset.add_increasing2 intro: subset_mset.order_trans)

lemma subseq_concat_map: "subseq xs ys \<Longrightarrow> subseq (concat (map f xs)) (concat (map f ys))"
  by (induction rule: list_emb.induct) (auto intro: list_emb_append_mono list_emb_prefix)

lemma step_bodies:
  assumes "nonempty_json protojson" and "pipeline_step protojson protobytes cfg r ev s = Some s'" and "live_delivery ev"
  shows "bodies (pl_ws s') \<subseteq># bodies (pl_ws s) + mset (concat (map (event_bodies protojson protobytes cfg r) (step_popped ev s)))"
  using assms(2)
proof (cases rule: step_cases)
  case (popped c pick now rnd e q res w m)
  obtain bs where bs: "map message_body (chan_buf (w_messageCh w)) = map message_body (chan_buf (w_messageCh (ws_writer (pl_ws s)))) @ bs"
    "subseq bs (event_bodies protojson protobytes cfg r e)"
    using event_adds [OF assms(1) popped(4)] by blast
  have "bodies (pl_ws s') = bodies (pl_ws s) + mset bs"
    using bs(1) popped(5) by (intro bodies_append) simp_all
  then show ?thesis using popped(6) subseq_mset [OF bs(2)] by simp
next
  case (writer c we ws)
  have "step_written we (pl_ws s) = []" using writer(4) by (cases we) (auto simp: step_written_def)
  then show ?thesis using writer_step_bodies [OF writer(2)] assms(3) writer(1,3) by simp
qed (simp_all add: set_metrics_def bodies_def in_flight_def)

lemma run_bodies:
  assumes "nonempty_json protojson" and "pipeline_run protojson protobytes cfg r evs s = Some s'"
    and "\<forall>ev \<in> set evs. live_delivery ev"
  shows "bodies (pl_ws s') \<subseteq># bodies (pl_ws s) +
    mset (concat (map (event_bodies protojson protobytes cfg r) (run_popped protojson protobytes cfg r evs s)))"
  using assms(2,3)
proof (induction rule: pl.run_induct)
  case (Cons ev evs s s1)
  let ?b = "\<lambda>es. mset (concat (map (event_bodies protojson protobytes cfg r) es))"
  have "bodies (pl_ws s1) \<subseteq># bodies (pl_ws s) + ?b (step_popped ev s)"
    using step_bodies [OF assms(1) Cons(1)] Cons.prems by simp
  moreover have "bodies (pl_ws s') \<subseteq># bodies (pl_ws s1) + ?b (run_popped protojson protobytes cfg r evs s1)"
    using Cons.IH Cons.prems by simp
  ultimately have "bodies (pl_ws s') \<subseteq># bodies (pl_ws s) + ?b (step_popped ev s) + ?b (run_popped protojson protobytes cfg r evs s1)"
    by (meson subset_mset.add_right_mono subset_mset.order_trans)
  then show ?case using Cons(1) by (simp add: ac_simps)
qed simp

text \<open>
  C2: Records come from events.  As long as no context of the writer is done, the records the producer has taken and the messages
  still in the writer are, as a multiset, among the records of the events received: each event gives at most one record,
  with exactly its topic, key, value and headers, and no record comes from anywhere else.
\<close>

theorem records_come_from_events:
  assumes "nonempty_json protojson" and "pipeline_init cfg hw m = Some s0"
    and "pipeline_run protojson protobytes cfg r evs s0 = Some s" and "\<forall>ev \<in> set evs. live_delivery ev"
  shows "mset (map record_body (ws_input (pl_ws s))) + mset (map message_body (in_flight (pl_ws s)))
    \<subseteq># mset (concat (map (event_bodies protojson protobytes cfg r) (run_received evs)))"
proof -
  let ?ebs = "\<lambda>es. concat (map (event_bodies protojson protobytes cfg r) es)"
  let ?popped = "run_popped protojson protobytes cfg r evs s0"
  note i = pipeline_init_state [OF assms(2)]
  have "bodies (pl_ws s0) = {#}" using i by (simp add: bodies_def)
  then have "bodies (pl_ws s) \<subseteq># mset (?ebs ?popped)" using run_bodies [OF assms(1,3,4)] by simp
  moreover have "subseq (?popped @ in_pipe s) (run_received evs)" using run_order [OF assms(3)] i by simp
  then have "subseq ?popped (run_received evs)"
    by (metis list_emb_prefix subseq_order.order_refl subseq_order.order_trans)
  then have "mset (?ebs ?popped) \<subseteq># mset (?ebs (run_received evs))"
    by (intro subseq_mset subseq_concat_map)
  ultimately show ?thesis unfolding bodies_def by (rule subset_mset.order_trans)
qed

theorem records_come_from_events_witness:
  "\<exists>s. pipeline_run braces braces DefaultConfig default_router
      (example_events @ [PopTurn None False 7 ''r'']) example_pipe = Some s \<and>
     mset (map message_body (in_flight (pl_ws s)))
       \<subseteq># mset (event_bodies braces braces DefaultConfig default_router example_event)"
proof -
  obtain s1 where s1: "pipeline_run braces braces DefaultConfig default_router example_events example_pipe = Some s1"
    "chan_buf (q_ch (pl_queue s1)) = [example_event]" "pl_wk_running s1"
    using example_run_queued by blast
  have p: "fst (Pop None False (pl_queue s1)) = Popped example_event"
    using s1(2) by (simp add: Pop_def chan_recv_def)
  obtain res w m where w: "writeToKafka_event braces braces DefaultConfig default_router (pl_has_writer s1) 7 ''r''
      example_event (ws_writer (pl_ws s1), pl_metrics s1) = (res, w, m)" by (metis prod_cases3)
  obtain s where s: "pipeline_run braces braces DefaultConfig default_router
      (example_events @ [PopTurn None False 7 ''r'']) example_pipe = Some s"
    using s1 p w by (cases "Pop None False (pl_queue s1)")
      (simp add: pl.run_append pipeline_step_def writeToKafka_turn_def)
  have "\<forall>ev \<in> set (example_events @ [PopTurn None False 7 ''r'']). live_delivery ev"
    by (simp add: example_events_def)
  from records_come_from_events [OF braces_nonempty example_pipe_init s this]
  have "mset (map message_body (in_flight (pl_ws s))) \<subseteq># mset (event_bodies braces braces DefaultConfig default_router example_event)"
    by (simp add: run_received_def example_events_def example_turn_def) (meson mset_subset_eq_add_right subset_mset.order_trans)
  then show ?thesis using s by blast
qed

section \<open>Topics\<close>

text \<open>
  C35: Routed topics exist.  When an \<^verbatim>\<open>unknown\<close> topic is configured and every configured topic was counted as created or
  found at the start, or the topics could be listed and the cluster refused none that was missing, every event is routed to a topic that
  exists in the cluster.
\<close>

theorem routed_topics_exist:
  assumes "admin_contract (ta_admin ta) view" and "AutoCreate (ta_config ta)"
    and "set ts = ran (Topics (Routing cfg))" and "Topics (Routing cfg) ''unknown'' \<noteq> None"
    and "EnsureTopics ta ts (c, m) = (res, c', m')"
    and "ensured m' = ensured m + length ts \<or> (lists_topics (ta_admin ta) \<and>
      (\<forall>t \<in> set ts. accepts_topic (ta_admin ta) view (topic_detail (ta_config ta)) t))"
  shows "view c' (Route (NewRouter (Topics (Routing cfg))) e) \<noteq> None"
proof -
  obtain n' where "ensure_loop ta ts (0, c, m) = (n', c', m')"
    using assms(2,5) by (cases "ensure_loop ta ts (0, c, m)") (auto simp: EnsureTopics_def)
  then have "handled ta view ts (c, m) (c', m')" using ensure_loop_handled [OF assms(1)] by blast
  then have "set ts \<subseteq> dom (view c')" using assms(6) by (auto simp: handled_def)
  moreover have "Route (NewRouter (Topics (Routing cfg))) e \<in> ran (Topics (Routing cfg))"
    using assms(4) by (auto simp: Route_def NewRouter_def ran_def split: option.splits)
  ultimately show ?thesis using assms(3) by auto
qed

definition one_topic :: Config where
  "one_topic = DefaultConfig\<lparr>Routing := (Routing DefaultConfig)\<lparr>Topics := [''unknown'' \<mapsto> ''events'']\<rparr>\<rparr>"

theorem routed_topics_exist_witness:
  "\<exists>c' m'. EnsureTopics example_admin [''events''] ((Map.empty, Map.empty), metrics_init) = (None, c', m') \<and>
     fst c' (Route (NewRouter (Topics (Routing one_topic))) example_event) \<noteq> None"
proof -
  obtain res c' m' where s: "EnsureTopics example_admin [''events''] ((Map.empty, Map.empty), metrics_init) = (res, c', m')"
    by (metis prod_cases3)
  have t: "set [''events''] = ran (Topics (Routing one_topic))" "Topics (Routing one_topic) ''unknown'' \<noteq> None"
    by (simp_all add: one_topic_def)
  have a: "admin_contract (ta_admin example_admin) fst" "AutoCreate (ta_config example_admin)"
    by (simp_all add: example_admin_def map_admin_contract DefaultConfig_def)
  have e: "ensured m' = ensured metrics_init + length [''events''] \<or> lists_topics (ta_admin example_admin) \<and>
    (\<forall>t \<in> set [''events'']. accepts_topic (ta_admin example_admin) fst (topic_detail (ta_config example_admin)) t)"
    by (simp add: example_admin_def map_admin_lists map_admin_accepts)
  have "res = None" using a(2) s by (auto simp: EnsureTopics_def split: if_splits)
  then show ?thesis using routed_topics_exist [OF a t s e, of example_event] s by auto
qed

section \<open>Shutdown\<close>

text \<open>
  The third step of the shutdown of \<^verbatim>\<open>main\<close>: each second the queue's size, and when it is zero its size again half a
  second later, until both are zero or the 30 seconds are over.  \<open>None\<close>: still waiting.
\<close>

datatype drain_tick = DrainDeadline nat | DrainTick nat nat

datatype drain_end = Drained | DrainTimeout nat

fun drain_wait :: "drain_tick list \<Rightarrow> drain_end option" where
  "drain_wait [] = None"
| "drain_wait (DrainDeadline n # ticks) = Some (DrainTimeout n)"
| "drain_wait (DrainTick queueSize again # ticks) =
     (if queueSize = 0 \<and> again = 0 then Some Drained else drain_wait ticks)"

fun tick_sizes :: "drain_tick \<Rightarrow> nat set" where
  "tick_sizes (DrainDeadline n) = {n}"
| "tick_sizes (DrainTick n k) = {n, k}"

text \<open>Once \<^verbatim>\<open>writeToKafka\<close> has returned nothing takes events out of the queue.\<close>

lemma pipeline_stopped_step:
  assumes "pipeline_step protojson protobytes cfg r ev s = Some s'" and "\<not> pl_wk_running s" and "Queue_Size (pl_queue s) > 0"
  shows "\<not> pl_wk_running s' \<and> Queue_Size (pl_queue s') > 0"
  using assms(1)
proof (cases rule: step_cases)
  case (push c pick e res q m)
  then show ?thesis using assms(2,3) Push_effect [OF push(4)] by (simp add: set_metrics_def Queue_Size_def chan_len_def)
next
  case (queue lc q m)
  then show ?thesis using assms(2,3) queue_loop_effect [OF queue(2)] by (simp add: set_metrics_def Queue_Size_def)
qed (use assms(2,3) in \<open>simp_all add: set_metrics_def\<close>)

lemma pipeline_stopped_run:
  assumes "pipeline_run protojson protobytes cfg r evs s = Some s'" and "\<not> pl_wk_running s" and "Queue_Size (pl_queue s) > 0"
  shows "Queue_Size (pl_queue s') > 0"
  using assms by (induction rule: pl.run_induct) (auto dest!: pipeline_stopped_step)

text \<open>
  C17: A stranded queue.  When \<^verbatim>\<open>writeToKafka\<close> has returned, as it does once it sees the cancelled context, with events
  still in the queue, the shutdown never finds the queue drained: whatever sizes it sees of later states, it waits until its time limit, and the
  events are lost.
\<close>

theorem shutdown_strands_queue:
  assumes "\<not> pl_wk_running s" and "Queue_Size (pl_queue s) > 0"
    and "\<forall>tick \<in> set ticks. \<forall>n \<in> tick_sizes tick. \<exists>evs s'.
      pipeline_run protojson protobytes cfg r (evs :: unit pl_event list) s = Some s' \<and> n = Queue_Size (pl_queue s')"
  shows "drain_wait ticks \<noteq> Some Drained"
  using assms(3)
proof (induction ticks rule: drain_wait.induct)
  case (3 queueSize again ticks)
  then obtain evs s' where "pipeline_run protojson protobytes cfg r (evs :: unit pl_event list) s = Some s'"
    "queueSize = Queue_Size (pl_queue s')" by fastforce
  then have "queueSize > 0" using pipeline_stopped_run assms(1,2) by metis
  then show ?case using 3 by simp
qed simp_all

theorem shutdown_strands_queue_witness:
  "\<exists>s s'. pipeline_run braces braces DefaultConfig default_router example_events example_pipe = Some s \<and>
     pipeline_step braces braces DefaultConfig default_router (PopTurn (Some Canceled) True 0 '''' :: unit pl_event) s = Some s' \<and>
     drain_wait [DrainTick (Queue_Size (pl_queue s')) (Queue_Size (pl_queue s'))] \<noteq> Some Drained"
proof -
  obtain s where s: "pipeline_run braces braces DefaultConfig default_router example_events example_pipe = Some s"
    "chan_buf (q_ch (pl_queue s)) = [example_event]" "pl_wk_running s"
    using example_run_queued by blast
  then obtain s' where s': "pipeline_step braces braces DefaultConfig default_router (PopTurn (Some Canceled) True 0 '''' :: unit pl_event) s = Some s'"
    "\<not> pl_wk_running s'" "Queue_Size (pl_queue s') = 1"
    by (auto simp: pipeline_step_def writeToKafka_turn_def Pop_def chan_recv_def Queue_Size_def chan_len_def)
  have "pipeline_run braces braces DefaultConfig default_router ([] :: unit pl_event list) s' = Some s'" by simp
  then have "\<forall>tick \<in> set [DrainTick (Queue_Size (pl_queue s')) (Queue_Size (pl_queue s'))]. \<forall>n \<in> tick_sizes tick. \<exists>evs s''.
      pipeline_run braces braces DefaultConfig default_router (evs :: unit pl_event list) s' = Some s'' \<and> n = Queue_Size (pl_queue s'')"
    by (metis (no_types, lifting) empty_iff insert_iff list.set(1) list.set(2) tick_sizes.simps(2))
  from shutdown_strands_queue [OF s'(2) _ this] s'(3) have
    "drain_wait [DrainTick (Queue_Size (pl_queue s')) (Queue_Size (pl_queue s'))] \<noteq> Some Drained" by simp
  then show ?thesis using s(1) s'(1) by blast
qed

end
