(* ===== verification/End_To_End.thy ===== *)
theory End_To_End
  imports Delivery
begin

text \<open>
  The whole path, from the stream to the producer: where every received event is at any moment, by count.
\<close>

section \<open>What the writing side keeps\<close>

text \<open>The events that were taken from the queue and lost after it, as the metrics count them.\<close>

definition lost :: "metrics \<Rightarrow> nat" where
  "lost m = (\<Sum>t\<in>event_types. NormalizeErrorsTotal m t) + DropsTotal m ''writer_queue_full''"

text \<open>The records handed to the producer and the messages waiting in the writer.\<close>

definition written :: "pipeline \<Rightarrow> nat" where
  "written s = length (ws_input (pl_ws s)) + length (in_flight (pl_ws s))"

lemma written_bodies: "written s = size (bodies (pl_ws s))"
  by (simp add: written_def bodies_def)

definition writer_is_open :: "pipeline \<Rightarrow> bool" where
  "writer_is_open s \<longleftrightarrow> pl_has_writer s \<and> \<not> chan_closed (w_messageCh (ws_writer (pl_ws s)))"

text \<open>A step at which no context is done and the writer is not closed.\<close>

fun undisturbed :: "'r pl_event \<Rightarrow> bool" where
  "undisturbed (WriterTurn c we) = (live_event (c, we) \<and> we \<noteq> CloseEvent)"
| "undisturbed ev = live_step ev"

lemma undisturbed_live: "undisturbed ev \<Longrightarrow> live_step ev \<and> live_delivery ev"
  by (cases ev) simp_all

lemma lost_counters: "counters m' = counters m \<Longrightarrow> lost m' = lost m"
  by (simp add: counters_def lost_def)

lemma finite_event_types [simp]: "finite event_types"
  by (simp add: event_types_def)

lemma sum_bump:
  assumes "finite A" and "t \<in> A"
  shows "sum (bump_by (Suc 0) t f) A = Suc (sum f A)"
  using assms by (simp add: bump_by_apply sum.distrib)

lemma Write_keeps_open:
  "Write msg (w, m) = (res, w', m') \<Longrightarrow> chan_closed (w_messageCh w') = chan_closed (w_messageCh w)"
  by (auto simp: Write_def chan_send_def split: if_splits)

lemma event_keeps_open:
  assumes "writeToKafka_event protojson protobytes cfg r hw now rnd e (w, m) = (res, w', m')"
  shows "chan_closed (w_messageCh w') = chan_closed (w_messageCh w)"
  using assms Write_keeps_open by (cases rule: event_writer) auto

lemma event_conserved:
  assumes "nonempty_json protojson" and "\<not> chan_closed (w_messageCh w)"
    and "writeToKafka_event protojson protobytes cfg r True now rnd e (w, m) = (res, w', m')"
  shows "length (chan_buf (w_messageCh w')) + lost m' = Suc (length (chan_buf (w_messageCh w)) + lost m) \<and>
    \<not> chan_closed (w_messageCh w')"
proof -
  note o = event_outcome [OF assms]
  have closed: "chan_closed (w_messageCh w') = chan_closed (w_messageCh w)"
    by (rule event_keeps_open [OF assms(3)])
  show ?thesis
  proof (cases "event_body protojson protobytes cfg r e")
    case None
    then obtain t where "t \<in> event_types" "NormalizeErrorsTotal m' = bump t (NormalizeErrorsTotal m)"
      "DropsTotal m' = DropsTotal m" "w' = w" using o by auto
    then show ?thesis using assms(2) by (simp add: lost_def sum_bump)
  next
    case (Some b)
    have "length (chan_buf (w_messageCh w')) = length (map message_body (chan_buf (w_messageCh w')))" by simp
    also have "\<dots> = length (map message_body (chan_buf (w_messageCh w)) @ (if write_status True w = ''success'' then [b] else []))"
      using o Some by simp
    finally show ?thesis using o Some closed assms(2)
      by (auto simp: lost_def write_status_def bump_by_apply)
  qed
qed

text \<open>What a step of the path does to the writing side: nothing, except for the writer and the events it takes.\<close>

definition conserved :: "nat \<Rightarrow> pipeline \<Rightarrow> pipeline \<Rightarrow> bool" where
  "conserved popped s s' \<longleftrightarrow> writer_is_open s' \<and>
     written s' + lost (pl_metrics s') = written s + lost (pl_metrics s) + popped"

lemma conserved_trans:
  "\<lbrakk>conserved n s s1; conserved k s1 s2\<rbrakk> \<Longrightarrow> conserved (n + k) s s2"
  by (simp add: conserved_def)

lemma same_egress_conserved:
  assumes "lost (pl_metrics s') = lost (pl_metrics s)" and "ws_input (pl_ws s') = ws_input (pl_ws s)"
    and "ws_workers (pl_ws s') = ws_workers (pl_ws s)" and "ws_writer (pl_ws s') = ws_writer (pl_ws s)"
    and "pl_has_writer s' = pl_has_writer s" and "writer_is_open s"
  shows "conserved 0 s s'"
  using assms by (simp add: conserved_def writer_is_open_def written_def in_flight_def)

lemma stream_turn_lost:
  "ReadEvents_turn t (ch, m) = (r, ch', m') \<Longrightarrow> lost m' = lost m"
  by (auto simp: ReadEvents_turn_def Let_def lost_def chan_send_def split: option.splits sum.splits if_splits)

lemma Push_lost: "Push c pick e (q, m) = (res, q', m') \<Longrightarrow> lost m' = lost m"
  by (drule Push_effect) (auto simp: lost_def)

lemma queue_loop_lost: "updateMetricsLoop_step lc (q, m) = Some (q', m') \<Longrightarrow> lost m' = lost m"
  by (cases lc) (auto simp: updateMetricsLoop_step_def lost_def split: if_splits)

lemma worker_step_open:
  assumes "worker_step cfg r c env i wc s = Some s'"
  shows "chan_closed (w_messageCh (ws_writer s')) = chan_closed (w_messageCh (ws_writer s))"
  using assms by (cases rule: worker_step_cases) (auto simp: chan_results)

lemma step_conserved:
  assumes "nonempty_json protojson" and "pipeline_step protojson protobytes cfg r ev s = Some s'"
    and "undisturbed ev" and "writer_is_open s"
  shows "conserved (length (step_popped ev s)) s s'"
  using assms(2)
proof (cases rule: step_cases)
  case (stream t res ch m)
  then show ?thesis using assms(4) stream_turn_lost [OF stream(3)]
    by (auto simp: set_metrics_def intro!: same_egress_conserved)
next
  case (push c pick e res q m)
  have "lost (EventsInTotal_update f m) = lost m" for f by (simp add: lost_def)
  then show ?thesis using push assms(4) Push_lost [OF push(4)]
    by (auto simp: set_metrics_def intro!: same_egress_conserved)
next
  case (popped c pick now rnd e q res w m)
  have "writeToKafka_event protojson protobytes cfg r True now rnd e (ws_writer (pl_ws s), pl_metrics s) = (res, w, m)"
    using popped(4) assms(4) by (simp add: writer_is_open_def)
  from event_conserved [OF assms(1) _ this] show ?thesis
    using popped assms(4) by (simp add: conserved_def writer_is_open_def written_def in_flight_def)
next
  case (writer c we ws)
  then obtain i wc env where we: "we = WorkerEvent i wc env" using assms(3) by (cases we) auto
  have "worker_step (Kafka cfg) r c env i wc (pl_ws s) = Some ws" using writer(2) we by (simp add: writer_step_def)
  then have "chan_closed (w_messageCh (ws_writer ws)) = chan_closed (w_messageCh (ws_writer (pl_ws s)))"
    by (rule worker_step_open)
  moreover have "bodies ws = bodies (pl_ws s)"
    using writer_step_bodies [OF writer(2)] assms(3) writer(1) we by (simp add: step_written_def)
  moreover have "lost (ws_metrics ws) = lost (pl_metrics s)"
    by (rule lost_counters [OF writer_step_counters [OF writer(2,4)]])
  ultimately show ?thesis using writer(1,3) assms(4)
    by (simp add: conserved_def writer_is_open_def written_bodies)
next
  case (queue lc q m)
  then show ?thesis using assms(4) queue_loop_lost [OF queue(2)]
    by (auto simp: set_metrics_def intro!: same_egress_conserved)
qed (use assms(4) in \<open>auto simp: set_metrics_def lost_def simp del: step_popped.simps(1) intro!: same_egress_conserved\<close>)

lemma run_conserved:
  assumes "nonempty_json protojson" and "pipeline_run protojson protobytes cfg r evs s = Some s'"
    and "\<forall>ev \<in> set evs. undisturbed ev" and "writer_is_open s"
  shows "conserved (length (run_popped protojson protobytes cfg r evs s)) s s'"
  using assms(2-4)
proof (induction rule: pl.run_induct)
  case Nil
  then show ?case by (simp add: conserved_def)
next
  case (Cons ev evs s s1)
  have c: "conserved (length (step_popped ev s)) s s1"
    using step_conserved [OF assms(1) Cons(1)] Cons.prems by simp
  then have "writer_is_open s1" by (simp add: conserved_def)
  then show ?case using conserved_trans [OF c Cons.IH] Cons.prems(1) Cons(1) by simp
qed

section \<open>Conservation from end to end\<close>

lemma pipeline_init_open:
  assumes "pipeline_init cfg True m = Some s"
  shows "writer_is_open s \<and> written s = 0 \<and> lost (pl_metrics s) = lost m"
  using assms
  by (auto simp: pipeline_init_def NewQueue_def writer_is_open_def written_def Start_def make_chan_def
      in_flight_def lost_def split: option.splits if_splits dest!: NewWriter_SomeD)

text \<open>
  C1: Nothing is lost uncounted.  From the start and as long as no context is done and the writer is not closed, in every
  interleaving of the goroutines each event received from the stream is in exactly one place: in a channel or a
  goroutine on its way to \<^verbatim>\<open>writeToKafka\<close>, sampled out, waiting in the writer, handed to the producer, or counted by
  exactly one of the metrics for a full stream channel, a full queue, an event that cannot be serialised, and a full writer.
\<close>

theorem nothing_lost_uncounted:
  assumes "nonempty_json protojson" and "pipeline_init cfg True m = Some s0"
    and "pipeline_run protojson protobytes cfg r evs s0 = Some s" and "\<forall>ev \<in> set evs. undisturbed ev"
  shows "length (run_received evs) + stream_drops m + queue_drops m + lost m =
    length (in_pipe s) + run_sampled_out protojson protobytes cfg r evs s0 + written s +
    stream_drops (pl_metrics s) + queue_drops (pl_metrics s) + lost (pl_metrics s)"
proof -
  have live: "\<forall>ev \<in> set evs. live_step ev" using assms(4) undisturbed_live by blast
  note i = pipeline_init_state [OF assms(2)] and o = pipeline_init_open [OF assms(2)]
  have "length (run_received evs) + stream_drops m + queue_drops m =
      length (in_pipe s) + length (run_popped protojson protobytes cfg r evs s0) +
      stream_drops (pl_metrics s) + queue_drops (pl_metrics s) + run_sampled_out protojson protobytes cfg r evs s0"
    using run_balanced [OF assms(3) live] i by (simp add: balanced_def intake_eq)
  moreover have "written s + lost (pl_metrics s) = lost m + length (run_popped protojson protobytes cfg r evs s0)"
    using run_conserved [OF assms(1,3,4)] o by (simp add: conserved_def)
  ultimately show ?thesis by linarith
qed

theorem nothing_lost_uncounted_witness:
  "\<exists>s. pipeline_run braces braces DefaultConfig default_router example_events example_pipe = Some s \<and>
     length (in_pipe s) + run_sampled_out braces braces DefaultConfig default_router example_events example_pipe + written s +
       stream_drops (pl_metrics s) + queue_drops (pl_metrics s) + lost (pl_metrics s) = 1"
proof -
  obtain s where s: "pipeline_run braces braces DefaultConfig default_router example_events example_pipe = Some s"
    using example_run_queued by blast
  have "\<forall>ev \<in> set example_events. undisturbed ev" by (simp add: example_events_def example_turn_def)
  from nothing_lost_uncounted [OF braces_nonempty example_pipe_init s this] s show ?thesis
    by (simp add: run_received_def example_events_def example_turn_def metrics_init_def lost_def)
qed

end
