(* ===== verification/Validator.thy ===== *)
theory Validator
  imports Config
begin

text \<open>
  \<^verbatim>\<open>internal/config/validator.go\<close>: the checks of \<^verbatim>\<open>Validate\<close> in their order, with the three library
  functions they use: \<^verbatim>\<open>net.SplitHostPort\<close>, \<^verbatim>\<open>strconv.Atoi\<close> and \<^verbatim>\<open>strings.ToLower\<close>.  The first failing
  check decides the error, a value of \<open>config_error\<close> with one constructor per message of the source.
\<close>

section \<open>Library functions\<close>

fun index_of :: "char \<Rightarrow> string \<Rightarrow> nat option" where
  "index_of c [] = None"
| "index_of c (x # xs) = (if x = c then Some 0 else map_option Suc (index_of c xs))"

definition last_index_of :: "char \<Rightarrow> string \<Rightarrow> nat option" where
  "last_index_of c s = map_option (\<lambda>i. length s - Suc i) (index_of c (rev s))"

datatype addr_error =
  MissingPort | TooManyColons | MissingBracket | UnexpectedOpen | UnexpectedClose

text \<open>
  \<^verbatim>\<open>net.SplitHostPort\<close>: host and port around the last colon, the host possibly in square brackets.
  \<open>j\<close> and \<open>k\<close> are the positions before which an opening or closing bracket is not looked for.
\<close>

definition split_tail :: "string \<Rightarrow> nat \<Rightarrow> string \<Rightarrow> nat \<Rightarrow> nat \<Rightarrow> addr_error + string \<times> string" where
  "split_tail hostport i host j k =
     (if CHR ''['' \<in> set (drop j hostport) then Inl UnexpectedOpen
      else if CHR '']'' \<in> set (drop k hostport) then Inl UnexpectedClose
      else Inr (host, drop (Suc i) hostport))"

definition SplitHostPort :: "string \<Rightarrow> addr_error + string \<times> string" where
  "SplitHostPort hostport =
     (case last_index_of CHR '':'' hostport of
        None \<Rightarrow> Inl MissingPort
      | Some i \<Rightarrow>
          if hostport ! 0 = CHR ''['' then
            (case index_of CHR '']'' hostport of
               None \<Rightarrow> Inl MissingBracket
             | Some e \<Rightarrow>
                 if e + 1 = length hostport then Inl MissingPort
                 else if e + 1 = i then split_tail hostport i (drop 1 (take e hostport)) 1 (e + 1)
                 else if hostport ! (e + 1) = CHR '':'' then Inl TooManyColons
                 else Inl MissingPort)
          else
            (if CHR '':'' \<in> set (take i hostport) then Inl TooManyColons
             else split_tail hostport i (take i hostport) 0 0))"

text \<open>\<^verbatim>\<open>strconv.Atoi\<close>: an optional sign, decimal digits only, within int64; \<open>None\<close> for any error.\<close>

definition Atoi :: "string \<Rightarrow> int option" where
  "Atoi s =
     (let (neg, ds) = (case s of
            [] \<Rightarrow> (False, [])
          | c # cs \<Rightarrow> if c = CHR ''-'' then (True, cs) else if c = CHR ''+'' then (False, cs) else (False, s));
          v = (if neg then - int (digits_val ds) else int (digits_val ds))
      in if ds = [] \<or> \<not> list_all is_digit ds then None
         else if v < - (2 ^ 63) \<or> 2 ^ 63 \<le> v then None
         else Some v)"

text \<open>
  \<^verbatim>\<open>strings.ToLower\<close>.  Two non-ASCII letters have an ASCII lower case, U+0130 (bytes C4 B0) and U+212A
  (bytes E2 84 AA).  Every other non-ASCII rune becomes a non-ASCII rune; it is left alone here, which
  makes no difference to a comparison with an ASCII literal, the only use the program makes of it.
\<close>

definition lower_char :: "char \<Rightarrow> char" where
  "lower_char c =
     (if 65 \<le> (of_char c :: nat) \<and> (of_char c :: nat) \<le> 90 then char_of ((of_char c :: nat) + 32) else c)"

fun ToLower :: "string \<Rightarrow> string" where
  "ToLower [] = []"
| "ToLower (c # cs) =
     (if c = CHR 0xC4 \<and> take 1 cs = [CHR 0xB0] then CHR ''i'' # ToLower (drop 1 cs)
      else if c = CHR 0xE2 \<and> take 2 cs = [CHR 0x84, CHR 0xAA] then CHR ''k'' # ToLower (drop 2 cs)
      else lower_char c # ToLower cs)"

section \<open>Errors\<close>

datatype address_error =
  BadFormat addr_error | EmptyHost | EmptyPort | PortNotANumber | PortOutOfRange int

datatype config_error =
    GRPCAddrRequired | BrokersRequired | EmptyBroker | BadBroker string address_error
  | ClientIDRequired | BadAcks | BadCompression | MaxQueueNotPositive | MaxQueueTooLarge
  | SampleRatioOutOfRange | WorkersNotPositive | WorkersTooMany | MaxMessagesNotPositive
  | MaxMessagesTooLarge | FlushIntervalNotPositive | FlushIntervalTooLarge | MaxBytesNotPositive
  | MaxBytesTooLarge | TopicsRequired | BadPartitionKeyMode | BadSchemaMode | BadSchemaFormat
  | InitialBackoffNotPositive | InitialBackoffTooLarge | MaxBackoffNotPositive | MaxBackoffTooLarge
  | MaxBackoffBelowInitial | BadHealthPort | BadMetricsPort | SamePorts | BadPprofPort | PprofPortTaken
  | BadGRPCAddr address_error

section \<open>Validate\<close>

definition fail_if :: "bool \<Rightarrow> 'e \<Rightarrow> 'e option" where
  "fail_if b e = (if b then Some e else None)"

fun first_error :: "'e option list \<Rightarrow> 'e option" where
  "first_error [] = None"
| "first_error (Some e # es) = Some e"
| "first_error (None # es) = first_error es"

text \<open>The five checks on an address, the same for a broker and for the gRPC address.\<close>

definition check_address :: "string \<Rightarrow> address_error option" where
  "check_address a =
     (case SplitHostPort a of
        Inl err \<Rightarrow> Some (BadFormat err)
      | Inr (host, port) \<Rightarrow>
          if host = '''' then Some EmptyHost
          else if port = '''' then Some EmptyPort
          else (case Atoi port of
                  None \<Rightarrow> Some PortNotANumber
                | Some portNum \<Rightarrow> fail_if (portNum \<le> 0 \<or> portNum > 65535) (PortOutOfRange portNum)))"

fun check_brokers :: "string list \<Rightarrow> config_error option" where
  "check_brokers [] = None"
| "check_brokers (broker # brokers) =
     (if broker = '''' then Some EmptyBroker
      else case check_address broker of
             Some err \<Rightarrow> Some (BadBroker broker err)
           | None \<Rightarrow> check_brokers brokers)"

definition validAcks :: "string set" where
  "validAcks = {''all'', ''1'', ''0''}"

definition validCompression :: "string set" where
  "validCompression = {''none'', ''gzip'', ''snappy'', ''lz4'', ''zstd''}"

definition validModes :: "string set" where
  "validModes = {''deduplication'', ''fields_concat'', ''hash'', ''random''}"

definition check_monitoring :: "MonitoringConfig \<Rightarrow> config_error option" where
  "check_monitoring mc =
     (if Monitoring_Enabled mc then
        first_error
          [fail_if (HealthPort mc \<le> 0 \<or> HealthPort mc > 65535) BadHealthPort,
           fail_if (MetricsPort mc \<le> 0 \<or> MetricsPort mc > 65535) BadMetricsPort,
           fail_if (HealthPort mc = MetricsPort mc) SamePorts,
           (if PprofEnabled mc then
              first_error
                [fail_if (PprofPort mc \<le> 0 \<or> PprofPort mc > 65535) BadPprofPort,
                 fail_if (PprofPort mc = HealthPort mc \<or> PprofPort mc = MetricsPort mc) PprofPortTaken]
            else None)]
      else None)"

definition Validate :: "Config \<Rightarrow> config_error option" where
  "Validate cfg =
     (let tet = Tetragon cfg; st = Stream tet; rc = Reconnect st; kc = Kafka cfg; bc = Batch kc
      in first_error
       [fail_if (GRPCAddr tet = '''') GRPCAddrRequired,
        fail_if (length (Brokers kc) = 0) BrokersRequired,
        check_brokers (Brokers kc),
        fail_if (ClientID kc = '''') ClientIDRequired,
        fail_if (ToLower (Acks kc) \<notin> validAcks) BadAcks,
        fail_if (ToLower (Compression kc) \<notin> validCompression) BadCompression,
        fail_if (MaxQueue st \<le> 0) MaxQueueNotPositive,
        fail_if (MaxQueue st > 1000000) MaxQueueTooLarge,
        fail_if (f64_less (SampleRatio st) (Fin 0) \<or> f64_less (Fin 1) (SampleRatio st)) SampleRatioOutOfRange,
        fail_if (WriterWorkers kc \<le> 0) WorkersNotPositive,
        fail_if (WriterWorkers kc > 1000) WorkersTooMany,
        fail_if (MaxMessages bc \<le> 0) MaxMessagesNotPositive,
        fail_if (MaxMessages bc > 100000) MaxMessagesTooLarge,
        fail_if (FlushIntervalMs bc \<le> 0) FlushIntervalNotPositive,
        fail_if (FlushIntervalMs bc > 60000) FlushIntervalTooLarge,
        fail_if (MaxBytes bc \<le> 0) MaxBytesNotPositive,
        fail_if (MaxBytes bc > 100 * 1024 * 1024) MaxBytesTooLarge,
        fail_if (dom (Topics (Routing cfg)) = {}) TopicsRequired,
        fail_if (PartitionKey_Mode (PartitionKey (Routing cfg)) \<notin> validModes) BadPartitionKeyMode,
        fail_if (Schema_Mode (Schema cfg) \<notin> {''stable_json'', ''raw_string_fallback''}) BadSchemaMode,
        fail_if (Schema_Format (Schema cfg) \<noteq> '''' \<and> Schema_Format (Schema cfg) \<notin> {''json'', ''protobuf''})
          BadSchemaFormat,
        fail_if (InitialBackoffSeconds rc \<le> 0) InitialBackoffNotPositive,
        fail_if (InitialBackoffSeconds rc > 3600) InitialBackoffTooLarge,
        fail_if (MaxBackoffSeconds rc \<le> 0) MaxBackoffNotPositive,
        fail_if (MaxBackoffSeconds rc > 3600) MaxBackoffTooLarge,
        fail_if (MaxBackoffSeconds rc < InitialBackoffSeconds rc) MaxBackoffBelowInitial,
        check_monitoring (Monitoring cfg),
        (if GRPCAddr tet \<noteq> '''' then map_option BadGRPCAddr (check_address (GRPCAddr tet)) else None)])"

section \<open>What acceptance means\<close>

lemma fail_if_None [simp]: "fail_if b e = None \<longleftrightarrow> \<not> b"
  by (simp add: fail_if_def)

lemma first_error_None: "first_error es = None \<longleftrightarrow> list_all (\<lambda>e. e = None) es"
  by (induction es rule: first_error.induct) simp_all

definition valid_address :: "string \<Rightarrow> bool" where
  "valid_address a \<longleftrightarrow> (\<exists>host port n. SplitHostPort a = Inr (host, port) \<and> host \<noteq> '''' \<and>
     Atoi port = Some n \<and> 1 \<le> n \<and> n \<le> 65535)"

definition valid_monitoring :: "MonitoringConfig \<Rightarrow> bool" where
  "valid_monitoring mc \<longleftrightarrow> (Monitoring_Enabled mc \<longrightarrow>
     HealthPort mc \<in> {1..65535} \<and> MetricsPort mc \<in> {1..65535} \<and> HealthPort mc \<noteq> MetricsPort mc \<and>
     (PprofEnabled mc \<longrightarrow> PprofPort mc \<in> {1..65535} - {HealthPort mc, MetricsPort mc}))"

definition valid_config :: "Config \<Rightarrow> bool" where
  "valid_config cfg \<longleftrightarrow>
     valid_address (GRPCAddr (Tetragon cfg)) \<and>
     Brokers (Kafka cfg) \<noteq> [] \<and> (\<forall>b \<in> set (Brokers (Kafka cfg)). valid_address b) \<and>
     ClientID (Kafka cfg) \<noteq> '''' \<and>
     ToLower (Acks (Kafka cfg)) \<in> validAcks \<and> ToLower (Compression (Kafka cfg)) \<in> validCompression \<and>
     MaxQueue (Stream (Tetragon cfg)) \<in> {1..1000000} \<and>
     (SampleRatio (Stream (Tetragon cfg)) = NaN \<or>
      f64_leq (Fin 0) (SampleRatio (Stream (Tetragon cfg))) \<and> f64_leq (SampleRatio (Stream (Tetragon cfg))) (Fin 1)) \<and>
     WriterWorkers (Kafka cfg) \<in> {1..1000} \<and>
     MaxMessages (Batch (Kafka cfg)) \<in> {1..100000} \<and>
     FlushIntervalMs (Batch (Kafka cfg)) \<in> {1..60000} \<and>
     MaxBytes (Batch (Kafka cfg)) \<in> {1..104857600} \<and>
     dom (Topics (Routing cfg)) \<noteq> {} \<and>
     PartitionKey_Mode (PartitionKey (Routing cfg)) \<in> validModes \<and>
     Schema_Mode (Schema cfg) \<in> {''stable_json'', ''raw_string_fallback''} \<and>
     Schema_Format (Schema cfg) \<in> {'''', ''json'', ''protobuf''} \<and>
     reconnect_bounds (Reconnect (Stream (Tetragon cfg))) \<and>
     valid_monitoring (Monitoring cfg)"

lemma SplitHostPort_empty [simp]: "SplitHostPort [] = Inl MissingPort"
  by (simp add: SplitHostPort_def last_index_of_def)

lemma Atoi_empty [simp]: "Atoi [] = None"
  by (simp add: Atoi_def)

lemma check_address_None: "check_address a = None \<longleftrightarrow> valid_address a"
  by (auto simp: check_address_def valid_address_def split: sum.splits option.splits)

lemma check_brokers_None: "check_brokers bs = None \<longleftrightarrow> (\<forall>b \<in> set bs. valid_address b)"
proof (induction bs)
  case (Cons b bs)
  then show ?case
    by (auto simp: check_address_None [symmetric] check_address_def split: option.splits)
qed simp

lemma check_monitoring_None: "check_monitoring mc = None \<longleftrightarrow> valid_monitoring mc"
  by (auto simp: check_monitoring_def valid_monitoring_def first_error_None)

lemma sample_ratio_ok:
  "\<not> (f64_less r (Fin 0) \<or> f64_less (Fin 1) r) \<longleftrightarrow> r = NaN \<or> f64_leq (Fin 0) r \<and> f64_leq r (Fin 1)"
  by (cases r) (auto simp: f64_leq_def)

lemma valid_address_nonempty: "valid_address a \<Longrightarrow> a \<noteq> ''''"
  by (auto simp: valid_address_def)

lemma check_grpc_None:
  "(if a \<noteq> '''' then map_option BadGRPCAddr (check_address a) else None) = None \<longleftrightarrow>
     a = '''' \<or> valid_address a"
  by (simp add: check_address_None)

text \<open>Each of the checks as a plain condition, in the order of the source.\<close>

lemmas check_simps = Validate_def Let_def first_error_None list.pred_inject fail_if_None de_Morgan_disj
  check_grpc_None check_brokers_None check_monitoring_None not_le not_less not_not

lemma Validate_None_forward:
  assumes "Validate cfg = None"
  shows "valid_config cfg"
proof -
  note C = assms [unfolded check_simps]
  have "SampleRatio (Stream (Tetragon cfg)) = NaN \<or>
      f64_leq (Fin 0) (SampleRatio (Stream (Tetragon cfg))) \<and> f64_leq (SampleRatio (Stream (Tetragon cfg))) (Fin 1)"
    using C sample_ratio_ok by blast
  with C show ?thesis
    unfolding valid_config_def reconnect_bounds_def
    by (elim conjE) (intro conjI; (assumption | (simp; fail) | (simp; blast)))
qed

lemma Validate_None_backward:
  assumes "valid_config cfg"
  shows "Validate cfg = None"
proof -
  note C = assms [unfolded valid_config_def reconnect_bounds_def]
  have "\<not> f64_less (SampleRatio (Stream (Tetragon cfg))) (Fin 0)" "\<not> f64_less (Fin 1) (SampleRatio (Stream (Tetragon cfg)))"
    "GRPCAddr (Tetragon cfg) \<noteq> ''''"
    using C sample_ratio_ok valid_address_nonempty by blast+
  with C show ?thesis
    unfolding check_simps
    by (elim conjE) (intro conjI; (assumption | (simp; fail) | (simp; blast)))
qed

lemma Validate_None: "Validate cfg = None \<longleftrightarrow> valid_config cfg"
  using Validate_None_forward Validate_None_backward by blast

end
