(* ===== verification/Config_Properties.thy ===== *)
theory Config_Properties
  imports Validator Event_Queue Kafka_Writer
begin

text \<open>
  What an accepted configuration guarantees: the exact set of accepted configurations, addresses, and
  the preconditions of the components that are built from the configuration.
\<close>

section \<open>Addresses\<close>

lemma index_of_append_Cons: "c \<notin> set xs \<Longrightarrow> index_of c (xs @ c # ys) = Some (length xs)"
  by (induction xs) auto

lemma last_index_of_append_Cons:
  "c \<notin> set ys \<Longrightarrow> last_index_of c (xs @ c # ys) = Some (length xs)"
  using index_of_append_Cons [of c "rev ys" "rev xs"] by (simp add: last_index_of_def)

lemma fmt_nat_not_in: "\<not> is_digit c \<Longrightarrow> c \<notin> set (fmt_nat n)"
  using fmt_nat_digits by blast

lemma separators_not_digits [simp]:
  "\<not> is_digit CHR '':''" "\<not> is_digit CHR ''[''" "\<not> is_digit CHR '']''" "\<not> is_digit CHR ''-''"
  "\<not> is_digit CHR ''+''"
  by (simp_all add: is_digit_def)

lemma Atoi_fmt_nat: "n < 2 ^ 63 \<Longrightarrow> Atoi (fmt_nat n) = Some (int n)"
proof -
  assume n: "n < 2 ^ 63"
  obtain c cs where f: "fmt_nat n = c # cs" by (meson fmt_nat_nonempty neq_Nil_conv)
  then have "is_digit c" using fmt_nat_digits [of n] by simp
  then have "c \<noteq> CHR ''-''" "c \<noteq> CHR ''+''" using separators_not_digits by metis+
  moreover have "list_all is_digit (c # cs)" using fmt_nat_digits [of n] f by (simp add: list_all_iff)
  moreover have "digits_val (c # cs) = n" using digits_val_fmt_nat [of n] f by simp
  moreover have "int n < 2 ^ 63" using n by (simp add: nat_less_iff [symmetric])
  ultimately show ?thesis by (simp add: Atoi_def f)
qed

lemma SplitHostPort_plain:
  assumes "host \<noteq> ''''" and "\<forall>c \<in> {CHR '':'', CHR ''['', CHR '']''}. c \<notin> set host \<and> c \<notin> set port"
  shows "SplitHostPort (host @ CHR '':'' # port) = Inr (host, port)"
proof -
  have "last_index_of CHR '':'' (host @ CHR '':'' # port) = Some (length host)"
    using assms by (intro last_index_of_append_Cons) simp
  moreover have "(host @ CHR '':'' # port) ! 0 \<noteq> CHR ''[''"
    using assms by (cases host) auto
  ultimately show ?thesis
    using assms by (simp add: SplitHostPort_def split_tail_def)
qed

lemma check_address_plain:
  assumes "host \<noteq> ''''" and "\<forall>c \<in> {CHR '':'', CHR ''['', CHR '']''}. c \<notin> set host" and "n < 2 ^ 63"
  shows "check_address (host @ CHR '':'' # fmt_nat n) =
    (if n = 0 \<or> n > 65535 then Some (PortOutOfRange (int n)) else None)"
proof -
  have "SplitHostPort (host @ CHR '':'' # fmt_nat n) = Inr (host, fmt_nat n)"
    using assms by (intro SplitHostPort_plain) (auto dest: fmt_nat_not_in [THEN notE, rotated])
  then show ?thesis
    using assms(1) Atoi_fmt_nat [OF assms(3)] by (simp add: check_address_def fail_if_def)
qed

text \<open>
  Address round trip.  A host without colon or bracket, a colon and a printed port number split back
  into host and number: the address is accepted exactly when the number is between 1 and 65535, and
  otherwise the error names that number.
\<close>

theorem address_roundtrip:
  assumes "host \<noteq> ''''" and "CHR '':'' \<notin> set host" and "CHR ''['' \<notin> set host" and "CHR '']'' \<notin> set host"
    and "n < 2 ^ 63"
  shows "check_address (host @ '':'' @ fmt_nat n) =
    (if n = 0 \<or> n > 65535 then Some (PortOutOfRange (int n)) else None)"
  using check_address_plain [of host n] assms by simp

theorem address_roundtrip_witness:
  "check_address ''kafka:9092'' = None \<and> check_address ''kafka:70000'' = Some (PortOutOfRange 70000)"
  using address_roundtrip [of "''kafka''" 9092] address_roundtrip [of "''kafka''" 70000]
  by (simp add: fmt_eval)

section \<open>Accepted configurations\<close>

text \<open>
  C10: Validation is exact.  \<^verbatim>\<open>Validate\<close> returns no error precisely for the configurations in which every
  documented constraint holds: well-formed addresses with ports in range, known acks, compression, modes
  and formats, sizes, workers and intervals within their bounds, ordered backoffs and distinct ports.
\<close>

theorem validate_exact: "Validate cfg = None \<longleftrightarrow> valid_config cfg"
  by (rule Validate_None)

lemma valid_address_plain:
  assumes "host \<noteq> ''''" and "\<forall>c \<in> {CHR '':'', CHR ''['', CHR '']''}. c \<notin> set host"
    and "0 < n" and "n \<le> 65535"
  shows "valid_address (host @ CHR '':'' # fmt_nat n)"
  using check_address_plain [OF assms(1,2), of n] assms(3,4) check_address_None by simp

lemma default_config_valid: "valid_config DefaultConfig"
proof -
  have "valid_address ''localhost:54321''" "valid_address ''localhost:9092''"
    using valid_address_plain [of "''localhost''" 54321] valid_address_plain [of "''localhost''" 9092]
    by (simp_all add: fmt_eval)
  moreover have "ToLower ''all'' = ''all''" "ToLower ''snappy'' = ''snappy''"
    by (simp_all add: lower_char_def)
  moreover have "dom default_topics \<noteq> {}" by (simp add: default_topics_def)
  ultimately show ?thesis
    by (simp add: valid_config_def DefaultConfig_def validAcks_def validCompression_def validModes_def
        default_partition_key_def reconnect_bounds_def valid_monitoring_def)
qed

lemma default_config_accepted [simp]: "Validate DefaultConfig = None"
  by (simp add: Validate_None default_config_valid)

lemma flush_interval_positive:
  assumes "1 \<le> n" and "n \<le> 60000"
  shows "0 <s word_of_int n * Millisecond"
proof -
  have "sint (word_of_int (n * 1000000) :: i64) = n * 1000000"
    using assms by (intro sint_of_int_64) simp_all
  then show ?thesis using assms by (simp add: Millisecond_def word_sless_alt)
qed

lemma product_bounds:
  fixes a b :: int
  assumes "1 \<le> a" "a \<le> 100000" "1 \<le> b" "b \<le> 1000"
  shows "1 \<le> a * b \<and> a * b \<le> 100000000"
proof -
  have "1 * 1 \<le> a * b" using assms by (intro mult_mono) simp_all
  moreover have "a * b \<le> 100000 * 1000" using assms by (intro mult_mono) simp_all
  ultimately show ?thesis by simp
qed

text \<open>
  C34: Accepted configurations build.  For an accepted configuration the event queue can be created, with
  the configured capacity, the writer's channel has \<open>max_messages * workers\<close> slots, at least one and at most
  100 million, at least one worker starts, and the flush interval is a positive duration, so that neither
  \<^verbatim>\<open>make(chan, n)\<close> nor \<^verbatim>\<open>time.NewTicker\<close> panics.
\<close>

theorem accepted_config_builds:
  assumes "Validate cfg = None"
  shows "(\<exists>q m'. NewQueue (Stream (Tetragon cfg)) m = Some (q, m') \<and>
      int (Queue_Capacity q) = MaxQueue (Stream (Tetragon cfg))) \<and>
    (\<exists>w. NewWriter (Kafka cfg) = Some w \<and> chan_cap (w_messageCh w) \<in> {1..100000000} \<and>
      int (chan_cap (w_messageCh w)) = MaxMessages (Batch (Kafka cfg)) * WriterWorkers (Kafka cfg) \<and>
      ws_workers (Start (Kafka cfg) w m) \<noteq> []) \<and>
    0 <s Flush_Frequency (producer_config (Kafka cfg) sc)"
proof -
  have v: "MaxQueue (Stream (Tetragon cfg)) \<in> {1..1000000}" "WriterWorkers (Kafka cfg) \<in> {1..1000}"
    "MaxMessages (Batch (Kafka cfg)) \<in> {1..100000}" "FlushIntervalMs (Batch (Kafka cfg)) \<in> {1..60000}"
    using assms unfolding Validate_None valid_config_def by blast+
  have p: "1 \<le> MaxMessages (Batch (Kafka cfg)) * WriterWorkers (Kafka cfg)"
    "MaxMessages (Batch (Kafka cfg)) * WriterWorkers (Kafka cfg) \<le> 100000000"
    using product_bounds v by simp_all
  have "Flush_Frequency (producer_config (Kafka cfg) sc) = word_of_int (FlushIntervalMs (Batch (Kafka cfg))) * Millisecond"
    by (simp add: producer_config_def Let_def)
  then have "0 <s Flush_Frequency (producer_config (Kafka cfg) sc)"
    using flush_interval_positive v(4) by simp
  moreover have "ws_workers (Start (Kafka cfg) w m) \<noteq> []" for w
    using v(2) by (simp add: Start_def)
  moreover have "\<exists>w. NewWriter (Kafka cfg) = Some w \<and> chan_cap (w_messageCh w) \<in> {1..100000000} \<and>
      int (chan_cap (w_messageCh w)) = MaxMessages (Batch (Kafka cfg)) * WriterWorkers (Kafka cfg)"
    using p by (simp add: NewWriter_def make_chan_def nat_le_iff)
  moreover have "\<exists>q m'. NewQueue (Stream (Tetragon cfg)) m = Some (q, m') \<and>
      int (Queue_Capacity q) = MaxQueue (Stream (Tetragon cfg))"
    using v(1) by (simp add: NewQueue_def Queue_Capacity_def make_chan_def)
  ultimately show ?thesis by blast
qed

theorem accepted_config_builds_witness:
  "\<exists>q m'. NewQueue (Stream (Tetragon DefaultConfig)) metrics_init = Some (q, m') \<and> Queue_Capacity q = 50000"
proof -
  have "int n = 50000 \<Longrightarrow> n = 50000" for n by simp
  then show ?thesis
    using accepted_config_builds [OF default_config_accepted, of metrics_init] by (auto simp: DefaultConfig_def)
qed

section \<open>Settings that are accepted and then not honoured\<close>

definition codec_of :: "string \<Rightarrow> CompressionCodec option" where
  "codec_of = map_of [(''none'', CompressionNone), (''gzip'', CompressionGZIP),
     (''snappy'', CompressionSnappy), (''lz4'', CompressionLZ4), (''zstd'', CompressionZSTD)]"

lemma ToLower_codecs:
  "s \<in> validCompression \<Longrightarrow> ToLower s = s"
  by (auto simp: validCompression_def lower_char_def)

lemma parse_lower: "s \<in> validCompression \<Longrightarrow> Some (parseCompression s) = codec_of s"
  by (auto simp: validCompression_def parseCompression_def codec_of_def)

lemma parse_other: "s \<notin> validCompression \<Longrightarrow> parseCompression s = CompressionNone"
  by (auto simp: validCompression_def parseCompression_def)

lemma codec_of_none: "s \<in> validCompression \<Longrightarrow> codec_of s = Some CompressionNone \<longleftrightarrow> s = ''none''"
  by (auto simp: validCompression_def codec_of_def)

text \<open>
  C38: Compression by case.  Validation lower-cases the compression, the producer does not.  In an accepted configuration the
  setting names a codec, up to case.  When it is spelled in lower case the producer uses that codec; in any other spelling, such
  as \<^verbatim>\<open>SNAPPY\<close>, everything is sent uncompressed.
\<close>

theorem compression_by_case:
  assumes "Validate cfg = None"
  shows "\<exists>codec. codec_of (ToLower (Compression (Kafka cfg))) = Some codec \<and>
    sc_Compression (producer_config (Kafka cfg) sc) =
      (if ToLower (Compression (Kafka cfg)) = Compression (Kafka cfg) then codec else CompressionNone)"
proof -
  let ?s = "Compression (Kafka cfg)"
  have v: "ToLower ?s \<in> validCompression" using assms unfolding Validate_None valid_config_def by blast
  have c: "sc_Compression (producer_config (Kafka cfg) sc) = parseCompression ?s"
    by (simp add: producer_config_def Let_def)
  obtain codec where codec: "codec_of (ToLower ?s) = Some codec" using parse_lower [OF v] by metis
  have "parseCompression ?s = (if ToLower ?s = ?s then codec else CompressionNone)"
  proof (cases "ToLower ?s = ?s")
    case True
    then have "codec_of ?s = Some codec" "?s \<in> validCompression" using codec v by simp_all
    then show ?thesis using True parse_lower [of ?s] by simp
  next
    case False
    then show ?thesis using parse_other ToLower_codecs by auto
  qed
  then show ?thesis using codec c by auto
qed

theorem compression_by_case_witness:
  "Validate (DefaultConfig\<lparr>Kafka := (Kafka DefaultConfig)\<lparr>Compression := ''SNAPPY''\<rparr>\<rparr>) = None \<and>
   (\<forall>sc :: unit sarama_config. codec_of ''snappy'' \<noteq>
     Some (sc_Compression (producer_config ((Kafka DefaultConfig)\<lparr>Compression := ''SNAPPY''\<rparr>) sc)))"
proof -
  let ?cfg = "DefaultConfig\<lparr>Kafka := (Kafka DefaultConfig)\<lparr>Compression := ''SNAPPY''\<rparr>\<rparr>"
  have l: "ToLower ''SNAPPY'' = ''snappy''"
    by code_simp
  have v: "Validate ?cfg = None"
    using default_config_valid
    by (simp add: Validate_None valid_config_def l validCompression_def del: ToLower.simps)
  have "codec_of ''snappy'' \<noteq> Some (sc_Compression (producer_config (Kafka ?cfg) sc))" for sc :: "unit sarama_config"
  proof -
    have "sc_Compression (producer_config (Kafka ?cfg) sc) = CompressionNone"
      using compression_by_case [OF v, where sc = sc] by (simp add: l del: ToLower.simps)
    then show ?thesis by (simp add: codec_of_def)
  qed
  then show ?thesis using v by simp
qed

text \<open>
  A sample ratio that is not a number passes.  Both comparisons with NaN are false, so \<^verbatim>\<open>Validate\<close>
  accepts it, and the sampler then drops every event, whatever the random number.
\<close>

theorem nan_ratio_drops_all:
  assumes "Validate cfg = None"
    and "cfg' = cfg\<lparr>Tetragon := (Tetragon cfg)\<lparr>Stream := (Stream (Tetragon cfg))\<lparr>SampleRatio := NaN\<rparr>\<rparr>\<rparr>"
  shows "Validate cfg' = None \<and> ShouldSample (Stream (Tetragon cfg')) rnd event m = (False, m)"
  using assms by (simp add: Validate_None valid_config_def ShouldSample_def)

theorem nan_ratio_drops_all_witness:
  "\<not> fst (ShouldSample ((Stream (Tetragon DefaultConfig))\<lparr>SampleRatio := NaN\<rparr>) rnd event m)"
  using nan_ratio_drops_all [OF default_config_accepted refl, of rnd event m] by simp

end
