(* ===== verification/Pipeline_Types.thy ===== *)
theory Pipeline_Types
  imports Delivery Config_Properties
begin

text \<open>
  The well-formedness of the state of the event path, whatever happens, cancellation and close included: every channel stays
  within its configured capacity and every batch below the flush size.
\<close>

text \<open>
  Every channel has the capacity it was made with and is within it, every worker's batch is below the flush size when the worker waits
  for its next message, and there are as many workers as configured, none without a writer.
\<close>

definition pipeline_wf :: "Config \<Rightarrow> pipeline \<Rightarrow> bool" where
  "pipeline_wf cfg s \<longleftrightarrow>
     chan_wf (pl_ch s) \<and> chan_cap (pl_ch s) = nat (MaxQueue (Stream (Tetragon cfg))) \<and>
     chan_wf (q_ch (pl_queue s)) \<and> chan_cap (q_ch (pl_queue s)) = nat (MaxQueue (Stream (Tetragon cfg))) \<and>
     writer_wf (Kafka cfg) (pl_ws s) \<and>
     chan_cap (w_messageCh (ws_writer (pl_ws s))) =
       (if pl_has_writer s then nat (MaxMessages (Batch (Kafka cfg)) * WriterWorkers (Kafka cfg)) else 0) \<and>
     length (ws_workers (pl_ws s)) = (if pl_has_writer s then nat (WriterWorkers (Kafka cfg)) else 0)"

lemma ReadEvents_turn_chan:
  assumes "ReadEvents_turn t (ch, m) = (res, ch', m')" and "chan_wf ch"
  shows "chan_wf ch' \<and> chan_cap ch' = chan_cap ch"
  using assms
  by (auto simp: ReadEvents_turn_def take_events_def chan_send_def Let_def chan_wf_def chan_len_def
      split: option.splits sum.splits if_splits)

lemma Push_chan:
  assumes "Push c pick e (q, m) = (res, q', m')" and "chan_wf (q_ch q)"
  shows "chan_wf (q_ch q') \<and> chan_cap (q_ch q') = chan_cap (q_ch q)"
  using assms
  by (auto simp: Push_def chan_send_def chan_wf_def chan_len_def split: option.splits if_splits)

lemma Pop_chan:
  assumes "Pop c pick q = (res, q')" and "chan_wf (q_ch q)"
  shows "chan_wf (q_ch q') \<and> chan_cap (q_ch q') = chan_cap (q_ch q)"
  using assms
  by (auto simp: Pop_def chan_recv_def chan_wf_def chan_len_def split: option.splits list.splits if_splits)

lemma Write_chan:
  assumes "Write msg (w, m) = (res, w', m')" and "chan_wf (w_messageCh w)"
  shows "chan_wf (w_messageCh w') \<and> chan_cap (w_messageCh w') = chan_cap (w_messageCh w)"
  using assms by (auto simp: Write_def chan_send_def chan_wf_def chan_len_def split: if_splits)

lemma event_chan:
  assumes "writeToKafka_event protojson protobytes cfg r hw now rnd e (w, m) = (res, w', m')" and "chan_wf (w_messageCh w)"
  shows "chan_wf (w_messageCh w') \<and> chan_cap (w_messageCh w') = chan_cap (w_messageCh w)"
  using assms Write_chan by (cases rule: event_writer) auto

lemma step_has_writer:
  "pipeline_step protojson protobytes cfg r ev s = Some s' \<Longrightarrow> pl_has_writer s' = pl_has_writer s"
  by (cases rule: step_cases) (assumption | simp add: set_metrics_def)+

lemma run_has_writer:
  "pipeline_run protojson protobytes cfg r evs s = Some s' \<Longrightarrow> pl_has_writer s' = pl_has_writer s"
  by (induction rule: pl.run_induct) (auto dest: step_has_writer)

lemma step_keeps_wf:
  assumes "pipeline_step protojson protobytes cfg r ev s = Some s'" and "pipeline_wf cfg s"
    and "0 < MaxMessages (Batch (Kafka cfg))"
  shows "pipeline_wf cfg s'"
  using assms(1)
proof (cases rule: step_cases)
  case (stream t res ch m)
  then show ?thesis using ReadEvents_turn_chan [OF stream(3)] assms(2)
    by (simp add: pipeline_wf_def writer_wf_def set_metrics_def)
next
  case (push c pick e res q m)
  then show ?thesis using Push_chan [OF push(4)] assms(2)
    by (simp add: pipeline_wf_def writer_wf_def set_metrics_def)
next
  case (popped c pick now rnd e q res w m)
  then show ?thesis using Pop_chan [OF popped(3)] event_chan [OF popped(4)] assms(2)
    by (simp add: pipeline_wf_def writer_wf_def)
next
  case (writer c we ws)
  then show ?thesis using writer_step_wf [OF _ assms(3) writer(2)] step_bound [OF writer(2)] assms(2)
    by (simp add: pipeline_wf_def)
next
  case (queue lc q m)
  then show ?thesis using queue_loop_effect [OF queue(2)] assms(2)
    by (simp add: pipeline_wf_def writer_wf_def set_metrics_def)
qed (use assms(2) in \<open>simp_all add: pipeline_wf_def writer_wf_def set_metrics_def chan_wf_def chan_len_def\<close>)

lemma run_keeps_wf:
  assumes "pipeline_run protojson protobytes cfg r evs s = Some s'" and "pipeline_wf cfg s"
    and "0 < MaxMessages (Batch (Kafka cfg))"
  shows "pipeline_wf cfg s'"
  using assms by (induction rule: pl.run_induct) (auto dest: step_keeps_wf)

lemma init_wf:
  assumes "pipeline_init cfg hw m = Some s" and "0 < MaxMessages (Batch (Kafka cfg))"
  shows "pipeline_wf cfg s"
  using assms
  by (auto simp: pipeline_init_def NewQueue_def pipeline_wf_def writer_wf_def Start_def make_chan_def
      chan_wf_def chan_len_def split: option.splits if_splits dest!: NewWriter_SomeD)

text \<open>
  C12: The state stays well-formed and bounded.  For an accepted configuration and whatever happens from the start on, cancelled
  contexts, time-outs and the close of the writer included, each of the two event channels holds at most \<^verbatim>\<open>max_queue\<close>
  events and the writer's channel at most \<^verbatim>\<open>max_messages * writer_workers\<close> messages, there are as many workers as configured,
  and each of them has fewer than \<^verbatim>\<open>max_messages\<close> messages in its batch whenever it waits for the next one.  What a goroutine
  holds in the middle of a turn, such as the full batch of a flush, is not counted.
\<close>

theorem path_is_bounded:
  assumes "Validate cfg = None" and "pipeline_init cfg hw m = Some s0"
    and "pipeline_run protojson protobytes cfg r evs s0 = Some s"
  shows "pipeline_wf cfg s \<and> int (chan_len (pl_ch s)) \<le> MaxQueue (Stream (Tetragon cfg)) \<and>
    int (Queue_Size (pl_queue s)) \<le> MaxQueue (Stream (Tetragon cfg)) \<and>
    int (chan_len (w_messageCh (ws_writer (pl_ws s)))) \<le> MaxMessages (Batch (Kafka cfg)) * WriterWorkers (Kafka cfg) \<and>
    int (length (ws_workers (pl_ws s))) = (if hw then WriterWorkers (Kafka cfg) else 0) \<and>
    (\<forall>wk \<in> set (ws_workers (pl_ws s)). int (length (wk_batch wk)) < MaxMessages (Batch (Kafka cfg)))"
proof -
  let ?M = "MaxMessages (Batch (Kafka cfg))" and ?W = "WriterWorkers (Kafka cfg)"
  have v: "0 < MaxQueue (Stream (Tetragon cfg))" "0 < ?M" "0 < ?W"
    using assms(1) by (auto simp: Validate_None valid_config_def)
  have wf: "pipeline_wf cfg s" by (rule run_keeps_wf [OF assms(3) init_wf [OF assms(2) v(2)] v(2)])
  have hw: "pl_has_writer s = hw" using run_has_writer [OF assms(3)] pipeline_init_state [OF assms(2)] by simp
  have "0 \<le> ?M * ?W" using v by simp
  then show ?thesis using wf hw v
    by (auto simp: pipeline_wf_def writer_wf_def chan_wf_def Queue_Size_def le_nat_iff split: if_splits)
qed

theorem path_is_bounded_witness:
  "\<exists>s. pipeline_run braces braces DefaultConfig default_router example_events example_pipe = Some s \<and>
     pipeline_wf DefaultConfig s \<and> chan_len (pl_ch s) \<le> 50000"
proof -
  obtain s where s: "pipeline_run braces braces DefaultConfig default_router example_events example_pipe = Some s"
    using example_run_queued by blast
  note p = path_is_bounded [OF default_config_accepted example_pipe_init s]
  have "MaxQueue (Stream (Tetragon DefaultConfig)) = 50000" by (simp add: DefaultConfig_def)
  then have "int (chan_len (pl_ch s)) \<le> 50000" using p by simp
  then have "chan_len (pl_ch s) \<le> 50000" by linarith
  with s p show ?thesis by blast
qed

end
