(* ===== verification/Progress.thy ===== *)
theory Progress
  imports End_To_End Pipeline_Types
begin

text \<open>
  The path never gets stuck: as long as no context is done, whatever has happened so far, its goroutines can still
  bring every event that is under way to the producer.
\<close>

section \<open>All goroutines running\<close>

text \<open>A step at which no context is done and the writer is not closed.\<close>

fun calm :: "'r pl_event \<Rightarrow> bool" where
  "calm (StreamTurn t) = (rt_ctx t = None \<and> rt_send_ctx t = None)"
| "calm (SelectTurn c pick rnd) = (c = None)"
| "calm (PushTurn c pick) = (c = None)"
| "calm (PopTurn c pick now rnd) = (c = None)"
| "calm (WriterTurn c we) = (live_event (c, we) \<and> we \<noteq> CloseEvent)"
| "calm (QueueLoop lc) = True"

lemma calm_undisturbed: "calm ev \<Longrightarrow> undisturbed ev"
  by (cases ev) simp_all

definition workers_up :: "writer_state \<Rightarrow> bool" where
  "workers_up s \<longleftrightarrow> ws_workers s \<noteq> [] \<and> (\<forall>wk \<in> set (ws_workers s). wk_running wk) \<and>
     \<not> chan_closed (w_messageCh (ws_writer s))"

definition path_up :: "pipeline \<Rightarrow> bool" where
  "path_up s \<longleftrightarrow> pipe_open s \<and> pl_pe_running s \<and> pl_wk_running s \<and> pl_has_writer s \<and> workers_up (pl_ws s)"

lemma worker_step_up:
  assumes "worker_step cfg r None env i wc s = Some s'" and "workers_up s"
  shows "workers_up s'"
proof -
  have upd: "\<forall>wk \<in> set ((ws_workers s)[i := \<lparr>wk_batch = b, wk_running = True\<rparr>]). wk_running wk" for b
    using assms(2) set_update_subset_insert [of "ws_workers s" i] by (fastforce simp: workers_up_def)
  from assms(1) show ?thesis
    by (cases rule: worker_step_cases)
      (use assms(2) upd in \<open>auto simp: workers_up_def chan_recv_Received ctx_done_def\<close>)
qed

lemma event_continues:
  assumes "writeToKafka_event protojson protobytes cfg r hw now rnd e (w, m) = (res, w', m')"
    and "\<not> chan_closed (w_messageCh w)"
  shows "res = WkContinues \<and> \<not> chan_closed (w_messageCh w') \<and>
    length (chan_buf (w_messageCh w')) \<le> Suc (length (chan_buf (w_messageCh w)))"
  using assms
  by (auto simp: writeToKafka_event_def deliver_def Let_def Write_def chan_send_def
      split: sum.splits prod.splits if_splits)

lemma step_up:
  assumes "pipeline_step protojson protobytes cfg r ev s = Some s'" and "calm ev" and "path_up s"
  shows "path_up s'"
  using assms(1)
proof (cases rule: step_cases)
  case (stream t res ch m)
  then show ?thesis using assms(3) stream_turn_effect [OF stream(3,2)] by (simp add: path_up_def pipe_open_def set_metrics_def workers_up_def)
next
  case (push c pick e res q m)
  then have "res \<noteq> PushPanic" using assms(2,3) Push_effect [OF push(4)] by (auto simp: path_up_def pipe_open_def)
  then show ?thesis using assms(3) push Push_effect [OF push(4)]
    by (simp add: path_up_def pipe_open_def set_metrics_def workers_up_def)
next
  case (popped c pick now rnd e q res w m)
  then show ?thesis using assms(3) Pop_effect [OF popped(3)] event_continues [OF popped(4)]
    by (simp add: path_up_def pipe_open_def workers_up_def)
next
  case (writer c we ws)
  then obtain i wc env where "we = WorkerEvent i wc env" "c = None"
    using assms(2) by (cases we) (auto simp: live_event_def)
  then show ?thesis using writer(2,3) assms(3) worker_step_up by (auto simp: path_up_def pipe_open_def writer_step_def)
next
  case (queue lc q m)
  then show ?thesis using assms(3) queue_loop_effect [OF queue(2)]
    by (simp add: path_up_def pipe_open_def set_metrics_def workers_up_def)
qed (use assms(2,3) in \<open>simp_all add: path_up_def pipe_open_def set_metrics_def workers_up_def ctx_done_def\<close>)

section \<open>The work that is left\<close>

definition writer_load :: "writer_state \<Rightarrow> nat" where
  "writer_load s = length (concat (map wk_batch (ws_workers s))) + 2 * length (chan_buf (w_messageCh (ws_writer s)))"

definition load :: "pipeline \<Rightarrow> nat" where
  "load s = writer_load (pl_ws s) + 3 * length (chan_buf (q_ch (pl_queue s))) +
     (if pl_pending s = None then 0 else 4) + 5 * length (chan_buf (pl_ch s))"

lemma batches_update:
  assumes "i < length wks"
  shows "length (concat (map wk_batch (wks[i := wk]))) + length (wk_batch (wks ! i)) =
    length (concat (map wk_batch wks)) + length (wk_batch wk)"
  using arg_cong [OF mset_workers_update [OF assms, of id wk], of size] by simp

lemma writer_progress:
  assumes "workers_up s" and "0 < writer_load s"
  shows "\<exists>i wc s1. worker_step cfg r None flush_env_live i wc s = Some s1 \<and> writer_load s1 < writer_load s"
proof (cases "chan_buf (w_messageCh (ws_writer s))")
  case (Cons msg msgs)
  let ?ch = "(w_messageCh (ws_writer s))\<lparr>chan_buf := msgs\<rparr>"
  have i: "0 < length (ws_workers s)" and run: "wk_running (ws_workers s ! 0)" using assms(1) by (simp_all add: workers_up_def)
  have rcv: "chan_recv (w_messageCh (ws_writer s)) = Received msg ?ch" using Cons by (simp add: chan_recv_def)
  have "worker_step cfg r None flush_env_live 0 Receive s \<noteq> None"
    using i run rcv by (simp add: worker_step_def Let_def)
  then obtain s1 where s1: "worker_step cfg r None flush_env_live 0 Receive s = Some s1" by blast
  have buf: "chan_buf (w_messageCh (ws_writer s1)) = msgs"
    using s1 i run rcv by (auto simp: worker_step_def Let_def split: if_splits)
  have "writer_load s1 < writer_load s"
    using s1
  proof (cases rule: worker_step_cases)
    case (full msg' ch' s2)
    have "ch' = ?ch" using full(4) rcv by simp
    then show ?thesis using batches_update [OF i, of "\<lparr>wk_batch = [], wk_running = True\<rparr>"] full(5,6) Cons
      by (simp add: writer_load_def)
  next
    case (collect msg' ch' s2)
    have "ch' = ?ch" "msg' = msg" using collect(4) rcv by simp_all
    then show ?thesis using batches_update [OF i, of "\<lparr>wk_batch = wk_batch (ws_workers s ! 0) @ [msg], wk_running = True\<rparr>"] collect(5,7) Cons
      by (simp add: writer_load_def)
  next
    case (same m)
    then show ?thesis using buf Cons by simp
  qed (use Cons in \<open>simp_all\<close>)
  with s1 show ?thesis by blast
next
  case Nil
  then obtain wk where "wk \<in> set (ws_workers s)" "wk_batch wk \<noteq> []" using assms(2) by (auto simp: writer_load_def)
  then obtain i where i: "i < length (ws_workers s)" "wk_batch (ws_workers s ! i) \<noteq> []" by (metis in_set_conv_nth)
  then have "wk_running (ws_workers s ! i)" using assms(1) by (simp add: workers_up_def)
  then have "worker_step cfg r None flush_env_live i Tick s = Some (set_worker i \<lparr>wk_batch = [], wk_running = True\<rparr>
      (flush_worker r None flush_env_live (wk_batch (ws_workers s ! i)) s))"
    using i by (simp add: worker_step_def Let_def)
  moreover have "writer_load (set_worker i \<lparr>wk_batch = [], wk_running = True\<rparr>
      (flush_worker r None flush_env_live (wk_batch (ws_workers s ! i)) s)) < writer_load s"
    using batches_update [OF i(1), of "\<lparr>wk_batch = [], wk_running = True\<rparr>"] iffD2 [OF length_greater_0_conv i(2)]
    by (simp add: writer_load_def del: length_greater_0_conv)
  ultimately show ?thesis by blast
qed

section \<open>Every event can be delivered\<close>

lemma step_progress:
  assumes "path_up s" and "pipeline_wf cfg s" and "0 < MaxQueue (Stream (Tetragon cfg))" and "0 < load s"
  shows "\<exists>(ev :: 'r pl_event) s1. calm ev \<and> step_received ev = [] \<and> pipeline_step protojson protobytes cfg r ev s = Some s1 \<and> load s1 < load s"
proof (cases "0 < writer_load (pl_ws s)")
  case True
  have "workers_up (pl_ws s)" using assms(1) by (simp add: path_up_def)
  then obtain i wc s1 where w: "worker_step (Kafka cfg) r None flush_env_live i wc (pl_ws s) = Some s1"
    "writer_load s1 < writer_load (pl_ws s)"
    using writer_progress True by blast
  then have "pipeline_step protojson protobytes cfg r (WriterTurn None (WorkerEvent i wc flush_env_live)) s = Some (s\<lparr>pl_ws := s1\<rparr>)"
    by (simp add: pipeline_step_def writer_step_def)
  with w(2) show ?thesis
    by (intro exI [of _ "WriterTurn None (WorkerEvent i wc flush_env_live)"] exI [of _ "s\<lparr>pl_ws := s1\<rparr>"]) (simp add: live_event_def load_def)
next
  case writer_idle: False
  have up: "pl_pe_running s" "pl_wk_running s" "\<not> chan_closed (q_ch (pl_queue s))" "\<not> chan_closed (w_messageCh (ws_writer (pl_ws s)))"
    using assms(1) by (simp_all add: path_up_def pipe_open_def workers_up_def)
  show ?thesis
  proof (cases "chan_buf (q_ch (pl_queue s))")
    case (Cons e es)
    let ?q = "(pl_queue s)\<lparr>q_ch := (q_ch (pl_queue s))\<lparr>chan_buf := es\<rparr>\<rparr>"
    obtain res w m where w: "writeToKafka_event protojson protobytes cfg r (pl_has_writer s) 0 [] e
        (ws_writer (pl_ws s), pl_metrics s) = (res, w, m)" by (metis prod_cases3)
    have "Pop None False (pl_queue s) = (Popped e, ?q)" using Cons by (simp add: Pop_def chan_recv_def)
    moreover define s1 where
      "s1 = s\<lparr>pl_queue := ?q, pl_wk_running := (res = WkContinues), pl_ws := (pl_ws s)\<lparr>ws_writer := w, ws_metrics := m\<rparr>\<rparr>"
    ultimately have "pipeline_step protojson protobytes cfg r (PopTurn None False 0 []) s = Some s1"
      using w up by (simp add: pipeline_step_def writeToKafka_turn_def)
    moreover have "load s1 < load s" using event_continues [OF w up(4)] Cons by (simp add: s1_def load_def writer_load_def)
    ultimately show ?thesis by (intro exI [of _ "PopTurn None False 0 []"] exI [of _ s1]) simp
  next
    case queue_empty: Nil
    have cap: "0 < chan_cap (q_ch (pl_queue s))" using assms(2,3) by (simp add: pipeline_wf_def)
    show ?thesis
    proof (cases "pl_pending s")
      case (Some e)
      have "Push None False e (pl_queue s, m) = (PushOk, (pl_queue s)\<lparr>q_ch := (q_ch (pl_queue s))\<lparr>chan_buf := [e]\<rparr>\<rparr>, m)" for m
        using queue_empty cap up(3) by (simp add: Push_def chan_send_def)
      then have "\<exists>s1. processEvents_push None False s = Some s1 \<and> load s1 < load s"
        using Some up(1) queue_empty by (simp add: processEvents_push_def load_def set_metrics_def writer_load_def)
      then obtain s1 where "pipeline_step protojson protobytes cfg r (PushTurn None False :: 'r pl_event) s = Some s1" "load s1 < load s"
        by (auto simp: pipeline_step_def)
      then show ?thesis by (intro exI [of _ "PushTurn None False"] exI [of _ s1]) simp
    next
      case None
      then obtain e es where ch: "chan_buf (pl_ch s) = e # es"
        using assms(4) writer_idle queue_empty by (cases "chan_buf (pl_ch s)") (simp_all add: load_def)
      obtain keep m where "ShouldSample (Stream (Tetragon cfg)) 0 e (pl_metrics s) = (keep, m)" by fastforce
      then have "\<exists>s1. processEvents_select cfg None False 0 s = Some s1 \<and> load s1 < load s"
        using None up(1) ch
        by (cases keep) (simp_all add: processEvents_select_def chan_recv_def ctx_done_def load_def set_metrics_def writer_load_def)
      then obtain s1 where "pipeline_step protojson protobytes cfg r (SelectTurn None False 0 :: 'r pl_event) s = Some s1" "load s1 < load s"
        by (auto simp: pipeline_step_def)
      then show ?thesis by (intro exI [of _ "SelectTurn None False 0"] exI [of _ s1]) simp
    qed
  qed
qed

lemma pipeline_init_up:
  assumes "pipeline_init cfg True m = Some s" and "0 < WriterWorkers (Kafka cfg)"
  shows "path_up s"
  using assms
  by (auto simp: pipeline_init_def NewQueue_def path_up_def pipe_open_def workers_up_def Start_def make_chan_def
      split: option.splits if_splits dest!: NewWriter_SomeD)

text \<open>
  C4: Every event can be delivered.  Whatever has happened since the start, as long as no context was done, the goroutines are never
  stuck: without a further event from the stream they can reach a state where nothing is under way.  There every
  event received is a record the producer has taken, was sampled out, or is counted by one of the loss counters.
\<close>

theorem path_can_drain:
  fixes evs :: "'r pl_event list"
  assumes "nonempty_json protojson" and "Validate cfg = None" and "pipeline_init cfg True m = Some s0"
    and "pipeline_run protojson protobytes cfg r evs s0 = Some s" and "\<forall>ev \<in> set evs. calm ev"
  shows "\<exists>evs' s'. (\<forall>ev \<in> set evs'. calm ev \<and> step_received ev = []) \<and>
    pipeline_run protojson protobytes cfg r (evs @ evs') s0 = Some s' \<and> in_pipe s' = [] \<and> in_flight (pl_ws s') = [] \<and>
    length (run_received evs) + stream_drops m + queue_drops m + lost m =
      run_sampled_out protojson protobytes cfg r (evs @ evs') s0 + length (ws_input (pl_ws s')) +
      stream_drops (pl_metrics s') + queue_drops (pl_metrics s') + lost (pl_metrics s')"
proof -
  have v: "0 < MaxQueue (Stream (Tetragon cfg))" "0 < MaxMessages (Batch (Kafka cfg))" "0 < WriterWorkers (Kafka cfg)"
    using assms(2) by (auto simp: Validate_None valid_config_def)
  let ?I = "\<lambda>s. path_up s \<and> pipeline_wf cfg s"
  have keeps: "?I s1" if "pipeline_step protojson protobytes cfg r ev s = Some s1" "calm ev" "?I s" for ev :: "'r pl_event" and s s1
    using that step_up step_keeps_wf v(2) by blast
  have "?I s"
    by (rule pl.run_invariant [OF assms(4) _ assms(5)])
      (use keeps init_wf [OF assms(3) v(2)] pipeline_init_up [OF assms(3) v(3)] in blast)+
  then have "\<exists>(evs' :: 'r pl_event list) s'. (\<forall>ev \<in> set evs'. calm ev \<and> step_received ev = []) \<and>
      pipeline_run protojson protobytes cfg r evs' s = Some s' \<and> ?I s' \<and> load s' = 0"
    by (rule pl.run_to_zero) (use step_progress [OF _ _ v(1)] keeps in blast)
  then obtain evs' :: "'r pl_event list" and s' where e: "\<forall>ev \<in> set evs'. calm ev \<and> step_received ev = []"
    "pipeline_run protojson protobytes cfg r evs' s = Some s'" "load s' = 0" by blast
  have run: "pipeline_run protojson protobytes cfg r (evs @ evs') s0 = Some s'"
    using assms(4) e(2) by (simp add: pl.run_append)
  have empty: "in_pipe s' = []" "in_flight (pl_ws s') = []"
    using e(3) by (auto simp: load_def writer_load_def in_pipe_def in_flight_def split: if_splits option.splits)
  have "run_received (evs @ evs') = run_received evs" using e(1) by (simp add: run_received_def)
  moreover have "\<forall>ev \<in> set (evs @ evs'). undisturbed ev" using assms(5) e(1) calm_undisturbed by auto
  ultimately show ?thesis
    using nothing_lost_uncounted [OF assms(1,3) run] e(1) run empty
    by (intro exI [of _ evs'] exI [of _ s']) (simp add: written_def)
qed

theorem path_can_drain_witness:
  "\<exists>evs' s'. pipeline_run braces braces DefaultConfig default_router (example_events @ evs') example_pipe = Some s' \<and>
     in_pipe s' = [] \<and> in_flight (pl_ws s') = []"
proof -
  obtain s where s: "pipeline_run braces braces DefaultConfig default_router example_events example_pipe = Some s"
    using example_run_queued by blast
  have "\<forall>ev \<in> set example_events. calm ev" by (simp add: example_events_def example_turn_def)
  from path_can_drain [OF braces_nonempty default_config_accepted example_pipe_init s this] show ?thesis by blast
qed

end
