(* ===== verification/Backpressure.thy ===== *)
theory Backpressure
  imports Progress
begin











end
