(* ===== verification/Data_Transform.thy ===== *)
theory Data_Transform
  imports Config Json
begin

text \<open>
  \<^verbatim>\<open>shouldLogDataTransform\<close> of \<^verbatim>\<open>cmd/consumer/main.go\<close>: sampling of the data transformation log by a hash of the
  trace id.  The hash is int64 arithmetic over the runes of the id, and the normalisation a float64
  division, which is rounded.
\<close>

unbundle bit_operations_syntax

section \<open>Runes\<close>

text \<open>\<^verbatim>\<open>for _, c := range s\<close>: the code points of the string, U+FFFD for a byte that does not start one.\<close>

definition code_point :: "string \<Rightarrow> nat" where
  "code_point s =
     (let b = (\<lambda>i. byte (s ! i) mod 64); a = byte (hd s)
      in if rune_len s = 1 then a
         else if rune_len s = 2 then (a mod 32) * 64 + b 1
         else if rune_len s = 3 then (a mod 16) * 4096 + b 1 * 64 + b 2
         else if rune_len s = 4 then (a mod 8) * 262144 + b 1 * 4096 + b 2 * 64 + b 3
         else 65533)"

function runes :: "string \<Rightarrow> nat list" where
  "runes [] = []"
| "runes (c # cs) = code_point (c # cs) # runes (drop (max 1 (rune_len (c # cs)) - 1) cs)"
  by pat_completeness auto
termination by (relation "measure length") auto

declare runes.simps [simp del]

lemma runes_ascii: "\<forall>c \<in> set s. byte c < 128 \<Longrightarrow> runes s = map of_char s"
  by (induction s) (simp_all add: runes.simps rune_len.simps code_point_def)

section \<open>Rounded division\<close>

text \<open>
  The float64 nearest to \<open>n / d\<close>, ties to even, for \<open>n \<le> d < 2^31\<close>: the quotient is scaled by the least power of
  two that makes it at least one, and rounded to 53 significant bits.
\<close>

function scale_exp :: "nat \<Rightarrow> nat \<Rightarrow> nat" where
  "scale_exp n d = (if n = 0 \<or> d \<le> n then 0 else Suc (scale_exp (2 * n) d))"
  by auto
termination by (relation "measure (\<lambda>(n, d). d - n)") auto

declare scale_exp.simps [simp del]

definition round_half_even :: "nat \<Rightarrow> nat \<Rightarrow> nat" where
  "round_half_even a b =
     (let q = a div b; r = a mod b
      in if 2 * r < b \<or> 2 * r = b \<and> even q then q else Suc q)"

definition f64_div :: "nat \<Rightarrow> nat \<Rightarrow> rat" where
  "f64_div n d =
     (let k = scale_exp n d + 52 in of_nat (round_half_even (n * 2 ^ k) d) / 2 ^ k)"

lemma round_half_even_less:
  assumes "0 < b" and "2 * a + b < 2 * m * b"
  shows "round_half_even a b < m"
proof -
  have "a div b < m \<and> (a div b = m - 1 \<longrightarrow> 2 * (a mod b) < b)"
  proof -
    have a: "a = a div b * b + a mod b" by simp
    have lt: "a div b < m"
    proof (rule ccontr)
      assume "\<not> a div b < m"
      then have "m * b \<le> a div b * b" by simp
      then have "m * b \<le> a" using a by linarith
      then show False using assms by linarith
    qed
    moreover have "2 * (a mod b) < b" if "a div b = m - 1"
    proof -
      have "a = (m - 1) * b + a mod b" using a that by simp
      moreover have "(m - 1) * b + b = m * b" using lt by (simp add: algebra_simps flip: mult_Suc)
      ultimately show ?thesis using assms(2) by linarith
    qed
    ultimately show ?thesis by blast
  qed
  then show ?thesis by (auto simp: round_half_even_def Let_def)
qed

lemma f64_div_self: "0 < d \<Longrightarrow> f64_div d d = 1"
  by (simp add: f64_div_def scale_exp.simps [of d d] round_half_even_def Let_def)

lemma scale_exp_bound:
  "0 < n \<Longrightarrow> n < d \<Longrightarrow> n * 2 ^ scale_exp n d < 2 * d \<and> 1 \<le> scale_exp n d"
proof (induction n d rule: scale_exp.induct)
  case (1 n d)
  show ?case
  proof (cases "d \<le> 2 * n")
    case True
    then have "scale_exp n d = 1" using 1 by (simp add: scale_exp.simps [of n d] scale_exp.simps [of "2 * n" d])
    then show ?thesis using 1 by simp
  next
    case False
    then have "2 * n * 2 ^ scale_exp (2 * n) d < 2 * d" using 1 by simp
    then show ?thesis using 1(2,3) by (simp add: scale_exp.simps [of n d] ac_simps)
  qed
qed

text \<open>Below the divisor the rounded quotient stays below one.\<close>

lemma f64_div_less_one:
  assumes "n < d" and "d < 2 ^ 31"
  shows "f64_div n d < 1"
proof (cases "n = 0")
  case True
  then show ?thesis using assms by (simp add: f64_div_def round_half_even_def Let_def scale_exp.simps)
next
  case False
  let ?k = "scale_exp n d + 52"
  have "(n + 1) * 2 ^ ?k \<le> d * 2 ^ ?k" using assms(1) by (intro mult_right_mono) simp_all
  then have "n * 2 ^ ?k + 2 ^ ?k \<le> d * 2 ^ ?k" by simp
  moreover have "d < 2 * 2 ^ ?k"
  proof -
    have "(2 :: nat) ^ 31 \<le> 2 ^ Suc ?k" by (rule power_increasing) simp_all
    then show ?thesis using assms(2) by (simp only: power_Suc)
  qed
  ultimately have "2 * (n * 2 ^ ?k) + d < 2 * 2 ^ ?k * d" by (simp add: mult.commute)
  then have "round_half_even (n * 2 ^ ?k) d < 2 ^ ?k"
    using assms(1) by (intro round_half_even_less) simp_all
  then have "(of_nat (round_half_even (n * 2 ^ ?k) d) :: rat) < of_nat (2 ^ ?k)"
    by (simp only: of_nat_less_iff)
  then show ?thesis by (simp add: f64_div_def Let_def)
qed

lemma f64_div_nonneg: "0 \<le> f64_div n d"
  by (simp add: f64_div_def Let_def)

section \<open>The sampling decision\<close>

definition trace_hash :: "string \<Rightarrow> i64" where
  "trace_hash traceID = foldl (\<lambda>hash c. hash * 31 + of_nat c) 0 (runes traceID)"

definition normalized_hash :: "string \<Rightarrow> rat" where
  "normalized_hash traceID = f64_div (unat (trace_hash traceID AND 0x7FFFFFFF)) 0x7FFFFFFF"

definition shouldLogDataTransform :: "string \<Rightarrow> f64 \<Rightarrow> bool" where
  "shouldLogDataTransform traceID sampleRatio =
     (if f64_leq sampleRatio (Fin 0) then False
      else if f64_leq (Fin 1) sampleRatio then True
      else f64_less (Fin (normalized_hash traceID)) sampleRatio)"

lemma masked_le: "unat ((w :: i64) AND 0x7FFFFFFF) \<le> 0x7FFFFFFF"
proof -
  have "w AND 0x7FFFFFFF \<le> 0x7FFFFFFF" by (rule word_and_le1)
  then show ?thesis by (simp add: word_le_nat_alt)
qed

lemma normalized_range: "0 \<le> normalized_hash t \<and> normalized_hash t \<le> 1"
proof (cases "unat (trace_hash t AND 0x7FFFFFFF) = 0x7FFFFFFF")
  case True
  then show ?thesis using f64_div_self [of "0x7FFFFFFF"] by (simp add: normalized_hash_def)
next
  case False
  then have "unat (trace_hash t AND 0x7FFFFFFF) < 0x7FFFFFFF" using masked_le [of "trace_hash t"] by linarith
  then have "normalized_hash t < 1" unfolding normalized_hash_def by (intro f64_div_less_one) simp_all
  then show ?thesis using f64_div_nonneg by (simp add: normalized_hash_def)
qed

text \<open>
  The normalised hash.  The hash of a trace id normalises to a number from 0 to 1, and to 1 itself exactly
  when its low 31 bits are all set: the interval is closed, not half open.
\<close>

theorem normalized_hash_range:
  "0 \<le> normalized_hash t \<and> normalized_hash t \<le> 1 \<and>
   (normalized_hash t = 1 \<longleftrightarrow> trace_hash t AND 0x7FFFFFFF = 0x7FFFFFFF)"
proof -
  have "normalized_hash t \<noteq> 1" if "unat (trace_hash t AND 0x7FFFFFFF) \<noteq> 0x7FFFFFFF"
  proof -
    have "unat (trace_hash t AND 0x7FFFFFFF) < 0x7FFFFFFF" using masked_le [of "trace_hash t"] that by linarith
    then have "normalized_hash t < 1" unfolding normalized_hash_def by (intro f64_div_less_one) simp_all
    then show ?thesis by simp
  qed
  moreover have "unat (trace_hash t AND 0x7FFFFFFF) = 0x7FFFFFFF \<longleftrightarrow> trace_hash t AND 0x7FFFFFFF = 0x7FFFFFFF"
    by (simp add: word_unat_eq_iff)
  ultimately show ?thesis
    using normalized_range [of t] f64_div_self [of "0x7FFFFFFF"] by (auto simp: normalized_hash_def)
qed

text \<open>
  Raising the ratio only adds.  A trace that is logged at one sampling ratio is logged at every larger one, and the decision
  at a ratio of zero, below zero or NaN is never to log, at one or above always.
\<close>

theorem sampling_monotone:
  assumes "f64_leq r r'" and "shouldLogDataTransform t r"
  shows "shouldLogDataTransform t r'"
  using assms by (cases r; cases r') (auto simp: shouldLogDataTransform_def f64_leq_def split: if_splits)

theorem sampling_monotone_witness:
  "shouldLogDataTransform ''ab'' (Fin (1/2))"
proof -
  have "trace_hash ''ab'' = 3105" by (simp add: trace_hash_def runes_ascii)
  then have "normalized_hash ''ab'' < 1 / 4"
    by (simp add: normalized_hash_def f64_div_def scale_exp.simps round_half_even_def Let_def)
  then have "shouldLogDataTransform ''ab'' (Fin (1/4))" by (simp add: shouldLogDataTransform_def)
  then show ?thesis using sampling_monotone [of "Fin (1/4)" "Fin (1/2)" "''ab''"] by simp
qed

end
