(* ===== verification/Json_Reader.thy ===== *)
theory Json_Reader
  imports Json
begin

text \<open>
  When \<^verbatim>\<open>json.Unmarshal\<close> into an empty interface succeeds: the scanner of \<^verbatim>\<open>encoding/json\<close> as a machine with a stack
  of open brackets (at most 10000), the literals, strings, and numbers, which must also fit into a float64.
\<close>

section \<open>Tokens\<close>

definition blank :: "char \<Rightarrow> bool" where
  "blank c \<longleftrightarrow> c = CHR '' '' \<or> c = CHR 0x09 \<or> c = CHR 0x0A \<or> c = CHR 0x0D"

definition hex_digit :: "char \<Rightarrow> bool" where
  "hex_digit c \<longleftrightarrow> is_digit c \<or> 97 \<le> byte c \<and> byte c \<le> 102 \<or> 65 \<le> byte c \<and> byte c \<le> 70"

text \<open>The rest after the closing quote of a string, \<open>None\<close> for a bad escape, a control character or no end.\<close>

fun str_rest :: "string \<Rightarrow> string option" where
  "str_rest [] = None"
| "str_rest (c # cs) =
     (if c = dquote then Some cs
      else if c = backslash then
        (case cs of
           [] \<Rightarrow> None
         | e # rest \<Rightarrow>
             if e = CHR ''u'' then
               (if length (take 4 rest) = 4 \<and> list_all hex_digit (take 4 rest) then str_rest (drop 4 rest) else None)
             else if e \<in> set (dquote # backslash # ''/bfnrt'') then str_rest rest
             else None)
      else if byte c < 32 then None
      else str_rest cs)"

text \<open>
  A number: an optional minus, an integer part without leading zeros, an optional fraction, an optional exponent, whose
  value stops growing at 10000 as in \<^verbatim>\<open>strconv\<close>.  The digits of both parts are read as one integer.
\<close>

definition digits :: "string \<Rightarrow> string \<times> string" where
  "digits s = (takeWhile is_digit s, dropWhile is_digit s)"

definition exponent_val :: "string \<Rightarrow> nat" where
  "exponent_val ds = foldl (\<lambda>n c. if n < 10000 then n * 10 + digit_val c else n) 0 ds"

definition int_part :: "string \<Rightarrow> (string \<times> string) option" where
  "int_part s =
     (case s of
        [] \<Rightarrow> None
      | c # cs \<Rightarrow>
          if c = CHR ''0'' then Some (''0'', cs)
          else if is_digit c then Some (digits s) else None)"

definition fraction_part :: "string \<Rightarrow> (string \<times> string) option" where
  "fraction_part s =
     (case s of
        [] \<Rightarrow> Some ('''', s)
      | c # cs \<Rightarrow>
          if c = CHR ''.'' then (case digits cs of (ds, r) \<Rightarrow> if ds = '''' then None else Some (ds, r))
          else Some ('''', s))"

definition exponent_part :: "string \<Rightarrow> (int \<times> string) option" where
  "exponent_part s =
     (case s of
        [] \<Rightarrow> Some (0, s)
      | c # cs \<Rightarrow>
          if c = CHR ''e'' \<or> c = CHR ''E'' then
            (let (neg, t) = (case cs of
                               d # ds \<Rightarrow> if d = CHR ''-'' then (True, ds) else if d = CHR ''+'' then (False, ds) else (False, cs)
                             | [] \<Rightarrow> (False, cs))
             in case digits t of
                  (ds, r) \<Rightarrow> if ds = '''' then None
                            else Some (if neg then - int (exponent_val ds) else int (exponent_val ds), r))
          else Some (0, s))"

text \<open>
  \<open>n * 10 ^ e\<close> is out of range when it rounds to 2 ^ 1024, that is from the middle between the largest float64 and
  2 ^ 1024 on.
\<close>

definition f64_overflow :: "nat \<Rightarrow> int \<Rightarrow> bool" where
  "f64_overflow n e =
     (if n = 0 then False
      else if 0 \<le> e then 400 < e \<or> 2 ^ 1024 - 2 ^ 970 \<le> n * 10 ^ nat e
      else (2 ^ 1024 - 2 ^ 970) * 10 ^ nat (- e) \<le> n)"

definition num_rest :: "bool \<Rightarrow> string \<Rightarrow> string option" where
  "num_rest ranged s =
     (case int_part (if take 1 s = ''-'' then drop 1 s else s) of
        None \<Rightarrow> None
      | Some (i, s1) \<Rightarrow>
          (case fraction_part s1 of
             None \<Rightarrow> None
           | Some (f, s2) \<Rightarrow>
               (case exponent_part s2 of
                  None \<Rightarrow> None
                | Some (e, s3) \<Rightarrow>
                    if ranged \<and> f64_overflow (digits_val (i @ f)) (e - int (length f)) then None else Some s3)))"

definition literal_rest :: "string \<Rightarrow> string option" where
  "literal_rest s =
     (if take 4 s = ''true'' \<or> take 4 s = ''null'' then Some (drop 4 s)
      else if take 5 s = ''false'' then Some (drop 5 s) else None)"

text \<open>Every token is non-empty, so the scan below ends.\<close>

lemma str_rest_unfold:
  assumes "str_rest s = Some r"
  obtains "s = dquote # r" | t where "str_rest t = Some r" "length t < length s"
proof (cases s)
  case (Cons c cs)
  show thesis
  proof (cases "c = backslash")
    case True
    with Cons assms obtain e rest where cs: "cs = e # rest" by (cases cs) auto
    show thesis
    proof (cases "e = CHR ''u''")
      case True
      then have "str_rest (drop 4 rest) = Some r"
        using assms Cons cs \<open>c = backslash\<close> by (auto simp del: drop_Cons split: if_splits)
      moreover have "length (drop 4 rest) < length s" using Cons cs by simp
      ultimately show thesis using that by blast
    next
      case False
      then have "str_rest rest = Some r"
        using assms Cons cs \<open>c = backslash\<close> by (auto split: if_splits)
      then show thesis using that Cons cs by simp
    qed
  next
    case False
    then show thesis using that assms Cons by (auto split: if_splits)
  qed
qed (use assms in simp)

lemma str_rest_shorter: "str_rest s = Some r \<Longrightarrow> length r < length s"
proof (induction s rule: length_induct)
  case (1 s)
  from \<open>str_rest s = Some r\<close> show ?case
  proof (cases rule: str_rest_unfold)
    case (2 t)
    then have "length r < length t" using "1.IH" by blast
    with 2 show ?thesis by simp
  qed simp
qed

declare str_rest.simps [simp del]

lemma digits_length: "digits s = (ds, r) \<Longrightarrow> length r + length ds = length s"
  by (auto simp: digits_def) (metis add.commute length_append takeWhile_dropWhile_id)

lemma int_part_shorter: "int_part s = Some (i, r) \<Longrightarrow> length r < length s"
  using digits_length [of s i r]
  by (cases s) (auto simp: int_part_def digits_def split: if_splits)

lemma fraction_part_le: "fraction_part s = Some (f, r) \<Longrightarrow> length r \<le> length s"
  using digits_length [of "tl s" f r]
  by (cases s) (auto simp: fraction_part_def split: if_splits prod.splits)

lemma exponent_part_le: "exponent_part s = Some (e, r) \<Longrightarrow> length r \<le> length s"
  by (cases s)
    (auto simp: exponent_part_def Let_def split: if_splits prod.splits list.splits dest!: digits_length)

lemma num_rest_shorter: "num_rest ranged s = Some r \<Longrightarrow> length r < length s"
proof -
  assume "num_rest ranged s = Some r"
  then obtain i s1 f s2 e where
    "int_part (if take 1 s = ''-'' then drop 1 s else s) = Some (i, s1)" "fraction_part s1 = Some (f, s2)"
    "exponent_part s2 = Some (e, r)"
    by (auto simp: num_rest_def split: option.splits if_splits)
  then have "length r < length (if take 1 s = ''-'' then drop 1 s else s)"
    using int_part_shorter fraction_part_le exponent_part_le by (meson order.strict_trans1)
  also have "\<dots> \<le> length s" by simp
  finally show ?thesis .
qed

lemma literal_rest_shorter: "literal_rest s = Some r \<Longrightarrow> length r < length s"
proof -
  assume r: "literal_rest s = Some r"
  then have "s \<noteq> []" by (auto simp: literal_rest_def)
  with r show ?thesis by (cases s) (auto simp: literal_rest_def split: if_splits)
qed

section \<open>The scanner\<close>

datatype bracket = InArray | InObject

datatype scan_state = BeginValue | BeginValueOrEmpty | BeginString | BeginStringOrEmpty | EndKey | EndValue

definition max_nesting :: nat where
  "max_nesting = 10000"

text \<open>The token that begins a value and is not a bracket.\<close>

definition scalar_rest :: "bool \<Rightarrow> string \<Rightarrow> string option" where
  "scalar_rest ranged s =
     (case s of
        [] \<Rightarrow> None
      | c # cs \<Rightarrow>
          if c = dquote then str_rest cs
          else if c = CHR ''-'' \<or> is_digit c then num_rest ranged s
          else literal_rest s)"

lemma scalar_rest_shorter: "scalar_rest ranged s = Some r \<Longrightarrow> length r < length s"
  by (cases s) (auto simp: scalar_rest_def less_Suc_eq split: if_splits
      dest: str_rest_shorter num_rest_shorter literal_rest_shorter)

function scan :: "bool \<Rightarrow> scan_state \<Rightarrow> bracket list \<Rightarrow> string \<Rightarrow> bool" where
  "scan ranged st stack [] = (st = EndValue \<and> stack = [])"
| "scan ranged st stack (c # cs) =
     (if blank c then scan ranged st stack cs
      else case st of
        EndValue \<Rightarrow>
          (case stack of
             [] \<Rightarrow> False
           | InArray # rest \<Rightarrow>
               if c = CHR '','' then scan ranged BeginValue stack cs
               else if c = CHR '']'' then scan ranged EndValue rest cs else False
           | InObject # rest \<Rightarrow>
               if c = CHR '','' then scan ranged BeginString stack cs
               else if c = CHR ''}'' then scan ranged EndValue rest cs else False)
      | EndKey \<Rightarrow> if c = CHR '':'' then scan ranged BeginValue stack cs else False
      | BeginStringOrEmpty \<Rightarrow>
          if c = CHR ''}'' then scan ranged EndValue (tl stack) cs
          else if c = dquote then (case str_rest cs of None \<Rightarrow> False | Some r \<Rightarrow> scan ranged EndKey stack r) else False
      | BeginString \<Rightarrow>
          if c = dquote then (case str_rest cs of None \<Rightarrow> False | Some r \<Rightarrow> scan ranged EndKey stack r) else False
      | _ \<Rightarrow>
          if c = CHR '']'' \<and> st = BeginValueOrEmpty then scan ranged EndValue (tl stack) cs
          else if c = CHR ''['' then (if length stack < max_nesting then scan ranged BeginValueOrEmpty (InArray # stack) cs else False)
          else if c = CHR ''{'' then (if length stack < max_nesting then scan ranged BeginStringOrEmpty (InObject # stack) cs else False)
          else (case scalar_rest ranged (c # cs) of None \<Rightarrow> False | Some r \<Rightarrow> scan ranged EndValue stack r))"
  by pat_completeness auto
termination
  by (relation "measure (\<lambda>(ranged, st, stack, s). length s)")
    (auto simp: less_Suc_eq dest: str_rest_shorter scalar_rest_shorter)

declare scan.simps(2) [simp del]

text \<open>
  The scanner alone, as \<^verbatim>\<open>json.Compact\<close> runs it, does not look at the range of numbers;
  \<^verbatim>\<open>json.Unmarshal(data, &v) == nil\<close> for an empty interface \<^verbatim>\<open>v\<close> does.
\<close>

definition json_syntax :: "string \<Rightarrow> bool" where
  "json_syntax s \<longleftrightarrow> scan False BeginValue [] s"

definition valid_json :: "string \<Rightarrow> bool" where
  "valid_json s \<longleftrightarrow> scan True BeginValue [] s"

end
