(* ===== verification/Json_Valid.thy ===== *)
theory Json_Valid
  imports Json_Reader
begin

text \<open>
  Whatever \<open>render\<close> prints, the scanner accepts: the text of a marshalled value is valid JSON.
\<close>

section \<open>Strings\<close>

lemma str_rest_quote [simp]: "str_rest (dquote # s) = Some s"
  by (simp add: str_rest.simps)

lemma str_rest_plain: "c \<noteq> dquote \<Longrightarrow> c \<noteq> backslash \<Longrightarrow> 32 \<le> byte c \<Longrightarrow> str_rest (c # s) = str_rest s"
  by (simp add: str_rest.simps)

lemma str_rest_short: "e \<in> set (dquote # backslash # ''/bfnrt'') \<Longrightarrow> str_rest (backslash # e # s) = str_rest s"
  by (auto simp: str_rest.simps)

lemma str_rest_unicode: "length h = 4 \<Longrightarrow> list_all hex_digit h \<Longrightarrow> str_rest (backslash # CHR ''u'' # h @ s) = str_rest s"
  by (simp add: str_rest.simps)

lemma hextable_hex: "n < 16 \<Longrightarrow> hex_digit (hextable ! n)"
proof -
  assume "n < 16"
  then have "hextable ! n \<in> set hextable" by (simp add: hextable_facts)
  moreover have "\<forall>c \<in> set hextable. hex_digit c" by (simp add: hextable_def hex_digit_def is_digit_def)
  ultimately show ?thesis by blast
qed

lemma hex_byte_hex: "list_all hex_digit (hex_byte c)"
  by (simp add: hex_byte_def hextable_hex nibbles)

lemma str_rest_esc_ascii:
  assumes "byte c < 128"
  shows "str_rest (esc_ascii c @ s) = str_rest s"
proof -
  have u: "str_rest (backslash # CHR ''u'' # CHR ''0'' # CHR ''0'' # hex_byte c @ s) = str_rest s"
    using str_rest_unicode [of "''00'' @ hex_byte c" s] hex_byte_hex [of c]
    by (simp add: hex_digit_def is_digit_def)
  show ?thesis
    by (auto simp: esc_ascii_def str_rest_short str_rest_plain u)
qed

lemma str_rest_bytes: "\<forall>x \<in> set xs. 128 \<le> byte x \<Longrightarrow> str_rest (xs @ s) = str_rest s"
proof (induction xs)
  case (Cons x xs)
  then have "128 \<le> byte x" by simp
  then have "x \<noteq> dquote" "x \<noteq> backslash" "32 \<le> byte x" by auto
  then show ?case using Cons by (simp add: str_rest_plain)
qed simp

lemma str_rest_named:
  "str_rest (backslash # ''ufffd'' @ s) = str_rest s" "str_rest (backslash # ''u2028'' @ s) = str_rest s"
  "str_rest (backslash # ''u2029'' @ s) = str_rest s"
  using str_rest_unicode [of "''fffd''"] str_rest_unicode [of "''2028''"] str_rest_unicode [of "''2029''"]
  by (simp_all add: hex_digit_def is_digit_def)

lemma str_rest_escape: "str_rest (escape s @ dquote # r) = Some r"
proof (induction s rule: escape.induct)
  case (2 c cs)
  show ?case
  proof (cases "byte c < 128")
    case True
    then show ?thesis using 2(1) by (simp add: escape.simps str_rest_esc_ascii)
  next
    case False
    show ?thesis
    proof (cases "rune_len (c # cs) = 0")
      case True
      then show ?thesis using 2(2) False str_rest_named(1) by (simp add: escape.simps)
    next
      case rune: False
      consider (a) "take 3 (c # cs) = [CHR 0xE2, CHR 0x80, CHR 0xA8]"
        | (b) "take 3 (c # cs) \<noteq> [CHR 0xE2, CHR 0x80, CHR 0xA8]" "take 3 (c # cs) = [CHR 0xE2, CHR 0x80, CHR 0xA9]"
        | (c) "take 3 (c # cs) \<noteq> [CHR 0xE2, CHR 0x80, CHR 0xA8]" "take 3 (c # cs) \<noteq> [CHR 0xE2, CHR 0x80, CHR 0xA9]"
        by blast
      then show ?thesis
      proof cases
        case a
        show ?thesis
          using 2(3) [OF False rune a] escape_cases(1) [OF False rune a] str_rest_named(2) by simp
      next
        case b
        show ?thesis
          using 2(4) [OF False rune b] escape_cases(2) [OF False rune b(2)] str_rest_named(3) by simp
      next
        case c
        have "\<forall>x \<in> set (take (rune_len (c # cs)) (c # cs)). 128 \<le> byte x"
          using rune_bytes [of c _ cs] False by (metis not_le)
        then show ?thesis
          using 2(5) [OF False rune c] by (simp only: escape_cases(3) [OF False rune c] append_assoc str_rest_bytes)
      qed
    qed
  qed
qed (simp add: escape.simps)

section \<open>Numbers\<close>

text \<open>What may follow a value inside a text: the end, a comma or a closing bracket.\<close>

definition delim :: "string \<Rightarrow> bool" where
  "delim s \<longleftrightarrow> (case s of [] \<Rightarrow> True | c # _ \<Rightarrow> c = CHR '','' \<or> c = CHR '']'' \<or> c = CHR ''}'')"

lemma delim_simps [simp]:
  "delim []" "delim (CHR '','' # s)" "delim (CHR '']'' # s)" "delim (CHR ''}'' # s)"
  by (simp_all add: delim_def)

lemma delim_no_digit: "delim (c # s) \<Longrightarrow> \<not> is_digit c \<and> c \<noteq> CHR ''.'' \<and> c \<noteq> CHR ''e'' \<and> c \<noteq> CHR ''E''"
  by (auto simp: delim_def is_digit_def)

lemma delim_parts: "delim s \<Longrightarrow> fraction_part s = Some ('''', s) \<and> exponent_part s = Some (0, s)"
  by (cases s) (auto simp: fraction_part_def exponent_part_def dest: delim_no_digit)

lemma digits_append: "\<forall>c \<in> set ds. is_digit c \<Longrightarrow> delim s \<Longrightarrow> digits (ds @ s) = (ds, s)"
  by (cases s) (auto simp: digits_def takeWhile_append dropWhile_append dest: delim_no_digit)

lemma fmt_nat_head: "0 < n \<Longrightarrow> hd (fmt_nat n) \<noteq> CHR ''0''"
proof (induction n rule: fmt_nat.induct)
  case (1 n)
  show ?case
  proof (cases "n < 10")
    case True
    have "digit_val (digit_char n) = n" using True by simp
    moreover have "digit_val CHR ''0'' = 0" by (simp add: digit_val_def)
    ultimately have "digit_char n \<noteq> CHR ''0''" using 1(2) by (intro notI) simp
    then show ?thesis using True by (simp add: fmt_nat.simps [of n])
  next
    case False
    then have "hd (fmt_nat n) = hd (fmt_nat (n div 10))" by (subst fmt_nat.simps) simp
    with False 1 show ?thesis by simp
  qed
qed

lemma int_part_fmt_nat: "delim s \<Longrightarrow> int_part (fmt_nat n @ s) = Some (fmt_nat n, s)"
proof (cases "n = 0")
  case True
  then show ?thesis by (simp add: fmt_eval int_part_def)
next
  case False
  assume d: "delim s"
  obtain c cs where f: "fmt_nat n = c # cs" by (cases "fmt_nat n") auto
  then have "c \<noteq> CHR ''0''" "is_digit c" using fmt_nat_head [of n] fmt_nat_digits [of n] False by auto
  then have "int_part (fmt_nat n @ s) = Some (digits (fmt_nat n @ s))" using f by (simp add: int_part_def)
  also have "\<dots> = Some (fmt_nat n, s)" using digits_append [OF fmt_nat_digits d] by simp
  finally show ?thesis .
qed

text \<open>The integers of the schema are at most 64 bits wide, far below the range of float64.\<close>

definition int64_range :: "int \<Rightarrow> bool" where
  "int64_range i \<longleftrightarrow> \<bar>i\<bar> < 2 ^ 64"

lemma no_overflow:
  assumes "n < 2 ^ 64"
  shows "\<not> f64_overflow n 0"
proof -
  have "(2 :: nat) ^ 64 \<le> 2 ^ 1024 - 2 ^ 970" by simp
  then have "n < 2 ^ 1024 - 2 ^ 970" using assms by linarith
  then show ?thesis by (simp add: f64_overflow_def)
qed

lemma num_rest_fmt_nat:
  assumes "n < 2 ^ 64" and "delim s" and "t = fmt_nat n @ s \<or> t = CHR ''-'' # fmt_nat n @ s"
  shows "num_rest ranged t = Some s"
proof -
  obtain c cs where f: "fmt_nat n = c # cs" by (cases "fmt_nat n") auto
  then have "is_digit c" using fmt_nat_digits [of n] by auto
  then have "c \<noteq> CHR ''-''" by (auto simp: is_digit_def)
  then have "(if take 1 t = ''-'' then drop 1 t else t) = fmt_nat n @ s" using assms(3) f by auto
  then show ?thesis
    using int_part_fmt_nat [OF assms(2), of n] delim_parts [OF assms(2)] no_overflow [OF assms(1)]
    by (simp add: num_rest_def)
qed

lemma scalar_rest_int:
  assumes "int64_range i" and "delim s"
  shows "scalar_rest ranged (fmt_int i @ s) = Some s"
proof -
  obtain c cs where f: "fmt_nat (nat i) = c # cs" by (cases "fmt_nat (nat i)") auto
  then have d: "is_digit c" using fmt_nat_digits [of "nat i"] by auto
  then have q: "c \<noteq> dquote" by (auto simp: is_digit_def)
  have "nat i < 2 ^ 64" "nat (- i) < 2 ^ 64"
    using assms(1) by (auto simp: int64_range_def nat_less_iff)
  then have "num_rest ranged (fmt_int i @ s) = Some s"
    using num_rest_fmt_nat [OF _ assms(2)] by (auto simp: fmt_int_def)
  then show ?thesis
    using f d q by (auto simp: scalar_rest_def fmt_int_def)
qed

lemma scalar_rest_bool: "scalar_rest ranged ((if b then ''true'' else ''false'') @ s) = Some s"
  by (simp add: scalar_rest_def literal_rest_def is_digit_def)

lemma scalar_rest_string: "scalar_rest ranged (quote s @ r) = Some r"
  by (simp add: scalar_rest_def quote_def str_rest_escape)

section \<open>Values\<close>

text \<open>
  The nesting of a value, and the values without raw messages whose integers are in range.
\<close>

fun nesting :: "json \<Rightarrow> nat" where
  "nesting (JArray js) = Suc (foldr (\<lambda>j. max (nesting j)) js 0)"
| "nesting (JObject kvs) = Suc (foldr (\<lambda>kv. max (nesting (snd kv))) kvs 0)"
| "nesting _ = 0"

fun plain :: "json \<Rightarrow> bool" where
  "plain (JInt i) = int64_range i"
| "plain (JArray js) = list_all plain js"
| "plain (JObject kvs) = list_all (\<lambda>kv. plain (snd kv)) kvs"
| "plain (JRaw s) = False"
| "plain _ = True"

lemma not_blank [simp]:
  "\<not> blank (CHR '','')" "\<not> blank (CHR ''['')" "\<not> blank (CHR '']'')" "\<not> blank (CHR ''{'')" "\<not> blank (CHR ''}'')"
  "\<not> blank (CHR '':'')" "\<not> blank dquote"
  by (simp_all add: blank_def)

text \<open>The head of a printed value: neither blank nor a closing bracket, and a bracket only for arrays and objects.\<close>

lemma scan_scalar:
  assumes "scalar_rest ranged s = Some r" and "st = BeginValue \<or> st = BeginValueOrEmpty"
    and "s \<noteq> []" and "hd s \<notin> set '' []{}'' \<and> \<not> blank (hd s)"
  shows "scan ranged st stack s = scan ranged EndValue stack r"
proof -
  obtain c cs where s: "s = c # cs" using assms(3) by (cases s) auto
  then have "\<not> blank c" "c \<noteq> CHR ''['' \<and> c \<noteq> CHR '']'' \<and> c \<noteq> CHR ''{''" using assms(4) by auto
  with assms(2) show ?thesis by (elim disjE) (simp_all add: s scan.simps(2) assms(1) [unfolded s])
qed

lemma fmt_int_head: "fmt_int i \<noteq> [] \<and> (hd (fmt_int i) = CHR ''-'' \<or> is_digit (hd (fmt_int i)))"
  using fmt_nat_digits [of "nat i"] by (cases "fmt_nat (nat i)") (auto simp: fmt_int_def)

lemma scan_int:
  assumes "int64_range i" and "delim s" and "st = BeginValue \<or> st = BeginValueOrEmpty"
  shows "scan ranged st stack (fmt_int i @ s) = scan ranged EndValue stack s"
proof (rule scan_scalar [OF scalar_rest_int [OF assms(1,2)] assms(3)])
  show "fmt_int i @ s \<noteq> []" using fmt_int_head by simp
  show "hd (fmt_int i @ s) \<notin> set '' []{}'' \<and> \<not> blank (hd (fmt_int i @ s))"
    using fmt_int_head [of i] by (auto simp: blank_def is_digit_def)
qed

lemma scan_bool:
  "st = BeginValue \<or> st = BeginValueOrEmpty \<Longrightarrow>
   scan ranged st stack ((if b then ''true'' else ''false'') @ s) = scan ranged EndValue stack s"
  by (rule scan_scalar [OF scalar_rest_bool]) (auto simp: blank_def)

lemma scan_string:
  "st = BeginValue \<or> st = BeginValueOrEmpty \<Longrightarrow> scan ranged st stack (quote t @ s) = scan ranged EndValue stack s"
  by (rule scan_scalar [OF scalar_rest_string]) (auto simp: quote_def)

lemma scan_key:
  "st = BeginString \<or> st = BeginStringOrEmpty \<Longrightarrow> scan ranged st stack (quote k @ CHR '':'' # s) = scan ranged BeginValue stack s"
  by (auto simp: quote_def scan.simps(2) str_rest_escape)

text \<open>Printing a sequence with commas, for arrays and objects at once.\<close>

lemma scan_items:
  assumes "\<And>x s. x \<in> set (y # ys) \<Longrightarrow> delim s \<Longrightarrow> scan ranged later stack (f x @ s) = scan ranged EndValue stack s"
    and "\<And>s. delim s \<Longrightarrow> scan ranged first stack (f y @ s) = scan ranged EndValue stack s"
    and "\<And>s. scan ranged EndValue stack (CHR '','' # s) = scan ranged later stack s"
    and "delim s"
  shows "scan ranged first stack (join '','' (map f (y # ys)) @ s) = scan ranged EndValue stack s"
proof -
  have tail: "scan ranged EndValue stack (concat (map (\<lambda>v. '','' @ v) (map f zs)) @ s) = scan ranged EndValue stack s"
    if "set zs \<subseteq> set (y # ys)" for zs
    using that
  proof (induction zs)
    case (Cons z zs)
    let ?r = "concat (map (\<lambda>v. '','' @ v) (map f zs)) @ s"
    have "delim ?r" using assms(4) by (cases zs) simp_all
    then show ?case using Cons assms(1,3) by simp
  qed simp
  have "delim (concat (map (\<lambda>v. '','' @ v) (map f ys)) @ s)" using assms(4) by (cases ys) simp_all
  then have "scan ranged first stack (f y @ concat (map (\<lambda>v. '','' @ v) (map f ys)) @ s) = scan ranged EndValue stack s"
    using assms(2) tail [of ys] by (simp only: set_subset_Cons)
  then show ?thesis by (simp add: join_concat)
qed

lemma nesting_member:
  "j \<in> set js \<Longrightarrow> nesting j < nesting (JArray js)" "kv \<in> set kvs \<Longrightarrow> nesting (snd kv) < nesting (JObject kvs)"
proof -
  show "j \<in> set js \<Longrightarrow> nesting j < nesting (JArray js)"
    by (induction js) (auto simp: less_Suc_eq_le max_def)
  show "kv \<in> set kvs \<Longrightarrow> nesting (snd kv) < nesting (JObject kvs)"
    by (induction kvs) (auto simp: less_Suc_eq_le max_def)
qed

lemma scan_render:
  assumes "plain j" and "length stack + nesting j \<le> max_nesting" and "delim s"
    and "st = BeginValue \<or> st = BeginValueOrEmpty"
  shows "scan ranged st stack (render j @ s) = scan ranged EndValue stack s"
  using assms
proof (induction j arbitrary: stack s st)
  case (JArray js)
  let ?stack = "InArray # stack"
  have room: "length stack < max_nesting" using JArray.prems(2) by simp
  have member: "scan ranged st' ?stack (render x @ r) = scan ranged EndValue ?stack r"
    if "x \<in> set js" "delim r" "st' = BeginValue \<or> st' = BeginValueOrEmpty" for x r st'
    using JArray.IH [OF that(1), of ?stack r st'] that JArray.prems nesting_member(1) [OF that(1)]
    by (simp add: list_all_iff)
  have "scan ranged st stack (render (JArray js) @ s) = scan ranged BeginValueOrEmpty ?stack (join '','' (map render js) @ '']'' @ s)"
    using JArray.prems(4) room by (elim disjE) (simp_all add: scan.simps(2))
  also have "\<dots> = scan ranged EndValue stack s"
  proof (cases js)
    case Nil
    then show ?thesis by (simp add: scan.simps(2))
  next
    case (Cons y ys)
    have "scan ranged BeginValueOrEmpty ?stack (join '','' (map render (y # ys)) @ '']'' @ s) = scan ranged EndValue ?stack ('']'' @ s)"
      by (rule scan_items [where later = BeginValue]) (use member Cons in \<open>auto simp: scan.simps(2)\<close>)
    then show ?thesis using Cons by (simp add: scan.simps(2))
  qed
  finally show ?case .
next
  case (JObject kvs)
  let ?stack = "InObject # stack" and ?f = "\<lambda>(k, v). quote k @ '':'' @ render v"
  have room: "length stack < max_nesting" using JObject.prems(2) by simp
  have member: "scan ranged st' ?stack (?f kv @ r) = scan ranged EndValue ?stack r"
    if "kv \<in> set kvs" "delim r" "st' = BeginString \<or> st' = BeginStringOrEmpty" for kv r st'
  proof -
    obtain k v where kv: "kv = (k, v)" by fastforce
    then have v: "v \<in> Basic_BNFs.snds kv" by simp
    have "scan ranged BeginValue ?stack (render v @ r) = scan ranged EndValue ?stack r"
      using JObject.IH [OF that(1) v, of ?stack r BeginValue] that JObject.prems nesting_member(2) [OF that(1)] kv
      by (auto simp: list_all_iff)
    then show ?thesis using kv scan_key [OF that(3)] by simp
  qed
  have "scan ranged st stack (render (JObject kvs) @ s) = scan ranged BeginStringOrEmpty ?stack (join '','' (map ?f kvs) @ ''}'' @ s)"
    using JObject.prems(4) room by (elim disjE) (simp_all add: scan.simps(2))
  also have "\<dots> = scan ranged EndValue stack s"
  proof (cases kvs)
    case Nil
    then show ?thesis by (simp add: scan.simps(2))
  next
    case (Cons y ys)
    have "scan ranged BeginStringOrEmpty ?stack (join '','' (map ?f (y # ys)) @ ''}'' @ s) = scan ranged EndValue ?stack (''}'' @ s)"
      by (rule scan_items [where later = BeginString]) (use member Cons in \<open>auto simp: scan.simps(2)\<close>)
    then show ?thesis using Cons by (simp add: scan.simps(2))
  qed
  finally show ?case .
qed (auto simp: scan_int scan_bool scan_string simp del: append.simps)

lemma render_valid: "\<lbrakk>plain j; nesting j \<le> max_nesting\<rbrakk> \<Longrightarrow> valid_json (render j)"
  using scan_render [of j "[]" "''''" BeginValue True] by (simp add: valid_json_def)

end
