(* ===== verification/Data_Log.thy ===== *)
theory Data_Log
  imports Data_Transform Json_Valid Pipeline
begin

text \<open>
  The data transformation log of \<^verbatim>\<open>writeToKafka\<close> in \<^verbatim>\<open>cmd/consumer/main.go\<close>: which fields the line of an event
  has, the indented form of the schema, and \<^verbatim>\<open>isValidJSON\<close>; and that the messages in JSON format are valid JSON.  The names of the
  fields (Chinese text in the code) are the constructors of \<open>log_field\<close>.
\<close>

section \<open>Indented JSON\<close>

text \<open>
  \<^verbatim>\<open>json.Indent\<close> with two blanks, as \<^verbatim>\<open>json.MarshalIndent\<close> applies it: \<open>need\<close> is the delayed indentation after an opening
  bracket, \<open>in_str\<close> whether the position is inside a string.
\<close>

definition newline :: "nat \<Rightarrow> string" where
  "newline depth = CHR 0x0A # replicate (2 * depth) (CHR '' '')"

fun indent :: "nat \<Rightarrow> bool \<Rightarrow> bool \<Rightarrow> string \<Rightarrow> string" where
  "indent depth need in_str [] = []"
| "indent depth need True (c # cs) =
     (if c = backslash then c # take 1 cs @ indent depth need True (drop 1 cs)
      else c # indent depth need (c \<noteq> dquote) cs)"
| "indent depth need False (c # cs) =
     (if blank c then indent depth need False cs
      else if c = CHR ''}'' \<or> c = CHR '']'' then
        (if need then c # indent depth False False cs
         else newline (depth - 1) @ c # indent (depth - 1) False False cs)
      else
        (let d = (if need then Suc depth else depth)
         in (if need then newline d else []) @
            (if c = CHR ''{'' \<or> c = CHR ''['' then c # indent d True False cs
             else if c = CHR '','' then c # newline d @ indent d False False cs
             else if c = CHR '':'' then c # CHR '' '' # indent d False False cs
             else c # indent d False (c = dquote) cs)))"

text \<open>\<^verbatim>\<open>json.MarshalIndent(schema, "", "  ")\<close>; an invalid raw message is an error, which the caller ignores.\<close>

definition MarshalIndent :: "EventSchema \<Rightarrow> string" where
  "MarshalIndent schema =
     (if Raw schema \<noteq> '''' \<and> \<not> json_syntax (Raw schema) then '''' else indent 0 False False (ToJSON schema))"

section \<open>The log line\<close>

definition isValidJSON :: "string \<Rightarrow> bool" where
  "isValidJSON jsonBytes = valid_json jsonBytes"

datatype log_field =
    EventTypeField string | TraceIDField string | NodeField string
  | OriginalJSON string | OriginalSize nat
  | NormalizedJSON string | NormalizedSize nat
  | FinalJSON string | FinalSize nat | FinalIsValid bool

text \<open>The original event, indented by the serialiser given; an error leaves it empty.\<close>

definition original_json :: "(event \<Rightarrow> 'e + string) \<Rightarrow> DataTransformLogConfig \<Rightarrow> event \<Rightarrow> string" where
  "original_json protojson_indent cfg event =
     (if DataTransform_Enabled cfg \<and> LogOriginal cfg
      then (case protojson_indent event of Inr s \<Rightarrow> s | Inl _ \<Rightarrow> '''') else '''')"

text \<open>The fields of a line, each form with its length when it is configured and not empty.\<close>

definition log_fields ::
  "DataTransformLogConfig \<Rightarrow> string \<Rightarrow> string \<Rightarrow> string \<Rightarrow> string \<Rightarrow> EventSchema \<Rightarrow> log_field list" where
  "log_fields cfg originalJSON eventType format val schema =
     (let normalizedJSON = (if LogNormalized cfg then MarshalIndent schema else []);
          finalJSON = (if LogFinal cfg \<and> format = ''json'' then val else [])
      in [EventTypeField eventType, TraceIDField (TraceID schema), NodeField (Node schema)] @
         (if LogOriginal cfg \<and> length originalJSON > 0
          then [OriginalJSON originalJSON, OriginalSize (length originalJSON)] else []) @
         (if LogNormalized cfg \<and> length normalizedJSON > 0
          then [NormalizedJSON normalizedJSON, NormalizedSize (length normalizedJSON)] else []) @
         (if LogFinal cfg \<and> length finalJSON > 0
          then [FinalJSON finalJSON, FinalSize (length finalJSON), FinalIsValid (isValidJSON finalJSON)] else []))"

text \<open>The line, \<open>None\<close> when none is logged.\<close>

definition data_transform_log ::
  "DataTransformLogConfig \<Rightarrow> string \<Rightarrow> string \<Rightarrow> string \<Rightarrow> string \<Rightarrow> EventSchema \<Rightarrow> log_field list option" where
  "data_transform_log cfg originalJSON eventType format val schema =
     (if DataTransform_Enabled cfg then
        (if shouldLogDataTransform (TraceID schema) (DataTransform_SampleRatio cfg)
         then Some (log_fields cfg originalJSON eventType format val schema) else None)
      else None)"

text \<open>
  The line of one event in the loop of \<^verbatim>\<open>writeToKafka\<close>: what \<open>writeToKafka_event\<close> does up to the serialised value, and then the
  log.  An event that cannot be normalised or serialised has no line.
\<close>

definition event_log_line ::
  "(event \<Rightarrow> 'e + string) \<Rightarrow> (event \<Rightarrow> 'e + string) \<Rightarrow> (event \<Rightarrow> 'e + string) \<Rightarrow> Config \<Rightarrow> i64 \<Rightarrow> string \<Rightarrow> event
    \<Rightarrow> log_field list option" where
  "event_log_line protojson protojson_indent protobytes cfg now rnd event =
     (let loggerCfg = DataTransform (Logger cfg);
          eventType = DetectEventType event;
          originalJSON = original_json protojson_indent loggerCfg event
      in case Normalize protojson now rnd event of
           Inl err \<Rightarrow> None
         | Inr schema \<Rightarrow>
             (let format = (if Schema_Format (Schema cfg) = '''' then ''json'' else Schema_Format (Schema cfg))
              in case serialize protobytes (Schema cfg) event schema of
                   (Inl err, _) \<Rightarrow> None
                 | (Inr val, _) \<Rightarrow> data_transform_log loggerCfg originalJSON eventType format val schema))"

section \<open>Indenting changes only blanks\<close>

lemma compact_blanks: "\<forall>c \<in> set bs. blank c \<Longrightarrow> compact False (bs @ s) = compact False s"
  by (induction bs) (auto simp: blank_def)

lemma compact_newline [simp]: "compact False (newline d @ s) = compact False s"
  by (rule compact_blanks) (auto simp: newline_def blank_def)

lemma compact_blank [simp]: "blank c \<Longrightarrow> compact False (c # s) = compact False s"
  by (auto simp: blank_def)

lemma compact_other: "\<not> blank c \<Longrightarrow> compact False (c # s) = c # compact (c = dquote) s"
  by (auto simp: blank_def)

lemma indent_in_str: "c \<noteq> backslash \<Longrightarrow> c \<noteq> dquote \<Longrightarrow> indent d n True (c # cs) = c # indent d n True cs"
  by simp

lemma indent_take2: "x \<noteq> backslash \<Longrightarrow> x \<noteq> dquote \<Longrightarrow> take 2 (indent d n True cs) = [x, y] \<longleftrightarrow> take 2 cs = [x, y]"
  by (cases cs; cases "tl cs") (auto simp: numeral_2_eq_2 split: if_splits)

lemma take_3_Cons: "take 3 (c # cs) = [a, x, y] \<longleftrightarrow> c = a \<and> take 2 cs = [x, y]"
  by (simp add: numeral_3_eq_3 numeral_2_eq_2)

lemma take_2_eq: "take 2 cs = [x, y] \<Longrightarrow> cs = x # y # drop 2 cs"
  by (metis append_Cons append_Nil append_take_drop_id)

text \<open>What \<open>compact\<close> does inside a string, by the next characters.\<close>

lemma compact_char:
  assumes "c \<noteq> backslash" and "c \<noteq> dquote"
  shows "html c \<Longrightarrow> compact True (c # cs) = backslash # ''u00'' @ hex_byte c @ compact True cs"
    and "\<not> html c \<Longrightarrow> take 3 (c # cs) = [CHR 0xE2, CHR 0x80, CHR 0xA8] \<Longrightarrow>
      compact True (c # cs) = backslash # ''u2028'' @ compact True (drop 2 cs)"
    and "\<not> html c \<Longrightarrow> take 3 (c # cs) = [CHR 0xE2, CHR 0x80, CHR 0xA9] \<Longrightarrow>
      compact True (c # cs) = backslash # ''u2029'' @ compact True (drop 2 cs)"
    and "\<not> html c \<Longrightarrow> take 3 (c # cs) \<noteq> [CHR 0xE2, CHR 0x80, CHR 0xA8] \<Longrightarrow> take 3 (c # cs) \<noteq> [CHR 0xE2, CHR 0x80, CHR 0xA9] \<Longrightarrow>
      compact True (c # cs) = c # compact True cs"
  using assms by (simp_all only: compact.simps if_False if_True) simp_all

lemma compact_indent_char:
  assumes "c \<noteq> backslash" and "c \<noteq> dquote" and "compact True (indent d n True cs) = compact True cs"
    and "compact True (indent d n True (drop 2 cs)) = compact True (drop 2 cs)"
  shows "compact True (c # indent d n True cs) = compact True (c # cs)"
proof -
  have sep: "take 3 (c # indent d n True cs) = [CHR 0xE2, CHR 0x80, z] \<longleftrightarrow> take 3 (c # cs) = [CHR 0xE2, CHR 0x80, z]" for z
    using indent_take2 [of "CHR 0x80" d n cs z] by (simp add: take_3_Cons)
  have rest: "compact True (drop 2 (indent d n True cs)) = compact True (drop 2 cs)"
    if "take 3 (c # cs) = [CHR 0xE2, CHR 0x80, z]" "z \<noteq> backslash" "z \<noteq> dquote" for z
  proof -
    have two: "take 2 cs = [CHR 0x80, z]" using that(1) by (simp only: take_3_Cons)
    then obtain r where cs: "cs = CHR 0x80 # z # r" "r = drop 2 cs" using take_2_eq [OF two] by blast
    have "indent d n True (CHR 0x80 # z # r) = CHR 0x80 # z # indent d n True r" using that(2,3) by simp
    then have "drop 2 (indent d n True cs) = indent d n True r" using cs(1) by simp
    then show ?thesis using assms(4) cs(2) by simp
  qed
  consider (html) "html c" | (a) "\<not> html c" "take 3 (c # cs) = [CHR 0xE2, CHR 0x80, CHR 0xA8]"
    | (b) "\<not> html c" "take 3 (c # cs) = [CHR 0xE2, CHR 0x80, CHR 0xA9]"
    | (other) "\<not> html c" "take 3 (c # cs) \<noteq> [CHR 0xE2, CHR 0x80, CHR 0xA8]" "take 3 (c # cs) \<noteq> [CHR 0xE2, CHR 0x80, CHR 0xA9]"
    by blast
  then show ?thesis
  proof cases
    case html
    then show ?thesis using compact_char(1) [OF assms(1,2)] assms(3) by simp
  next
    case a
    have "compact True (drop 2 (indent d n True cs)) = compact True (drop 2 cs)" by (rule rest [OF a(2)]) simp_all
    then show ?thesis using compact_char(2) [OF assms(1,2) a(1)] a(2) sep by simp
  next
    case b
    have "compact True (drop 2 (indent d n True cs)) = compact True (drop 2 cs)" by (rule rest [OF b(2)]) simp_all
    then show ?thesis using compact_char(3) [OF assms(1,2) b(1)] b(2) sep by simp
  next
    case other
    have "compact True (c # indent d n True cs) = c # compact True (indent d n True cs)"
      by (rule compact_char(4) [OF assms(1,2) other(1)]) (use other(2,3) sep in blast)+
    also have "\<dots> = compact True (c # cs)" by (simp only: compact_char(4) [OF assms(1,2) other] assms(3))
    finally show ?thesis .
  qed
qed

lemma compact_indent_both:
  "compact True (indent d n True s) = compact True s \<and> compact False (indent d n False s) = compact False s"
proof (induction s arbitrary: d n rule: length_induct)
  case (1 s)
  show ?case
  proof (cases s)
    case (Cons c cs)
    have T: "compact True (indent d n True t) = compact True t" and F: "compact False (indent d n False t) = compact False t"
      if "length t \<le> length cs" for t d n
      using 1 that Cons by simp_all
    have "compact True (indent d n True s) = compact True s"
    proof (cases "c = backslash")
      case True
      then show ?thesis using Cons T [of "drop 1 cs"] by (cases cs) simp_all
    next
      case False
      show ?thesis
      proof (cases "c = dquote")
        case True
        then show ?thesis using Cons F [of cs] by (simp add: html_def)
      next
        case False
        then show ?thesis using Cons \<open>c \<noteq> backslash\<close> compact_indent_char [OF \<open>c \<noteq> backslash\<close> False T T] by simp
      qed
    qed
    moreover have "compact False (indent d n False s) = compact False s"
    proof (cases "blank c")
      case False
      have "compact b (indent d n b cs) = compact b cs" for b d n using T [of cs] F [of cs] by (cases b) simp_all
      with False show ?thesis using Cons by (auto simp: compact_other Let_def)
    next
      case True
      then show ?thesis using Cons F [of cs] by (simp del: compact.simps)
    qed
    ultimately show ?thesis by blast
  qed simp
qed

lemma indent_nonempty: "s \<noteq> [] \<Longrightarrow> \<not> blank (hd s) \<Longrightarrow> indent d n False s \<noteq> []"
  by (cases s) (auto simp: Let_def newline_def)

section \<open>The messages are valid JSON\<close>

lemma plain_fallback:
  assumes "Normalize protojson now rnd e = Inr schema" and "Raw schema = ''''"
  shows "plain (schema_json schema) \<and> nesting (schema_json schema) \<le> 2"
proof -
  have "schema = \<lparr>SchemaVersion = 1, Type = Type schema, Timestamp = Timestamp schema, TraceID = TraceID schema,
      Node = Node schema, Raw = '''',
      Raw_Meta = Some \<lparr>rm_Format = ''json_map'', rm_SizeBytes = 0, rm_Hash = '''', rm_Redacted = False\<rparr>,
      K8s = None, Process = None, Network = None, Labels = [], Extra = []\<rparr>"
    using assms by (auto simp: Normalize_eq split: sum.splits)
  then obtain ty ts tr nd where s: "schema = \<lparr>SchemaVersion = 1, Type = ty, Timestamp = ts, TraceID = tr,
      Node = nd, Raw = '''',
      Raw_Meta = Some \<lparr>rm_Format = ''json_map'', rm_SizeBytes = 0, rm_Hash = '''', rm_Redacted = False\<rparr>,
      K8s = None, Process = None, Network = None, Labels = [], Extra = []\<rparr>" by blast
  show ?thesis
    by (simp add: s schema_json_def json_RawMeta_def omitempty_str_def omitempty_ptr_def omitempty_map_def int64_range_def)
qed

text \<open>
  C8: Messages are valid JSON.  In JSON format, provided the serialiser's own texts are valid JSON or empty, the value of every
  message is a non-empty text that \<^verbatim>\<open>isValidJSON\<close> accepts, also when the raw form is empty and the schema itself is sent.
\<close>

theorem json_messages_valid:
  assumes "Normalize protojson now rnd e = Inr schema" and "Raw schema = '''' \<or> valid_json (Raw schema)"
    and "Schema_Format cfg \<noteq> ''protobuf''"
  shows "\<exists>v. serialize protobytes cfg e schema = (Inr v, ''application/json'') \<and> v \<noteq> '''' \<and> isValidJSON v"
proof (cases "Raw schema = ''''")
  case True
  have "valid_json (ToJSON schema)"
    using plain_fallback [OF assms(1) True] by (simp add: ToJSON_def max_nesting_def render_valid)
  moreover have "ToJSON schema \<noteq> ''''" by (simp add: ToJSON_def schema_json_def)
  ultimately show ?thesis using True assms(3) by (simp add: serialize_def isValidJSON_def Let_def)
next
  case False
  then show ?thesis using assms(2,3) by (simp add: serialize_def isValidJSON_def Let_def)
qed

theorem json_messages_valid_witness:
  "\<exists>schema v. Normalize (\<lambda>_ :: event. (Inr [] :: unit + string)) 7 ''r'' example_event = Inr schema \<and>
     serialize (\<lambda>_ :: event. (Inl () :: unit + string)) (Schema DefaultConfig) example_event schema = (Inr v, ''application/json'') \<and>
     isValidJSON v"
proof -
  obtain schema where s: "Normalize (\<lambda>_ :: event. (Inr [] :: unit + string)) 7 ''r'' example_event = Inr schema"
    "Raw schema = []" by (simp add: Normalize_eq)
  have "Schema_Format (Schema DefaultConfig) \<noteq> ''protobuf''" by (simp add: DefaultConfig_def)
  with json_messages_valid [OF s(1)] s show ?thesis by blast
qed

lemma compact_MarshalIndent:
  "MarshalIndent schema \<noteq> [] \<Longrightarrow> compact False (MarshalIndent schema) = compact False (ToJSON schema)"
  using compact_indent_both [of 0 False "ToJSON schema"] by (auto simp: MarshalIndent_def split: if_splits)

lemma num_rest_unranged: "num_rest True s = Some r \<Longrightarrow> num_rest False s = Some r"
  by (auto simp: num_rest_def split: option.splits if_splits)

lemma scalar_rest_unranged: "scalar_rest True s = Some r \<Longrightarrow> scalar_rest False s = Some r"
  by (auto simp: scalar_rest_def num_rest_unranged split: list.splits if_splits)

lemma scan_unranged: "scan True st stack s \<Longrightarrow> scan False st stack s"
proof (induction "True" st stack s rule: scan.induct)
  case (2 st stack c cs)
  then show ?case
    by (cases st) (auto simp: scan.simps(2) dest: scalar_rest_unranged
        split: if_splits list.splits bracket.splits option.splits)
qed simp

lemma valid_json_syntax: "valid_json s \<Longrightarrow> json_syntax s \<and> s \<noteq> []"
  using scan_unranged [of BeginValue "[]" s] by (auto simp: valid_json_def json_syntax_def)

lemma MarshalIndent_nonempty:
  assumes "json_syntax (Raw schema)"
  shows "MarshalIndent schema \<noteq> []"
proof -
  have "ToJSON schema \<noteq> []" "\<not> blank (hd (ToJSON schema))"
    by (simp_all add: ToJSON_def schema_json_def)
  then show ?thesis using assms by (simp add: MarshalIndent_def indent_nonempty)
qed

text \<open>
  C33: The data transformation log.  In JSON format, and as the serialiser's texts are valid JSON, the line of an event whose message was put into the
  writer's channel is logged exactly when the log is enabled and the trace id of the message is in the sample.  It has the message's event type and
  trace id and the event's node, and then, each only when configured and with its length, the original event, the normalised schema up to blanks
  and escapes, and the very value of the message, marked as valid JSON.
\<close>

theorem data_transform_line:
  assumes "\<forall>event raw. protojson event = Inr raw \<longrightarrow> valid_json raw" and "Schema_Format (Schema cfg) \<in> {'''', ''json''}"
    and "writeToKafka_event protojson protobytes cfg r True now rnd e (w, m) = (res, w', m')"
    and "chan_buf (w_messageCh w') = chan_buf (w_messageCh w) @ [msg]"
  shows "\<exists>schema norm. Normalize protojson now rnd e = Inr schema \<and>
    norm \<noteq> '''' \<and> compact False norm = compact False (ToJSON schema) \<and>
    event_log_line protojson protojson_indent protobytes cfg now rnd e =
      (let log = DataTransform (Logger cfg); orig = (case protojson_indent e of Inr s \<Rightarrow> s | Inl _ \<Rightarrow> '''')
       in if DataTransform_Enabled log \<and> shouldLogDataTransform (msg_TraceID msg) (DataTransform_SampleRatio log)
          then Some (
            [EventTypeField (msg_EventType msg), TraceIDField (msg_TraceID msg), NodeField (GetEventNode e)] @
            (if LogOriginal log \<and> orig \<noteq> '''' then [OriginalJSON orig, OriginalSize (length orig)] else []) @
            (if LogNormalized log then [NormalizedJSON norm, NormalizedSize (length norm)] else []) @
            (if LogFinal log
             then [FinalJSON (msg_Value msg), FinalSize (length (msg_Value msg)), FinalIsValid True] else []))
          else None)"
proof -
  obtain schema where n: "Normalize protojson now rnd e = Inr schema"
    using assms(3,4) by (cases "Normalize protojson now rnd e") (auto simp: writeToKafka_event_def)
  then have "valid_json (Raw schema)" and node: "Node schema = GetEventNode e"
    using assms(1) by (auto simp: Normalize_eq split: sum.splits)
  note raw = this(1) valid_json_syntax [OF this(1)]
  have s: "serialize protobytes (Schema cfg) e schema = (Inr (Raw schema), ''application/json'')"
    using assms(2) raw by (auto simp: serialize_def)
  have msg: "msg_EventType msg = DetectEventType e" "msg_TraceID msg = TraceID schema" "msg_Value msg = Raw schema"
    using assms(3,4) by (auto simp: writeToKafka_event_def n s deliver_def Let_def Write_def chan_send_def split: if_splits)
  note norm = MarshalIndent_nonempty [OF conjunct1 [OF raw(2)]]
  have "event_log_line protojson protojson_indent protobytes cfg now rnd e =
    data_transform_log (DataTransform (Logger cfg)) (original_json protojson_indent (DataTransform (Logger cfg)) e)
      (DetectEventType e) ''json'' (Raw schema) schema"
    using assms(2) by (auto simp: event_log_line_def n s Let_def)
  then show ?thesis
    using n norm compact_MarshalIndent [OF norm] raw
    by (intro exI [of _ schema] exI [of _ "MarshalIndent schema"])
      (simp add: data_transform_log_def log_fields_def original_json_def isValidJSON_def msg node Let_def)
qed

text \<open>A configuration that logs everything.\<close>

definition logging_config :: Config where
  "logging_config = DefaultConfig\<lparr>Logger := (Logger DefaultConfig)\<lparr>DataTransform :=
     \<lparr>DataTransform_Enabled = True, DataTransform_SampleRatio = Fin 1, LogOriginal = True, LogNormalized = False, LogFinal = True\<rparr>\<rparr>\<rparr>"

theorem data_transform_line_witness:
  "event_log_line (\<lambda>_ :: event. (Inr ''{}'' :: unit + string)) (\<lambda>_. Inr ''{ }'') (\<lambda>_. Inl ()) logging_config 7 ''r'' example_event =
     Some [EventTypeField (DetectEventType example_event), TraceIDField (generateTraceID ''r''), NodeField (GetEventNode example_event),
       OriginalJSON ''{ }'', OriginalSize 3, FinalJSON ''{}'', FinalSize 2, FinalIsValid True]"
proof -
  let ?json = "\<lambda>_ :: event. (Inr ''{}'' :: unit + string)" and ?bytes = "\<lambda>_ :: event. (Inl () :: unit + string)"
  let ?w = "\<lparr>w_messageCh = make_chan 1, w_closeOnce = False\<rparr>"
  have v: "valid_json ''{}''" by (simp add: valid_json_def scan.simps(2) max_nesting_def)
  have f: "Schema_Format (Schema logging_config) \<in> {'''', ''json''}" by (simp add: logging_config_def DefaultConfig_def)
  obtain schema where n: "Normalize ?json 7 ''r'' example_event = Inr schema" "TraceID schema = generateTraceID ''r''"
    "Raw schema = ''{}''" by (simp add: Normalize_eq generateTraceID_def)
  let ?r = "NewRouter Map.empty"
  let ?msg = "\<lparr>msg_Event = Some example_event, msg_EventType = DetectEventType example_event,
    msg_ContentType = ''application/json'', msg_Topic = Route ?r example_event,
    msg_Key = GenerateDedupKey example_event (PartitionKey (Routing logging_config)), msg_Value = ''{}'',
    msg_TraceID = generateTraceID ''r''\<rparr>"
  obtain res w' m' where out:
    "writeToKafka_event ?json ?bytes logging_config ?r True 7 ''r'' example_event (?w, metrics_init) = (res, w', m')"
    by (metis prod_cases3)
  have ser: "serialize ?bytes (Schema logging_config) example_event schema = (Inr ''{}'', ''application/json'')"
    using f n(3) by (auto simp: serialize_def)
  have "chan_buf (w_messageCh w') = chan_buf (w_messageCh ?w) @ [?msg]"
    using out n by (auto simp: writeToKafka_event_def ser deliver_def Let_def Write_def chan_send_def make_chan_def)
  moreover have "\<forall>event raw. ?json event = Inr raw \<longrightarrow> valid_json raw" using v by simp
  moreover have "DataTransform (Logger logging_config) = \<lparr>DataTransform_Enabled = True, DataTransform_SampleRatio = Fin 1,
      LogOriginal = True, LogNormalized = False, LogFinal = True\<rparr>"
    by (simp add: logging_config_def)
  moreover have "shouldLogDataTransform t (Fin 1)" for t by (simp add: shouldLogDataTransform_def f64_leq_def)
  ultimately show ?thesis
    using data_transform_line [OF _ f out, of ?msg "\<lambda>_. Inr ''{ }''"] by (auto simp: numeral_eq_Suc)
qed

end
