(* ===== verification/Schema_Roundtrip.thy ===== *)
theory Schema_Roundtrip
  imports Json_Valid Normalizer
begin

text \<open>
  Reading the JSON form of an event schema back: a reader of JSON values, the decoding of the schema's fields by the names of
  the struct tags of \<^verbatim>\<open>internal/schema/v1/schema.go\<close>, and the round trip with \<^verbatim>\<open>ToJSON\<close>.  The program only writes the
  schema; the reader is what a consumer of the topic does.
\<close>

section \<open>A reader of JSON values\<close>

text \<open>The string after its opening quote, and the rest of the text.\<close>

definition read_string :: "string \<Rightarrow> (string \<times> string) option" where
  "read_string s =
     (case str_rest s of
        None \<Rightarrow> None
      | Some r \<Rightarrow> Some (unescape (take (length s - length r - 1) s), r))"

definition read_int :: "string \<Rightarrow> (int \<times> string) option" where
  "read_int s =
     (case digits (if take 1 s = ''-'' then drop 1 s else s) of
        (ds, r) \<Rightarrow> if ds = '''' then None
                  else Some (if take 1 s = ''-'' then - int (digits_val ds) else int (digits_val ds), r))"

definition read_bool :: "string \<Rightarrow> (bool \<times> string) option" where
  "read_bool s =
     (if take 4 s = ''true'' then Some (True, drop 4 s)
      else if take 5 s = ''false'' then Some (False, drop 5 s) else None)"

definition read_as :: "('a \<Rightarrow> json) \<Rightarrow> ('a \<times> string) option \<Rightarrow> (json \<times> string) option" where
  "read_as f = map_option (apfst f)"

text \<open>The fuel bounds the number of steps; one more than the length of the text is always enough.\<close>

fun read_value :: "nat \<Rightarrow> string \<Rightarrow> (json \<times> string) option"
  and read_elements :: "nat \<Rightarrow> string \<Rightarrow> (json list \<times> string) option"
  and read_members :: "nat \<Rightarrow> string \<Rightarrow> ((string \<times> json) list \<times> string) option" where
  "read_value 0 s = None"
| "read_value (Suc n) s =
     (if take 1 s = [dquote] then read_as JString (read_string (drop 1 s))
      else if take 1 s = ''['' then
        (if take 2 s = ''[]'' then Some (JArray [], drop 2 s) else read_as JArray (read_elements n (drop 1 s)))
      else if take 1 s = ''{'' then
        (if take 2 s = ''{}'' then Some (JObject [], drop 2 s) else read_as JObject (read_members n (drop 1 s)))
      else if take 1 s = ''t'' \<or> take 1 s = ''f'' then read_as JBool (read_bool s)
      else read_as JInt (read_int s))"
| "read_elements 0 s = None"
| "read_elements (Suc n) s =
     (case read_value n s of
        None \<Rightarrow> None
      | Some (j, r) \<Rightarrow>
          if take 1 r = '','' then map_option (apfst (Cons j)) (read_elements n (drop 1 r))
          else if take 1 r = '']'' then Some ([j], drop 1 r) else None)"
| "read_members 0 s = None"
| "read_members (Suc n) s =
     (if take 1 s \<noteq> [dquote] then None
      else
        (case read_string (drop 1 s) of
           None \<Rightarrow> None
         | Some (k, r) \<Rightarrow>
             if take 1 r \<noteq> '':'' then None
             else
               (case read_value n (drop 1 r) of
                  None \<Rightarrow> None
                | Some (j, r') \<Rightarrow>
                    if take 1 r' = '','' then map_option (apfst (Cons (k, j))) (read_members n (drop 1 r'))
                    else if take 1 r' = ''}'' then Some ([(k, j)], drop 1 r') else None)))"

section \<open>Reading what is printed\<close>

text \<open>Values without raw messages, all of whose strings and keys are valid UTF-8.\<close>

fun readable :: "json \<Rightarrow> bool" where
  "readable (JString s) = utf8 s"
| "readable (JArray js) = list_all readable js"
| "readable (JObject kvs) = list_all (\<lambda>kv. utf8 (fst kv) \<and> readable (snd kv)) kvs"
| "readable (JRaw s) = False"
| "readable _ = True"

lemma read_string_quote: "utf8 s \<Longrightarrow> read_string (escape s @ dquote # r) = Some (s, r)"
  by (simp add: read_string_def str_rest_escape unescape_escape)

lemma read_int_fmt: "delim r \<Longrightarrow> read_int (fmt_int i @ r) = Some (i, r)"
proof -
  assume d: "delim r"
  have n: "digits (fmt_nat k @ r) = (fmt_nat k, r)" for k using digits_append [OF fmt_nat_digits d] .
  obtain c cs where f: "fmt_nat (nat i) = c # cs" by (cases "fmt_nat (nat i)") auto
  then have "is_digit c" using fmt_nat_digits [of "nat i"] by auto
  then have c: "c \<noteq> CHR ''-''" by (auto simp: is_digit_def)
  show ?thesis
  proof (cases "i < 0")
    case True
    then show ?thesis by (simp add: read_int_def fmt_int_def n)
  next
    case False
    then have "take 1 (fmt_int i @ r) \<noteq> ''-''" using f c by (simp add: fmt_int_def)
    then show ?thesis using False n [of "nat i"] by (simp add: read_int_def fmt_int_def)
  qed
qed

lemma render_nonempty [simp]: "readable j \<Longrightarrow> render j \<noteq> []"
  using fmt_int_head by (cases j) (auto simp: quote_def)

lemma render_head:
  assumes "readable j"
  shows "take 1 (render j @ r) \<notin> {'']'', ''}'', '',''}"
proof (cases j)
  case (JInt i)
  then show ?thesis using fmt_int_head [of i] by (cases "fmt_int i") (auto simp: is_digit_def)
qed (use assms in \<open>auto simp: quote_def\<close>)

lemma read_elements_join:
  assumes "\<And>j n r. j \<in> set (x # xs) \<Longrightarrow> delim r \<Longrightarrow> length (render j) < n \<Longrightarrow> read_value n (render j @ r) = Some (j, r)"
    and "list_all readable (x # xs)" and "length (join '','' (map render (x # xs))) + 1 < n"
  shows "read_elements n (join '','' (map render (x # xs)) @ '']'' @ r) = Some (x # xs, r)"
  using assms
proof (induction xs arbitrary: x n)
  case Nil
  then obtain k where n: "n = Suc k" "length (render x) < k" by (cases n) auto
  then have "read_value k (render x @ CHR '']'' # r) = Some (x, CHR '']'' # r)" using Nil(1) by simp
  then show ?case using n by simp
next
  case (Cons y ys)
  let ?rest = "join '','' (map render (y # ys))"
  obtain k where n: "n = Suc k" using Cons.prems(3) by (cases n) auto
  have "render x \<noteq> []" using Cons.prems(2) by simp
  then have len: "length (render x) < k" "length ?rest + 1 < k" using Cons.prems(3) n by (auto simp: Suc_le_eq)
  have "read_value k (render x @ '','' @ ?rest @ '']'' @ r) = Some (x, '','' @ ?rest @ '']'' @ r)"
    using Cons.prems(1) [OF _ _ len(1)] by simp
  moreover have "read_elements k (?rest @ '']'' @ r) = Some (y # ys, r)"
    by (rule Cons.IH) (use Cons.prems len in auto)
  ultimately show ?case using n by simp
qed

lemma read_members_join:
  assumes "\<And>k j n r. (k, j) \<in> set (x # xs) \<Longrightarrow> delim r \<Longrightarrow> length (render j) < n \<Longrightarrow> read_value n (render j @ r) = Some (j, r)"
    and "list_all (\<lambda>kv. utf8 (fst kv)) (x # xs)"
    and "length (join '','' (map (\<lambda>(k, v). quote k @ '':'' @ render v) (x # xs))) + 1 < n"
  shows "read_members n (join '','' (map (\<lambda>(k, v). quote k @ '':'' @ render v) (x # xs)) @ ''}'' @ r) = Some (x # xs, r)"
  using assms
proof (induction xs arbitrary: x n)
  case Nil
  obtain k v where x: "x = (k, v)" by fastforce
  obtain m where n: "n = Suc m" "length (render v) < m" using Nil(3) x by (cases n) auto
  then have "read_value m (render v @ CHR ''}'' # r) = Some (v, CHR ''}'' # r)" using Nil(1) x by simp
  moreover have "utf8 k" using Nil(2) x by simp
  ultimately show ?case using n x by (simp add: quote_def read_string_quote)
next
  case (Cons y ys)
  let ?f = "\<lambda>(k, v). quote k @ '':'' @ render v"
  let ?rest = "join '','' (map ?f (y # ys))"
  obtain k v where x: "x = (k, v)" by fastforce
  obtain m where n: "n = Suc m" using Cons.prems(3) by (cases n) auto
  have len: "length (render v) < m" "length ?rest + 1 < m" using Cons.prems(3) n x by auto
  have "read_value m (render v @ '','' @ ?rest @ ''}'' @ r) = Some (v, '','' @ ?rest @ ''}'' @ r)"
    by (rule Cons.prems(1) [of k]) (use len x in simp_all)
  moreover have "read_members m (?rest @ ''}'' @ r) = Some (y # ys, r)"
    by (rule Cons.IH) (use Cons.prems len in auto)
  moreover have "utf8 k" using Cons.prems(2) x by simp
  ultimately show ?case using n x by (simp add: quote_def read_string_quote)
qed

lemma read_render:
  assumes "readable j" and "delim r" and "length (render j) < n"
  shows "read_value n (render j @ r) = Some (j, r)"
  using assms
proof (induction j arbitrary: n r)
  case (JInt i)
  obtain c cs where f: "fmt_int i = c # cs" "c = CHR ''-'' \<or> is_digit c" using fmt_int_head [of i] by (cases "fmt_int i") auto
  obtain k where "n = Suc k" using JInt by (cases n) auto
  moreover have "c \<notin> {dquote, CHR ''['', CHR ''{'', CHR ''t'', CHR ''f''}" using f(2) by (auto simp: is_digit_def)
  ultimately show ?case using read_int_fmt [OF JInt.prems(2), of i] f(1) by (simp add: read_as_def)
next
  case (JBool b)
  then obtain k where "n = Suc k" by (cases n) auto
  then show ?case by (cases b) (simp_all add: read_as_def read_bool_def)
next
  case (JString s)
  then obtain k where "n = Suc k" by (cases n) auto
  then show ?case using JString by (simp add: read_as_def quote_def read_string_quote)
next
  case (JArray js)
  obtain k where n: "n = Suc k" using JArray.prems by (cases n) auto
  show ?case
  proof (cases js)
    case Nil
    then show ?thesis using n by (simp add: read_as_def)
  next
    case (Cons x xs)
    have x: "readable x" using JArray.prems(1) Cons by simp
    then obtain c cs where c: "render x = c # cs" by (cases "render x") auto
    then have hd: "take 1 (join '','' (map render js) @ '']'' @ r) \<noteq> '']''"
      using render_head [OF x] Cons by (simp add: join_concat)
    have "read_elements k (join '','' (map render js) @ '']'' @ r) = Some (js, r)"
      unfolding Cons by (rule read_elements_join) (use JArray Cons n in \<open>auto simp: list_all_iff\<close>)
    then show ?thesis using n hd by (simp add: read_as_def numeral_2_eq_2)
  qed
next
  case (JObject kvs)
  obtain k where n: "n = Suc k" using JObject.prems by (cases n) auto
  show ?case
  proof (cases kvs)
    case Nil
    then show ?thesis using n by (simp add: read_as_def)
  next
    case (Cons x xs)
    have hd: "take 1 (join '','' (map (\<lambda>(k, v). quote k @ '':'' @ render v) kvs) @ ''}'' @ r) \<noteq> ''}''"
      using Cons by (cases x) (simp add: join_concat quote_def)
    have "read_members k (join '','' (map (\<lambda>(k, v). quote k @ '':'' @ render v) kvs) @ ''}'' @ r) = Some (kvs, r)"
      unfolding Cons
    proof (rule read_members_join)
      fix k' j m t
      assume j: "(k', j) \<in> set (x # xs)" and "delim t" and "length (render j) < m"
      moreover have "readable j" using j JObject.prems(1) Cons by (auto simp: list_all_iff)
      ultimately show "read_value m (render j @ t) = Some (j, t)"
        using JObject.IH [of "(k', j)" j t m] Cons by simp
    qed (use JObject.prems Cons n in \<open>auto simp: list_all_iff\<close>)
    then show ?thesis using n hd by (simp add: read_as_def numeral_2_eq_2)
  qed
qed simp

section \<open>Decoding the schema\<close>

text \<open>A field by its name; what is missing or of another type is the zero value.\<close>

definition field :: "string \<Rightarrow> json \<Rightarrow> json option" where
  "field k j = (case j of JObject kvs \<Rightarrow> map_of kvs k | _ \<Rightarrow> None)"

definition str_of :: "json \<Rightarrow> string" where
  "str_of j = (case j of JString s \<Rightarrow> s | _ \<Rightarrow> '''')"

definition str_field :: "string \<Rightarrow> json \<Rightarrow> string" where
  "str_field k j = (case field k j of Some v \<Rightarrow> str_of v | None \<Rightarrow> '''')"

definition int_field :: "string \<Rightarrow> json \<Rightarrow> int" where
  "int_field k j = (case field k j of Some (JInt i) \<Rightarrow> i | _ \<Rightarrow> 0)"

definition bool_field :: "string \<Rightarrow> json \<Rightarrow> bool" where
  "bool_field k j = (field k j = Some (JBool True))"

definition array_field :: "string \<Rightarrow> json \<Rightarrow> json list" where
  "array_field k j = (case field k j of Some (JArray js) \<Rightarrow> js | _ \<Rightarrow> [])"

definition map_field :: "string \<Rightarrow> json \<Rightarrow> (string \<times> json) list" where
  "map_field k j = (case field k j of Some (JObject kvs) \<Rightarrow> kvs | _ \<Rightarrow> [])"

definition ptr_field :: "string \<Rightarrow> (json \<Rightarrow> 'a) \<Rightarrow> json \<Rightarrow> 'a option" where
  "ptr_field k f j = map_option f (field k j)"

definition read_RawMeta :: "json \<Rightarrow> RawMeta" where
  "read_RawMeta j = \<lparr>rm_Format = str_field ''format'' j, rm_SizeBytes = nat (int_field ''size_bytes'' j),
     rm_Hash = str_field ''hash'' j, rm_Redacted = bool_field ''redacted'' j\<rparr>"

definition read_K8sInfo :: "json \<Rightarrow> K8sInfo" where
  "read_K8sInfo j = \<lparr>k8s_Namespace = str_field ''namespace'' j, k8s_Pod = str_field ''pod'' j,
     k8s_Container = str_field ''container'' j\<rparr>"

definition read_NetworkInfo :: "json \<Rightarrow> NetworkInfo" where
  "read_NetworkInfo j = \<lparr>net_SourceIP = str_field ''source_ip'' j, net_SourcePort = word_of_int (int_field ''source_port'' j),
     net_DestinationIP = str_field ''destination_ip'' j,
     net_DestinationPort = word_of_int (int_field ''destination_port'' j),
     net_Protocol = str_field ''protocol'' j, net_Family = str_field ''family'' j\<rparr>"

definition read_ProcessInfo :: "json \<Rightarrow> ProcessInfo" where
  "read_ProcessInfo j = \<lparr>pi_PID = word_of_int (int_field ''pid'' j), pi_PPID = word_of_int (int_field ''ppid'' j),
     pi_UID = word_of_int (int_field ''uid'' j), pi_GID = word_of_int (int_field ''gid'' j),
     pi_Binary = str_field ''binary'' j, pi_Args = map str_of (array_field ''args'' j), pi_CWD = str_field ''cwd'' j\<rparr>"

definition read_schema :: "json \<Rightarrow> EventSchema" where
  "read_schema j = \<lparr>SchemaVersion = int_field ''schema_version'' j, Type = str_field ''type'' j,
     Timestamp = str_field ''ts'' j, TraceID = str_field ''trace_id'' j, Node = str_field ''node'' j,
     Raw = (case field ''raw'' j of Some v \<Rightarrow> render v | None \<Rightarrow> ''''),
     Raw_Meta = ptr_field ''raw_meta'' read_RawMeta j, K8s = ptr_field ''k8s'' read_K8sInfo j,
     Process = ptr_field ''process'' read_ProcessInfo j, Network = ptr_field ''network'' read_NetworkInfo j,
     Labels = map (apsnd str_of) (map_field ''labels'' j), Extra = map_field ''extra'' j\<rparr>"

definition FromJSON :: "string \<Rightarrow> EventSchema option" where
  "FromJSON s =
     (case read_value (Suc (length s)) s of Some (j, []) \<Rightarrow> Some (read_schema j) | _ \<Rightarrow> None)"

lemma map_of_omitempty [simp]:
  "map_of (omitempty_str k s) k' = (if s \<noteq> '''' \<and> k' = k then Some (JString s) else None)"
  "map_of (omitempty_map k m) k' = (if m \<noteq> [] \<and> k' = k then Some (JObject (sort_key fst m)) else None)"
  "(kvs ++ map_of (omitempty_str k s)) k' = (if s \<noteq> '''' \<and> k' = k then Some (JString s) else kvs k')"
  "(kvs ++ map_of (omitempty_u32 k n)) k' = (if n \<noteq> 0 \<and> k' = k then Some (JInt (uint n)) else kvs k')"
  "(kvs ++ map_of (omitempty_ptr k f x)) k' = (if x \<noteq> None \<and> k' = k then Some (f (the x)) else kvs k')"
  "(kvs ++ map_of (omitempty_map k m)) k' = (if m \<noteq> [] \<and> k' = k then Some (JObject (sort_key fst m)) else kvs k')"
  by (auto simp: omitempty_str_def omitempty_u32_def omitempty_ptr_def omitempty_map_def split: option.split)

lemmas field_defs = field_def str_field_def int_field_def bool_field_def array_field_def map_field_def ptr_field_def str_of_def

lemma read_json_RawMeta [simp]: "read_RawMeta (json_RawMeta m) = m"
  by (cases m) (simp add: read_RawMeta_def json_RawMeta_def field_defs)

lemma read_json_K8sInfo [simp]: "read_K8sInfo (json_K8sInfo k) = k"
  by (cases k) (simp add: read_K8sInfo_def json_K8sInfo_def field_defs)

lemma read_json_NetworkInfo [simp]: "read_NetworkInfo (json_NetworkInfo n) = n"
  by (cases n) (simp add: read_NetworkInfo_def json_NetworkInfo_def field_defs)

lemma read_json_ProcessInfo [simp]: "read_ProcessInfo (json_ProcessInfo p) = p"
proof -
  have "map str_of (map JString xs) = xs" for xs by (induction xs) (simp_all add: str_of_def)
  then show ?thesis by (cases p) (simp add: read_ProcessInfo_def json_ProcessInfo_def field_defs)
qed

lemma read_schema_json:
  assumes "Raw e = ''''" and "sorted (map fst (Labels e))" and "sorted (map fst (Extra e))"
  shows "read_schema (schema_json e) = e"
proof -
  let ?labels = "map (apsnd JString) (Labels e)"
  have "sort_key fst ?labels = ?labels" "sort_key fst (Extra e) = Extra e"
    using assms(2,3) by (simp_all add: sort_key_id_if_sorted comp_def)
  moreover have "map (apsnd str_of) (map (apsnd JString) xs) = xs" for xs :: "(string \<times> string) list"
    by (induction xs) (auto simp: str_of_def)
  ultimately show ?thesis
    using assms(1) by (cases e) (simp add: read_schema_def schema_json_def field_defs)
qed

text \<open>
  C32: The schema round trip.  The JSON text of an event schema without a raw message, the case in which \<^verbatim>\<open>main\<close> sends this text,
  is read back as the same schema, field by field under the names of the struct tags, whatever
  quotes, control, HTML or other valid UTF-8 characters its strings have, and whichever fields are empty and left out; labels and
  extra fields come back in the order of their keys.
\<close>

theorem schema_roundtrip:
  assumes "readable (schema_json e)" and "sorted (map fst (Labels e))" and "sorted (map fst (Extra e))"
  shows "FromJSON (ToJSON e) = Some e"
proof -
  have "Raw e = ''''" using assms(1) by (auto simp: schema_json_def split: if_splits)
  moreover have "read_value (Suc (length (ToJSON e))) (ToJSON e) = Some (schema_json e, [])"
    using read_render [OF assms(1), of "[]" "Suc (length (ToJSON e))"] by (simp add: ToJSON_def)
  ultimately show ?thesis using read_schema_json assms(2,3) by (simp add: FromJSON_def)
qed

definition example_schema :: EventSchema where
  "example_schema = \<lparr>SchemaVersion = 1, Type = ''process_exec'', Timestamp = ''1970-01-01T00:00:01.000000005Z'',
     TraceID = '''', Node = [CHR ''a'', dquote, CHR 0x0A, CHR ''<'', CHR 0xE2, CHR 0x80, CHR 0xA8], Raw = '''',
     Raw_Meta = None, K8s = Some \<lparr>k8s_Namespace = ''default'', k8s_Pod = '''', k8s_Container = ''c''\<rparr>,
     Process = Some \<lparr>pi_PID = 42, pi_PPID = 0, pi_UID = 0, pi_GID = 0, pi_Binary = ''/bin/sh'', pi_Args = [''-c'', ''''],
       pi_CWD = ''''\<rparr>,
     Network = None, Labels = [(''app'', ''x''), (''tier'', '''')], Extra = [(''n'', JInt (- 7))]\<rparr>"

theorem schema_roundtrip_witness:
  "FromJSON (ToJSON example_schema) = Some example_schema"
  by (rule schema_roundtrip) code_simp+

end
