(* ===== verification/Health.thy ===== *)
theory Health
  imports Event_Queue Timestamps Json
begin

text \<open>
  \<^verbatim>\<open>internal/health/server.go\<close>: the health endpoint.  The state is the two flags under the mutex; a request is
  answered from one consistent reading of them.  Listening and serving are \<^verbatim>\<open>net/http\<close>'s: their results are
  arguments of \<open>Server_Start\<close> and \<open>Server_Shutdown\<close>; a request path is one the mux has already cleaned.
\<close>

record Server =
  srv_port :: int
  srv_ready :: bool
  srv_shutdown :: bool

record response =
  resp_status :: nat
  resp_content_type :: "string option"
  resp_body :: string

definition NewServer :: "int \<Rightarrow> Server" where
  "NewServer port = \<lparr>srv_port = port, srv_ready = False, srv_shutdown = False\<rparr>"

definition server_addr :: "Server \<Rightarrow> string" where
  "server_addr s = CHR '':'' # fmt_int (srv_port s)"

definition SetReady :: "bool \<Rightarrow> Server \<Rightarrow> Server" where
  "SetReady ready s = s\<lparr>srv_ready := ready\<rparr>"

definition SetShutdown :: "bool \<Rightarrow> Server \<Rightarrow> Server" where
  "SetShutdown shutdown s = s\<lparr>srv_shutdown := shutdown\<rparr>"

text \<open>\<^verbatim>\<open>Format(time.RFC3339)\<close> has no fraction; \<^verbatim>\<open>Encode\<close> of a map writes its keys in order and a newline.\<close>

definition RFC3339 :: "nat \<Rightarrow> string" where
  "RFC3339 ns = RFC3339Nano (ns - ns mod 1000000000)"

definition json_body :: "(string \<times> json) list \<Rightarrow> string" where
  "json_body kvs = render (JObject kvs) @ [CHR 0x0A]"

definition json_type :: "string option" where
  "json_type = Some ''application/json; charset=utf-8''"

definition healthHandler :: "nat \<Rightarrow> Queue \<Rightarrow> Server \<Rightarrow> response" where
  "healthHandler now q s =
     (let ts = (''timestamp'', JString (RFC3339 now))
      in if srv_shutdown s then
           \<lparr>resp_status = 503, resp_content_type = json_type,
            resp_body = json_body [(''status'', JString ''shutting down''), ts]\<rparr>
         else if \<not> srv_ready s then
           \<lparr>resp_status = 503, resp_content_type = json_type,
            resp_body = json_body [(''status'', JString ''not ready''), ts]\<rparr>
         else
           \<lparr>resp_status = 200, resp_content_type = json_type,
            resp_body = json_body
              [(''queue'', JObject [(''capacity'', JInt (int (Queue_Capacity q))),
                                    (''depth'', JInt (int (Queue_Size q)))]),
               (''status'', JString ''healthy''), ts]\<rparr>)"

definition rootHandler :: "string \<Rightarrow> nat \<Rightarrow> response" where
  "rootHandler path now =
     (if path \<noteq> ''/'' then
        \<lparr>resp_status = 404, resp_content_type = None, resp_body = ''404 page not found''\<rparr>
      else
        \<lparr>resp_status = 200, resp_content_type = json_type,
         resp_body = json_body
           [(''endpoints'', JArray [JString ''/health'']),
            (''service'', JString ''tetragon-kafka-adapter''),
            (''timestamp'', JString (RFC3339 now))]\<rparr>)"

text \<open>The routes registered by \<^verbatim>\<open>NewServer\<close>: one exact path, and the root pattern for everything else.\<close>

definition serve :: "string \<Rightarrow> nat \<Rightarrow> Queue \<Rightarrow> Server \<Rightarrow> response" where
  "serve path now q s = (if path = ''/health'' then healthHandler now q s else rootHandler path now)"

text \<open>
  \<^verbatim>\<open>Start\<close> and \<^verbatim>\<open>Shutdown\<close>: \<open>listen\<close> is \<^verbatim>\<open>net.Listen\<close> on an address, \<open>served\<close> how \<^verbatim>\<open>Serve\<close> ended, which
  \<^verbatim>\<open>ErrServerClosed\<close> marks as a shutdown, \<open>shut\<close> what \<^verbatim>\<open>Shutdown\<close> of the HTTP server gave.
\<close>

datatype 'e served = ErrServerClosed | ServeError 'e

definition Server_Start :: "(string \<Rightarrow> 'e option) \<Rightarrow> 'e served option \<Rightarrow> Server \<Rightarrow> 'e option" where
  "Server_Start listen served s =
     (case listen (server_addr s) of
        Some err \<Rightarrow> Some err
      | None \<Rightarrow> (case served of Some (ServeError err) \<Rightarrow> Some err | _ \<Rightarrow> None))"

definition Server_Shutdown :: "'e option \<Rightarrow> 'e option" where
  "Server_Shutdown shut = (case shut of Some err \<Rightarrow> Some err | None \<Rightarrow> None)"

section \<open>The answer as a function of the history\<close>

datatype server_op = OpReady bool | OpShutdown bool

fun apply_op :: "server_op \<Rightarrow> Server \<Rightarrow> Server" where
  "apply_op (OpReady b) s = SetReady b s"
| "apply_op (OpShutdown b) s = SetShutdown b s"

text \<open>The values a sequence of operations gave each flag, in order; the last one counts, \<open>False\<close> at first.\<close>

fun ready_settings :: "server_op list \<Rightarrow> bool list" where
  "ready_settings [] = []"
| "ready_settings (OpReady b # ops) = b # ready_settings ops"
| "ready_settings (OpShutdown b # ops) = ready_settings ops"

fun shutdown_settings :: "server_op list \<Rightarrow> bool list" where
  "shutdown_settings [] = []"
| "shutdown_settings (OpReady b # ops) = shutdown_settings ops"
| "shutdown_settings (OpShutdown b # ops) = b # shutdown_settings ops"

definition last_ready :: "server_op list \<Rightarrow> bool" where
  "last_ready ops = last (False # ready_settings ops)"

definition last_shutdown :: "server_op list \<Rightarrow> bool" where
  "last_shutdown ops = last (False # shutdown_settings ops)"

lemma settings_append [simp]:
  "ready_settings (xs @ ys) = ready_settings xs @ ready_settings ys"
  "shutdown_settings (xs @ ys) = shutdown_settings xs @ shutdown_settings ys"
  by (induction xs rule: ready_settings.induct) simp_all

lemma fold_ops:
  "srv_ready (fold apply_op ops (NewServer port)) = last_ready ops \<and>
   srv_shutdown (fold apply_op ops (NewServer port)) = last_shutdown ops"
proof (induction ops rule: rev_induct)
  case Nil
  then show ?case by (simp add: NewServer_def last_ready_def last_shutdown_def)
next
  case (snoc op ops)
  then show ?case
    by (cases op) (simp_all add: last_ready_def last_shutdown_def SetReady_def SetShutdown_def)
qed

text \<open>
  Health follows the flags.  After any history of changes the endpoint answers 200 exactly when the service
  was last set ready and not set to shutting down, and 503 otherwise, a shutdown taking precedence in the text;
  every other path but the root is answered 404 whatever the state.
\<close>

theorem health_follows_flags:
  "resp_status (serve ''/health'' now q (fold apply_op ops (NewServer port))) =
     (if last_ready ops \<and> \<not> last_shutdown ops then 200 else 503) \<and>
   (last_shutdown ops \<longrightarrow> resp_body (serve ''/health'' now q (fold apply_op ops (NewServer port))) =
      json_body [(''status'', JString ''shutting down''), (''timestamp'', JString (RFC3339 now))]) \<and>
   (path \<notin> {''/'', ''/health''} \<longrightarrow> resp_status (serve path now q (fold apply_op ops (NewServer port))) = 404)"
  by (simp add: serve_def healthHandler_def rootHandler_def fold_ops Let_def)

theorem health_follows_flags_witness:
  "\<forall>q. resp_status (serve ''/health'' 0 q (fold apply_op [OpReady False, OpReady True] (NewServer 8080))) = 200 \<and>
   resp_body (serve ''/health'' 0 q (fold apply_op [OpReady True, OpShutdown True] (NewServer 8080))) =
     json_body [(''status'', JString ''shutting down''), (''timestamp'', JString (RFC3339 0))] \<and>
   resp_status (serve ''/metrics'' 0 q (NewServer 8080)) = 404"
proof
  fix q
  note flags = health_follows_flags [where now = 0 and q = q and port = 8080]
  show "resp_status (serve ''/health'' 0 q (fold apply_op [OpReady False, OpReady True] (NewServer 8080))) = 200 \<and>
     resp_body (serve ''/health'' 0 q (fold apply_op [OpReady True, OpShutdown True] (NewServer 8080))) =
       json_body [(''status'', JString ''shutting down''), (''timestamp'', JString (RFC3339 0))] \<and>
     resp_status (serve ''/metrics'' 0 q (NewServer 8080)) = 404"
    using flags [of "[OpReady False, OpReady True]" "''/''"] flags [of "[OpReady True, OpShutdown True]" "''/''"]
      flags [of "[]" "''/metrics''"]
    by (simp add: last_ready_def last_shutdown_def)
qed

end
