(* ===== verification/Log_Level.thy ===== *)
theory Log_Level
  imports Main
begin

text \<open>
  The levels of a log line and their order, as zap defines them; a line passes an enabler when its level is at least the
  enabler's.
\<close>

datatype level = DebugLevel | InfoLevel | WarnLevel | ErrorLevel | DPanicLevel | PanicLevel | FatalLevel

fun level_num :: "level \<Rightarrow> int" where
  "level_num DebugLevel = -1"
| "level_num InfoLevel = 0"
| "level_num WarnLevel = 1"
| "level_num ErrorLevel = 2"
| "level_num DPanicLevel = 3"
| "level_num PanicLevel = 4"
| "level_num FatalLevel = 5"

lemma level_num_inj: "level_num l = level_num k \<Longrightarrow> l = k"
  by (cases l; cases k) simp_all

instantiation level :: linorder
begin

definition less_eq_level :: "level \<Rightarrow> level \<Rightarrow> bool" where
  "less_eq_level l k \<longleftrightarrow> level_num l \<le> level_num k"

definition less_level :: "level \<Rightarrow> level \<Rightarrow> bool" where
  "less_level l k \<longleftrightarrow> level_num l < level_num k"

instance
  by intro_classes (auto simp: less_eq_level_def less_level_def intro: level_num_inj)

end

end
