(* ===== verification/Log_Output.thy ===== *)
theory Log_Output
  imports Validator Log_Level
begin

text \<open>
  \<^verbatim>\<open>internal/logger/logger.go\<close>, which outputs \<^verbatim>\<open>Init\<close> gives the logger, and the part of \<^verbatim>\<open>main\<close> that calls it
  twice, first without the Kafka output and then with it.  A zap core is represented by what it writes to
  (\<open>sink\<close>); zap's encoding and the rotating file writer are not modelled.
\<close>

section \<open>Case-insensitive comparison\<close>

text \<open>
  \<^verbatim>\<open>strings.EqualFold\<close> against an ASCII string: letters fold by case, and the two non-ASCII runes whose simple fold is
  an ASCII letter are U+017F (bytes C5 BF, an s) and U+212A (bytes E2 84 AA, a k).
\<close>

fun fold_case :: "string \<Rightarrow> string" where
  "fold_case [] = []"
| "fold_case (c # cs) =
     (if c = CHR 0xC5 \<and> take 1 cs = [CHR 0xBF] then CHR ''s'' # fold_case (drop 1 cs)
      else if c = CHR 0xE2 \<and> take 2 cs = [CHR 0x84, CHR 0xAA] then CHR ''k'' # fold_case (drop 2 cs)
      else lower_char c # fold_case cs)"

definition EqualFold :: "string \<Rightarrow> string \<Rightarrow> bool" where
  "EqualFold s t \<longleftrightarrow> fold_case s = fold_case t"

fun contains :: "string list \<Rightarrow> string \<Rightarrow> bool" where
  "contains [] item = False"
| "contains (s # ss) item = (EqualFold s item \<or> contains ss item)"

lemma contains_iff: "contains xs item \<longleftrightarrow> (\<exists>s \<in> set xs. EqualFold s item)"
  by (induction xs) auto

section \<open>Metadata\<close>

text \<open>\<open>getenv\<close> is \<^verbatim>\<open>os.Getenv\<close> and \<open>host\<close> what \<^verbatim>\<open>os.Hostname\<close> gave, \<open>None\<close> for an error.\<close>

definition getK8sMetadata :: "(string \<Rightarrow> string) \<Rightarrow> string option \<Rightarrow> (string \<times> string) list" where
  "getK8sMetadata getenv host =
     (let f = (\<lambda>key var. if getenv var \<noteq> '''' then [(key, getenv var)] else [])
      in (if getenv ''POD_NAME'' \<noteq> '''' then [(''pod_name'', getenv ''POD_NAME'')] else f ''pod_name'' ''HOSTNAME'') @
         f ''pod_ip'' ''POD_IP'' @ f ''namespace'' ''POD_NAMESPACE'' @ f ''node_name'' ''NODE_NAME'' @
         (if getenv ''NODE_IP'' \<noteq> '''' then [(''node_ip'', getenv ''NODE_IP'')] else f ''node_ip'' ''HOST_IP'') @
         (case host of Some h \<Rightarrow> if h \<noteq> '''' then [(''server_name'', h)] else [] | None \<Rightarrow> []))"

section \<open>Init\<close>

datatype encoder = JSONEncoder | ConsoleEncoder

datatype sink = FileSink FileLogConfig | KafkaSink string | StdoutSink | NopSink

record logger =
  lg_level :: level
  lg_encoder :: encoder
  lg_sinks :: "sink list"
  lg_fields :: "(string \<times> string) list"

definition parse_level :: "string \<Rightarrow> level" where
  "parse_level s =
     (let l = ToLower s
      in if l = ''debug'' then DebugLevel
         else if l = ''info'' then InfoLevel
         else if l = ''warn'' then WarnLevel
         else if l = ''error'' then ErrorLevel
         else InfoLevel)"

text \<open>No configuration filters out errors.\<close>

lemma parse_level_passes_errors: "parse_level s \<le> ErrorLevel"
  by (simp add: parse_level_def Let_def less_eq_level_def)

text \<open>\<open>producer\<close>: whether a Kafka producer was passed (not nil).  \<^verbatim>\<open>Init\<close> never returns an error.\<close>

definition shouldOutputToKafka :: "LoggerConfig \<Rightarrow> bool \<Rightarrow> bool" where
  "shouldOutputToKafka cfg producer \<longleftrightarrow>
     contains (Output cfg) ''kafka'' \<and> KafkaLog_Enabled (Logger_Kafka cfg) \<and> producer"

definition shouldOutputToFile :: "LoggerConfig \<Rightarrow> bool \<Rightarrow> bool" where
  "shouldOutputToFile cfg producer \<longleftrightarrow> contains (Output cfg) ''file'' \<and> \<not> shouldOutputToKafka cfg producer"

definition Init :: "(string \<Rightarrow> string) \<Rightarrow> string option \<Rightarrow> LoggerConfig \<Rightarrow> bool \<Rightarrow> logger" where
  "Init getenv host cfg producer =
     (let cores = (if shouldOutputToFile cfg producer then [FileSink (File cfg)] else []) @
                  (if shouldOutputToKafka cfg producer then [KafkaSink (KafkaLog_Topic (Logger_Kafka cfg))] else []) @
                  (if Console_Enabled (Console cfg) then [StdoutSink] else []);
          cores' = (if cores = [] then [NopSink] else cores)
      in \<lparr>lg_level = parse_level (Level cfg),
          lg_encoder = (if ToLower (Logger_Format cfg) = ''json'' then JSONEncoder else ConsoleEncoder),
          lg_sinks = cores', lg_fields = getK8sMetadata getenv host\<rparr>)"

text \<open>The configuration \<^verbatim>\<open>InitSimple\<close> and the fallback of \<^verbatim>\<open>GetLogger\<close> build.\<close>

definition simple_config :: "string \<Rightarrow> string \<Rightarrow> LoggerConfig" where
  "simple_config lvl fmt = \<lparr>Level = lvl, Logger_Format = fmt, Output = [''file''],
     Console = \<lparr>Console_Enabled = False\<rparr>,
     File = \<lparr>File_Path = ''/var/log/tetragon-kafka-adapter/app.log'', MaxSizeMB = 100, MaxBackups = 5, MaxAgeDays = 7\<rparr>,
     Logger_Kafka = \<lparr>KafkaLog_Enabled = False, KafkaLog_Topic = ''''\<rparr>,
     DataTransform = \<lparr>DataTransform_Enabled = False, DataTransform_SampleRatio = Fin 0, LogOriginal = False,
       LogNormalized = False, LogFinal = False\<rparr>\<rparr>"

definition InitSimple :: "(string \<Rightarrow> string) \<Rightarrow> string option \<Rightarrow> string \<Rightarrow> string \<Rightarrow> logger" where
  "InitSimple getenv host lvl fmt = Init getenv host (simple_config lvl fmt) False"

definition GetLogger :: "(string \<Rightarrow> string) \<Rightarrow> string option \<Rightarrow> logger option \<Rightarrow> logger" where
  "GetLogger getenv host globalLogger =
     (case globalLogger of Some l \<Rightarrow> l | None \<Rightarrow> Init getenv host (simple_config ''info'' ''json'') False)"

text \<open>\<open>sync\<close> is what \<^verbatim>\<open>Sync\<close> of the zap logger gave.\<close>

definition Logger_Sync :: "(logger \<Rightarrow> 'e option) \<Rightarrow> logger option \<Rightarrow> 'e option" where
  "Logger_Sync sync globalLogger = (case globalLogger of Some l \<Rightarrow> sync l | None \<Rightarrow> None)"

section \<open>The two phases of main\<close>

definition hasKafkaLog :: "LoggerConfig \<Rightarrow> bool" where
  "hasKafkaLog cfg \<longleftrightarrow> ''kafka'' \<in> set (Output cfg)"

definition temp_outputs :: "LoggerConfig \<Rightarrow> string list" where
  "temp_outputs cfg =
     (if hasKafkaLog cfg \<and> length (Output cfg) = 1 then []
      else (let newOutputs = filter (\<lambda>o'. o' \<noteq> ''kafka'') (Output cfg)
            in if newOutputs = [] then [''file''] else newOutputs))"

definition startup_logger :: "(string \<Rightarrow> string) \<Rightarrow> string option \<Rightarrow> LoggerConfig \<Rightarrow> logger" where
  "startup_logger getenv host cfg = Init getenv host (cfg\<lparr>Output := temp_outputs cfg\<rparr>) False"

definition main_logger :: "(string \<Rightarrow> string) \<Rightarrow> string option \<Rightarrow> LoggerConfig \<Rightarrow> bool \<Rightarrow> logger" where
  "main_logger getenv host cfg producer =
     (if hasKafkaLog cfg \<and> KafkaLog_Enabled (Logger_Kafka cfg) then Init getenv host cfg producer
      else startup_logger getenv host cfg)"

section \<open>Which outputs a logger has\<close>

lemma Init_sinks:
  "FileSink f \<in> set (lg_sinks (Init g h cfg p)) \<longleftrightarrow> shouldOutputToFile cfg p \<and> f = File cfg"
  "KafkaSink t \<in> set (lg_sinks (Init g h cfg p)) \<longleftrightarrow>
     shouldOutputToKafka cfg p \<and> t = KafkaLog_Topic (Logger_Kafka cfg)"
  "StdoutSink \<in> set (lg_sinks (Init g h cfg p)) \<longleftrightarrow> Console_Enabled (Console cfg)"
  "NopSink \<in> set (lg_sinks (Init g h cfg p)) \<longleftrightarrow>
     \<not> shouldOutputToFile cfg p \<and> \<not> shouldOutputToKafka cfg p \<and> \<not> Console_Enabled (Console cfg)"
  by (auto simp: Init_def Let_def)

text \<open>
  Exclusive log outputs.  A logger always has an output, never the file and Kafka together, has Kafka only
  with a producer, and the no-op output only when it has no other.
\<close>

theorem log_outputs_exclusive:
  "lg_sinks (Init getenv host cfg producer) \<noteq> [] \<and>
   \<not> (FileSink f \<in> set (lg_sinks (Init getenv host cfg producer)) \<and>
      KafkaSink t \<in> set (lg_sinks (Init getenv host cfg producer))) \<and>
   KafkaSink t \<notin> set (lg_sinks (Init getenv host cfg False)) \<and>
   (NopSink \<in> set (lg_sinks (Init getenv host cfg producer))) = (lg_sinks (Init getenv host cfg producer) = [NopSink])"
  by (auto simp: Init_def Let_def shouldOutputToFile_def shouldOutputToKafka_def)

lemma EqualFold_refl [simp]: "EqualFold s s"
  by (simp add: EqualFold_def)

lemma kafka_not_file: "\<not> EqualFold ''kafka'' ''file''"
  by (simp add: EqualFold_def lower_char_def)

lemma contains_without_kafka:
  "contains (filter (\<lambda>o'. o' \<noteq> ''kafka'') xs) ''file'' \<longleftrightarrow> contains xs ''file''"
  using kafka_not_file by (auto simp: contains_iff)

lemma temp_outputs_file:
  "contains (temp_outputs cfg) ''file'' \<longleftrightarrow>
     contains (Output cfg) ''file'' \<or> (set (Output cfg) \<subseteq> {''kafka''} \<and> length (Output cfg) \<noteq> 1)"
proof (cases "filter (\<lambda>o'. o' \<noteq> ''kafka'') (Output cfg) = []")
  case True
  then have sub: "set (Output cfg) \<subseteq> {''kafka''}" by (auto simp: filter_empty_conv)
  then have "\<not> contains (Output cfg) ''file''" using kafka_not_file by (auto simp: contains_iff)
  moreover have "hasKafkaLog cfg" if "length (Output cfg) = 1"
    using sub that by (cases "Output cfg") (auto simp: hasKafkaLog_def)
  ultimately show ?thesis using True sub by (auto simp: temp_outputs_def Let_def)
next
  case False
  then have ns: "\<not> set (Output cfg) \<subseteq> {''kafka''}" by (auto simp: filter_empty_conv)
  then have "\<not> (hasKafkaLog cfg \<and> length (Output cfg) = 1)"
    by (cases "Output cfg") (auto simp: hasKafkaLog_def)
  then show ?thesis using False ns contains_without_kafka by (auto simp: temp_outputs_def Let_def)
qed

lemma Init_silent:
  "lg_sinks (Init getenv host c p) = [NopSink] \<longleftrightarrow>
     \<not> shouldOutputToFile c p \<and> \<not> shouldOutputToKafka c p \<and> \<not> Console_Enabled (Console c)"
  by (auto simp: Init_def Let_def)

lemma startup_logger_silent:
  "lg_sinks (startup_logger getenv host cfg) = [NopSink] \<longleftrightarrow>
     \<not> Console_Enabled (Console cfg) \<and> \<not> contains (Output cfg) ''file'' \<and>
     \<not> (set (Output cfg) \<subseteq> {''kafka''} \<and> length (Output cfg) \<noteq> 1)"
  by (auto simp: startup_logger_def Init_silent shouldOutputToFile_def shouldOutputToKafka_def temp_outputs_file)

lemma main_logger_silent:
  "lg_sinks (main_logger getenv host cfg producer) = [NopSink] \<longleftrightarrow>
     \<not> Console_Enabled (Console cfg) \<and> \<not> contains (Output cfg) ''file'' \<and>
     (if hasKafkaLog cfg \<and> KafkaLog_Enabled (Logger_Kafka cfg) then \<not> producer
      else \<not> (set (Output cfg) \<subseteq> {''kafka''} \<and> length (Output cfg) \<noteq> 1))"
proof -
  have k: "hasKafkaLog cfg \<Longrightarrow> contains (Output cfg) ''kafka''"
    by (auto simp: hasKafkaLog_def contains_iff intro!: bexI [of _ "''kafka''"])
  show ?thesis
    using k by (auto simp: main_logger_def startup_logger_silent Init_silent shouldOutputToFile_def shouldOutputToKafka_def)
qed

text \<open>
  C37: Silent loggers.  The start-up logger, which what is made up to the producer keeps (the queue, the router, the health server),
  discards everything exactly when the console is off, no output names the file, and the list of outputs is not one that falls back
  to the file (nothing but \<^verbatim>\<open>kafka\<close>, and not just once).  The final logger, which the writer, the reconnect manager and the event path have, discards
  everything exactly when the console is off, no output names the file, and either the Kafka output is listed and enabled but there is
  no producer, or it is not listed and enabled and the start-up logger was kept and is silent.
\<close>

theorem silent_loggers:
  "(lg_sinks (startup_logger getenv host cfg) = [NopSink] \<longleftrightarrow>
     \<not> Console_Enabled (Console cfg) \<and> \<not> contains (Output cfg) ''file'' \<and>
     \<not> (set (Output cfg) \<subseteq> {''kafka''} \<and> length (Output cfg) \<noteq> 1)) \<and>
   (lg_sinks (main_logger getenv host cfg producer) = [NopSink] \<longleftrightarrow>
     \<not> Console_Enabled (Console cfg) \<and> \<not> contains (Output cfg) ''file'' \<and>
     (if hasKafkaLog cfg \<and> KafkaLog_Enabled (Logger_Kafka cfg) then \<not> producer
      else \<not> (set (Output cfg) \<subseteq> {''kafka''} \<and> length (Output cfg) \<noteq> 1)))"
  using startup_logger_silent main_logger_silent by blast

text \<open>
  The Kafka output in another spelling.  An enabled Kafka output written as \<^verbatim>\<open>Kafka\<close> is one \<^verbatim>\<open>Init\<close> would use, but the
  start-up never passes it the producer: alone it leaves the program without any log, with a healthy producer.
\<close>

theorem kafka_output_by_case:
  assumes "Output cfg = [s]" and "EqualFold s ''kafka''" and "s \<noteq> ''kafka''"
    and "KafkaLog_Enabled (Logger_Kafka cfg)" and "\<not> Console_Enabled (Console cfg)"
  shows "lg_sinks (Init getenv host cfg True) = [KafkaSink (KafkaLog_Topic (Logger_Kafka cfg))] \<and>
    lg_sinks (main_logger getenv host cfg True) = [NopSink]"
proof -
  have "\<not> EqualFold s ''file''" using assms(2) kafka_not_file by (simp add: EqualFold_def)
  then have "\<not> contains (Output cfg) ''file''" "contains (Output cfg) ''kafka''" "\<not> hasKafkaLog cfg"
    using assms(1-3) by (simp_all add: hasKafkaLog_def)
  then show ?thesis
    using assms by (simp add: main_logger_silent Init_def shouldOutputToFile_def shouldOutputToKafka_def)
qed

definition kafka_log_config :: "string \<Rightarrow> LoggerConfig" where
  "kafka_log_config s = (Logger DefaultConfig)\<lparr>Output := [s],
     Logger_Kafka := \<lparr>KafkaLog_Enabled = True, KafkaLog_Topic = ''tetragon.logs''\<rparr>\<rparr>"

theorem kafka_output_by_case_witness:
  "lg_sinks (main_logger (\<lambda>_. '''') None (kafka_log_config ''Kafka'') True) = [NopSink]"
proof -
  have "EqualFold ''Kafka'' ''kafka''" by code_simp
  then show ?thesis
    using kafka_output_by_case [where cfg = "kafka_log_config ''Kafka''" and s = "''Kafka''" and getenv = "\<lambda>_. ''''" and host = None]
    by (simp add: kafka_log_config_def DefaultConfig_def)
qed

end
