(* ===== verification/Lifecycle.thy ===== *)
theory Lifecycle
  imports Health Config_Properties Log_Output "HOL-Library.Sublist"
begin

text \<open>
  \<^verbatim>\<open>main\<close> of \<^verbatim>\<open>cmd/consumer/main.go\<close> as the sequence of what it does to the program's parts: what it creates, starts,
  waits for and closes, in the code's order, with its deferred calls.  What the outside decides is a \<open>main_env\<close>.  A
  fatal log line and \<^verbatim>\<open>os.Exit\<close> end the process at once, deferred calls included.  The parts' own
  behaviour is in their theories, apart from the reconnect manager's, whose making and closing of clients runs beside \<^verbatim>\<open>main\<close>
  (\<open>program_trace\<close>); log lines, the pauses and the deferred clean-up of timers are left out, and so is the
  exit for a failed \<^verbatim>\<open>logger.Init\<close>, which never returns an error (\<open>Log_Output\<close>).
\<close>

section \<open>Actions\<close>

text \<open>\<open>GrpcClient\<close> is the client main makes, \<open>Reconnected k\<close> the reconnect manager's clients, \<open>LogCore\<close> the Kafka core of the logger.\<close>

datatype resource =
    GrpcClient | Reconnected nat | EventQueue | TopicAdminClient | KafkaProducer | KafkaWriter | LogCore

datatype goroutine = HealthServer | MetricsServer | ReconnectManager | ProcessEvents | WriteToKafka | MemoryMonitor

datatype action =
    PrintError
  | InitLogger bool                     \<comment> \<open>with the Kafka output\<close>
  | Open resource
  | Close resource
  | EnsureAllTopics
  | MarkReady bool
  | MarkShutdown
  | Go goroutine
  | AwaitSignal
  | CancelContext
  | AwaitQueue
  | AwaitWriter
  | StopServer goroutine
  | AwaitGoroutines
  | SyncLogs

record proc =
  pr_done :: "action list"
  pr_deferred :: "action list"          \<comment> \<open>the latest first\<close>

definition act :: "action \<Rightarrow> proc \<Rightarrow> proc" where
  "act a p = p\<lparr>pr_done := pr_done p @ [a]\<rparr>"

definition defer_call :: "action \<Rightarrow> proc \<Rightarrow> proc" where
  "defer_call a p = p\<lparr>pr_deferred := a # pr_deferred p\<rparr>"

definition open_closing :: "resource \<Rightarrow> proc \<Rightarrow> proc" where
  "open_closing r p = defer_call (Close r) (act (Open r) p)"

definition returned :: "proc \<Rightarrow> action list" where
  "returned p = pr_done p @ pr_deferred p"

datatype exit_status = Exit0 | Exit1

record 'e main_env =
  me_load :: "'e + Config"
  me_client_ok :: bool
  me_admin_ok :: bool
  me_producer_ok :: bool
  me_reconnects :: "bool list"          \<comment> \<open>for each reconnect, whether the new client could be made\<close>

section \<open>Start-up\<close>

definition log_to_kafka :: "Config \<Rightarrow> bool" where
  "log_to_kafka cfg \<longleftrightarrow> hasKafkaLog (Logger cfg) \<and> KafkaLog_Enabled (Logger_Kafka (Logger cfg))"

text \<open>
  From the topics to the producer; \<^verbatim>\<open>healthServer\<close> is nil when monitoring is off.  With a producer the second
  \<^verbatim>\<open>logger.Init\<close> makes the Kafka core.
\<close>

definition start_servers :: "Config \<Rightarrow> proc \<Rightarrow> proc" where
  "start_servers cfg p =
     (if Monitoring_Enabled (Monitoring cfg)
      then act (Go MetricsServer) (act (Go HealthServer) (act (MarkReady False) p)) else p)"

definition start_kafka :: "Config \<Rightarrow> bool \<Rightarrow> proc \<Rightarrow> proc" where
  "start_kafka cfg producer_ok p =
     (let p1 = (if producer_ok then open_closing KafkaProducer p else p);
          p2 = (if log_to_kafka cfg
                then (if producer_ok then act (Open LogCore) else id) (act (InitLogger producer_ok) p1) else p1)
      in if producer_ok then act (Open KafkaWriter) p2 else p2)"

definition start_goroutines :: "Config \<Rightarrow> proc \<Rightarrow> proc" where
  "start_goroutines cfg p =
     (let p1 = act (Go WriteToKafka) (act (Go ProcessEvents) (act (Go ReconnectManager) p))
      in if Monitoring_Enabled (Monitoring cfg) then act (MarkReady True) (act (Go MemoryMonitor) p1) else p1)"

section \<open>Shutdown\<close>

definition shutdown :: "Config \<Rightarrow> bool \<Rightarrow> proc \<Rightarrow> proc" where
  "shutdown cfg producer_ok p =
     (let p1 = act AwaitSignal p;
          p2 = (if Monitoring_Enabled (Monitoring cfg) then act MarkShutdown p1 else p1);
          p3 = act AwaitQueue (act CancelContext p2);
          p4 = (if producer_ok then act AwaitWriter (act (Close KafkaWriter) p3) else p3);
          p5 = (if Monitoring_Enabled (Monitoring cfg)
                then act (StopServer MetricsServer) (act (StopServer HealthServer) p4) else p4)
      in act SyncLogs (act AwaitGoroutines p5))"

section \<open>The whole of main\<close>

definition run_main :: "'e main_env \<Rightarrow> exit_status \<times> action list" where
  "run_main env =
     (case me_load env of
        Inl err \<Rightarrow> (Exit1, [PrintError])
      | Inr cfg \<Rightarrow>
          if Validate cfg \<noteq> None then (Exit1, [PrintError])
          else
            (let p = defer_call CancelContext (defer_call SyncLogs (act (InitLogger False) \<lparr>pr_done = [], pr_deferred = []\<rparr>))
             in if \<not> me_client_ok env then (Exit1, pr_done p)
                else
                  (let p1 = open_closing EventQueue (open_closing GrpcClient p)
                   in if AutoCreate (TopicAdmin (Kafka cfg)) \<and> \<not> me_admin_ok env then (Exit1, pr_done p1)
                      else
                        (let p2 = (if AutoCreate (TopicAdmin (Kafka cfg))
                                   then act EnsureAllTopics (open_closing TopicAdminClient p1) else p1);
                             p3 = start_servers cfg p2;
                             p4 = start_kafka cfg (me_producer_ok env) p3;
                             p5 = start_goroutines cfg p4;
                             p6 = shutdown cfg (me_producer_ok env) p5
                         in (Exit0, returned p6)))))"

section \<open>The trace of a normal run\<close>

definition servers :: "Config \<Rightarrow> action list \<Rightarrow> action list" where
  "servers cfg as = (if Monitoring_Enabled (Monitoring cfg) then as else [])"

lemma run_main_trace:
  assumes "run_main env = (Exit0, tr)"
  obtains cfg where "me_load env = Inr cfg" "Validate cfg = None" "me_client_ok env"
    "AutoCreate (TopicAdmin (Kafka cfg)) \<longrightarrow> me_admin_ok env"
    "tr =
      [InitLogger False, Open GrpcClient, Open EventQueue] @
      (if AutoCreate (TopicAdmin (Kafka cfg)) then [Open TopicAdminClient, EnsureAllTopics] else []) @
      servers cfg [MarkReady False, Go HealthServer, Go MetricsServer] @
      (if me_producer_ok env then [Open KafkaProducer] else []) @
      (if log_to_kafka cfg then InitLogger (me_producer_ok env) # (if me_producer_ok env then [Open LogCore] else []) else []) @
      (if me_producer_ok env then [Open KafkaWriter] else []) @
      [Go ReconnectManager, Go ProcessEvents, Go WriteToKafka] @
      servers cfg [Go MemoryMonitor, MarkReady True] @ [AwaitSignal] @ servers cfg [MarkShutdown] @
      [CancelContext, AwaitQueue] @ (if me_producer_ok env then [Close KafkaWriter, AwaitWriter] else []) @
      servers cfg [StopServer HealthServer, StopServer MetricsServer] @ [AwaitGoroutines, SyncLogs] @
      (if me_producer_ok env then [Close KafkaProducer] else []) @
      (if AutoCreate (TopicAdmin (Kafka cfg)) then [Close TopicAdminClient] else []) @
      [Close EventQueue, Close GrpcClient, CancelContext, SyncLogs]"
proof -
  obtain cfg where l: "me_load env = Inr cfg" using assms by (cases "me_load env") (simp_all add: run_main_def)
  have ok: "Validate cfg = None" "me_client_ok env" "AutoCreate (TopicAdmin (Kafka cfg)) \<longrightarrow> me_admin_ok env"
    using assms l by (auto simp: run_main_def Let_def split: if_splits)
  show thesis
    by (rule that [OF l ok])
      (use assms l ok in \<open>auto simp: run_main_def Let_def act_def defer_call_def open_closing_def returned_def servers_def
         start_servers_def start_kafka_def start_goroutines_def shutdown_def split: if_splits\<close>)
qed

text \<open>
  Exit status.  The program ends with status 1 exactly when the configuration cannot be loaded or is rejected, the gRPC
  client cannot be made, or topics are to be created and the Kafka administrator cannot be made; a missing producer is no
  reason.  A run that ends so has closed nothing: no deferred call runs.
\<close>

theorem exit_status_exact:
  "(fst (run_main env) = Exit1 \<longleftrightarrow>
     (case me_load env of
        Inl err \<Rightarrow> True
      | Inr cfg \<Rightarrow> Validate cfg \<noteq> None \<or> \<not> me_client_ok env \<or> AutoCreate (TopicAdmin (Kafka cfg)) \<and> \<not> me_admin_ok env)) \<and>
   (fst (run_main env) = Exit1 \<longrightarrow> Close r \<notin> set (snd (run_main env)))"
  by (cases "me_load env") (auto simp: run_main_def Let_def act_def defer_call_def open_closing_def)

definition example_env :: "bool \<Rightarrow> unit main_env" where
  "example_env client_ok = \<lparr>me_load = Inr DefaultConfig, me_client_ok = client_ok, me_admin_ok = True, me_producer_ok = True,
     me_reconnects = [False, True]\<rparr>"

lemma example_env_loads [simp]: "me_load (example_env b) = Inr DefaultConfig" "me_client_ok (example_env b) = b"
  "me_admin_ok (example_env b)" "me_producer_ok (example_env b)" "me_reconnects (example_env b) = [False, True]"
  by (simp_all add: example_env_def)

theorem exit_status_exact_witness:
  "fst (run_main (example_env False)) = Exit1 \<and> Close GrpcClient \<notin> set (snd (run_main (example_env False)))"
  using exit_status_exact [of "example_env False" GrpcClient] by simp

section \<open>Who closes what\<close>

text \<open>
  What the reconnect manager does to its clients: at every reconnect it closes the current one, if there is one, and makes a new one,
  which may fail and then leaves it without a client.  It starts with main's client and closes nothing when it stops.
\<close>

fun manager_actions :: "resource option \<Rightarrow> nat \<Rightarrow> bool list \<Rightarrow> action list" where
  "manager_actions client n [] = []"
| "manager_actions client n (ok # oks) =
     (case client of Some r \<Rightarrow> [Close r] | None \<Rightarrow> []) @
     (if ok then Open (Reconnected n) # manager_actions (Some (Reconnected n)) (Suc n) oks else manager_actions None n oks)"

text \<open>A normal run of main with the manager's actions somewhere after the manager's start.\<close>

definition program_trace :: "'e main_env \<Rightarrow> action list \<Rightarrow> bool" where
  "program_trace env tr \<longleftrightarrow>
     (case run_main env of
        (Exit1, _) \<Rightarrow> False
      | (Exit0, main) \<Rightarrow>
          tr \<in> (@) (takeWhile (\<lambda>a. a \<noteq> Go ReconnectManager) main) `
            shuffles (dropWhile (\<lambda>a. a \<noteq> Go ReconnectManager) main)
              (manager_actions (Some GrpcClient) 0 (me_reconnects env)))"

definition clients_made :: "bool list \<Rightarrow> nat" where
  "clients_made oks = length (filter id oks)"

text \<open>The manager's clients that are replaced, all but the one it holds at the end.\<close>

definition clients_replaced :: "bool list \<Rightarrow> nat" where
  "clients_replaced oks = clients_made oks - (if oks \<noteq> [] \<and> last oks then 1 else 0)"

lemma manager_opens:
  "count_list (manager_actions client n oks) (Open r) =
     (case r of Reconnected k \<Rightarrow> if n \<le> k \<and> k < n + clients_made oks then 1 else 0 | _ \<Rightarrow> 0)"
  by (induction client n oks rule: manager_actions.induct)
    (auto simp: clients_made_def split: resource.split option.split)

lemma manager_closes:
  assumes "\<forall>k \<ge> n. client \<noteq> Some (Reconnected k)"
  shows "count_list (manager_actions client n oks) (Close r) =
     (if client = Some r \<and> oks \<noteq> [] then 1 else 0) +
     (case r of Reconnected k \<Rightarrow> if n \<le> k \<and> k < n + clients_replaced oks then 1 else 0 | _ \<Rightarrow> 0)"
  using assms
proof (induction client n oks rule: manager_actions.induct)
  case (2 client n ok oks)
  show ?case
  proof (cases ok)
    case True
    have "clients_replaced (True # oks) = (if oks = [] then 0 else Suc (clients_replaced oks))"
      by (cases oks rule: rev_cases) (auto simp: clients_replaced_def clients_made_def)
    then show ?thesis using 2 True by (auto split: resource.split option.split)
  next
    case False
    have "clients_replaced (False # oks) = clients_replaced oks"
      by (cases oks rule: rev_cases) (auto simp: clients_replaced_def clients_made_def)
    then show ?thesis using 2 False by (auto split: resource.split option.split)
  qed
qed (auto simp: clients_replaced_def clients_made_def split: resource.split)

lemma subseq_shuffles: "zs \<in> shuffles xs ys \<Longrightarrow> subseq xs zs"
  by (induction xs ys arbitrary: zs rule: shuffles.induct) auto

lemma program_trace_main:
  assumes "program_trace env tr"
  shows "\<exists>main. run_main env = (Exit0, main) \<and> subseq main tr \<and>
    (\<forall>a. count_list tr a = count_list main a + count_list (manager_actions (Some GrpcClient) 0 (me_reconnects env)) a)"
proof -
  obtain main where m: "run_main env = (Exit0, main)"
    using assms by (auto simp: program_trace_def split: prod.splits exit_status.splits)
  define pre where "pre = takeWhile (\<lambda>a. a \<noteq> Go ReconnectManager) main"
  define post where "post = dropWhile (\<lambda>a. a \<noteq> Go ReconnectManager) main"
  let ?M = "manager_actions (Some GrpcClient) 0 (me_reconnects env)"
  obtain zs where z: "zs \<in> shuffles post ?M" "tr = pre @ zs"
    using assms m by (auto simp: program_trace_def pre_def post_def)
  have main: "main = pre @ post" by (simp add: pre_def post_def)
  have "count_list tr a = count_list main a + count_list ?M a" for a
    using mset_shuffles [OF z(1)] z(2) main by (simp flip: count_mset)
  moreover have "subseq main tr" using main z(2) subseq_shuffles [OF z(1)] by (simp add: list_emb_append_mono)
  ultimately show ?thesis using m by blast
qed

text \<open>
  C22: Who closes what.  In a run that ends normally, with any number of reconnects at any time, the queue, the topic administrator, the
  producer and the writer are each closed exactly once if they were created, after their creation.  The gRPC client main makes is closed
  at the end, and once more before that if the manager reconnected.  Of the manager's clients each that was replaced is closed once, and the
  one it holds at the end is never closed; nor is the logger's Kafka core.
\<close>

theorem resources_bracketed:
  assumes "program_trace env tr" and "me_load env = Inr cfg"
  shows "(\<forall>r \<in> {EventQueue, TopicAdminClient, KafkaProducer, KafkaWriter}.
      count_list tr (Open r) \<le> 1 \<and> count_list tr (Close r) = count_list tr (Open r) \<and>
      (Open r \<in> set tr \<longrightarrow> subseq [Open r, Close r] tr)) \<and>
    count_list tr (Open GrpcClient) = 1 \<and> count_list tr (Close GrpcClient) = (if me_reconnects env = [] then 1 else 2) \<and>
    (\<forall>k. count_list tr (Open (Reconnected k)) = (if k < clients_made (me_reconnects env) then 1 else 0) \<and>
         count_list tr (Close (Reconnected k)) = (if k < clients_replaced (me_reconnects env) then 1 else 0)) \<and>
    count_list tr (Open LogCore) = (if me_producer_ok env \<and> log_to_kafka cfg then 1 else 0) \<and>
    count_list tr (Close LogCore) = 0"
proof -
  obtain main where m: "run_main env = (Exit0, main)" "subseq main tr"
    "\<forall>a. count_list tr a = count_list main a + count_list (manager_actions (Some GrpcClient) 0 (me_reconnects env)) a"
    using program_trace_main [OF assms(1)] by blast
  note counts = m(3) manager_opens manager_closes
  from m(1) show ?thesis
  proof (cases rule: run_main_trace)
    case (1 cfg')
    then have cfg: "cfg' = cfg" using assms(2) by simp
    have main: "\<forall>r \<in> {EventQueue, TopicAdminClient, KafkaProducer, KafkaWriter}.
        count_list main (Open r) \<le> 1 \<and> count_list main (Close r) = count_list main (Open r) \<and>
        (Open r \<in> set main \<longrightarrow> subseq [Open r, Close r] main)"
      by (simp add: 1(5) servers_def)
    have "count_list main (Open GrpcClient) = 1" "count_list main (Close GrpcClient) = 1"
      "count_list main (Open LogCore) = (if me_producer_ok env \<and> log_to_kafka cfg then 1 else 0)"
      "count_list main (Close LogCore) = 0" "\<And>k. count_list main (Open (Reconnected k)) = 0"
      "\<And>k. count_list main (Close (Reconnected k)) = 0"
      by (simp_all add: 1(5) servers_def cfg)
    moreover have "Open r \<in> set main \<and> subseq [Open r, Close r] tr"
      if "r \<in> {EventQueue, TopicAdminClient, KafkaProducer, KafkaWriter}" "Open r \<in> set tr" for r
    proof -
      have "count_list tr (Open r) = count_list main (Open r)" using that(1) by (auto simp: counts)
      then have "Open r \<in> set main" using that(2) by (metis count_list_0_iff)
      then show ?thesis using main that(1) m(2) subseq_order.trans by blast
    qed
    ultimately show ?thesis using main by (auto simp: counts)
  qed
qed

theorem resources_bracketed_witness:
  "\<exists>tr. program_trace (example_env True) tr \<and> count_list tr (Close GrpcClient) = 2 \<and> count_list tr (Open (Reconnected 0)) = 1 \<and>
     Close (Reconnected 0) \<notin> set tr"
proof -
  obtain st main where "run_main (example_env True) = (st, main)" by fastforce
  then have r: "run_main (example_env True) = (Exit0, main)"
    by (auto simp: run_main_def Let_def default_config_accepted split: if_splits)
  have "\<exists>zs. zs \<in> shuffles xs ys" for xs ys :: "action list"
    using splice_in_shuffles by blast
  then obtain tr where t: "program_trace (example_env True) tr"
    using r by (fastforce simp: program_trace_def)
  have "clients_made [False, True] = 1" "clients_replaced [False, True] = 0"
    by (simp_all add: clients_made_def clients_replaced_def)
  then have "count_list tr (Close GrpcClient) = 2" "count_list tr (Open (Reconnected 0)) = 1" "count_list tr (Close (Reconnected 0)) = 0"
    using resources_bracketed [OF t, of DefaultConfig] by simp_all
  then show ?thesis using t by (metis count_list_0_iff)
qed



section \<open>When the health endpoint says ready\<close>

text \<open>What main does to the health server, which it makes, with both flags false, when monitoring is on.\<close>

fun health_ops :: "action list \<Rightarrow> server_op list" where
  "health_ops [] = []"
| "health_ops (a # tr) =
     (case a of MarkReady b \<Rightarrow> [OpReady b] | MarkShutdown \<Rightarrow> [OpShutdown True] | _ \<Rightarrow> []) @ health_ops tr"

lemma settings_health_ops:
  "True \<in> set (ready_settings (health_ops tr)) \<Longrightarrow> MarkReady True \<in> set tr"
  "shutdown_settings (health_ops tr) = map (\<lambda>_. True) (filter (\<lambda>a. a = MarkShutdown) tr)"
proof -
  show "True \<in> set (ready_settings (health_ops tr)) \<Longrightarrow> MarkReady True \<in> set tr"
    by (induction tr) (auto split: action.splits)
  show "shutdown_settings (health_ops tr) = map (\<lambda>_. True) (filter (\<lambda>a. a = MarkShutdown) tr)"
    by (induction tr) (auto split: action.splits)
qed

lemma answered_200:
  assumes "resp_status (serve ''/health'' now q (fold apply_op (health_ops tr) (NewServer port))) = 200"
  shows "MarkReady True \<in> set tr \<and> MarkShutdown \<notin> set tr"
proof -
  have r: "last_ready (health_ops tr)" "\<not> last_shutdown (health_ops tr)"
    using assms by (auto simp: serve_def healthHandler_def fold_ops Let_def split: if_splits)
  have "True \<in> set (ready_settings (health_ops tr))"
    using r(1) last_in_set [of "ready_settings (health_ops tr)"] by (auto simp: last_ready_def split: if_splits)
  moreover have "MarkShutdown \<notin> set tr"
  proof
    assume "MarkShutdown \<in> set tr"
    then have "filter (\<lambda>a. a = MarkShutdown) tr \<noteq> []" by (simp add: filter_empty_conv)
    then have "last_shutdown (health_ops tr)"
      by (simp add: last_shutdown_def settings_health_ops(2) last_map)
    with r(2) show False by simp
  qed
  ultimately show ?thesis using settings_health_ops(1) by blast
qed

lemma prefix_past:
  assumes "prefix p (xs @ y # zs)" and "y \<notin> set xs" and "y \<in> set p"
  obtains p' where "p = xs @ y # p'" "prefix p' zs"
proof -
  have "\<not> prefix p xs" using assms(2,3) set_mono_prefix by blast
  then obtain us where "p = xs @ us" "prefix us (y # zs)" using assms(1) by (auto simp: prefix_append)
  then show thesis using that assms(2,3) by (cases us) auto
qed

text \<open>
  C20: Ready means running.  Whenever, at any moment of a normal run, the health endpoint answers 200, the connection, the queue and the
  three goroutines of the event path have been started, and the context has not been cancelled.
\<close>

theorem ready_means_running:
  assumes "run_main env = (Exit0, tr)" and "prefix p tr"
    and "resp_status (serve ''/health'' now q (fold apply_op (health_ops p) (NewServer port))) = 200"
  shows "{Open GrpcClient, Open EventQueue, Go ReconnectManager, Go ProcessEvents, Go WriteToKafka} \<subseteq> set p \<and>
    CancelContext \<notin> set p"
  using assms(1)
proof (cases rule: run_main_trace)
  case (1 cfg)
  note p = answered_200 [OF assms(3)]
  have m: "Monitoring_Enabled (Monitoring cfg)"
  proof (rule ccontr)
    assume "\<not> Monitoring_Enabled (Monitoring cfg)"
    then have "MarkReady True \<notin> set tr" by (auto simp: 1(5) servers_def)
    then show False using p set_mono_prefix [OF assms(2)] by blast
  qed
  let ?until = "takeWhile (\<lambda>a. a \<noteq> MarkReady True) tr" and ?rest = "tl (dropWhile (\<lambda>a. a \<noteq> MarkShutdown) tr)"
  have tr: "tr = ?until @ MarkReady True # AwaitSignal # MarkShutdown # ?rest"
    "{Open GrpcClient, Open EventQueue, Go ReconnectManager, Go ProcessEvents, Go WriteToKafka} \<subseteq> set ?until"
    "CancelContext \<notin> set ?until"
    by (cases "AutoCreate (TopicAdmin (Kafka cfg))"; cases "me_producer_ok env"; cases "log_to_kafka cfg";
        simp add: 1(5) servers_def m)+
  have "MarkReady True \<notin> set ?until" by (auto dest: set_takeWhileD)
  then obtain p' where p': "p = ?until @ MarkReady True # p'" "prefix p' (AwaitSignal # MarkShutdown # ?rest)"
    using prefix_past [OF _ _ conjunct1 [OF p]] assms(2) tr(1) by metis
  then have "set p' \<subseteq> {AwaitSignal}" using p by (auto simp: prefix_Cons)
  then show ?thesis using p'(1) tr by auto
qed

theorem ready_means_running_witness:
  "\<exists>tr p. run_main (example_env True) = (Exit0, tr) \<and> prefix p tr \<and> CancelContext \<notin> set p \<and> Go WriteToKafka \<in> set p"
proof -
  obtain st tr where "run_main (example_env True) = (st, tr)" by fastforce
  then have r: "run_main (example_env True) = (Exit0, tr)"
    by (auto simp: run_main_def Let_def split: if_splits)
  let ?p = "takeWhile (\<lambda>a. a \<noteq> AwaitSignal) tr"
  have m: "Monitoring_Enabled (Monitoring DefaultConfig)" by (simp add: DefaultConfig_def)
  have "health_ops ?p = [OpReady False, OpReady True]"
    using r by (cases rule: run_main_trace) (auto simp: servers_def m)
  then have "resp_status (serve ''/health'' 0 q (fold apply_op (health_ops ?p) (NewServer 8080))) = 200" for q
    by (simp add: serve_def healthHandler_def NewServer_def SetReady_def Let_def)
  from ready_means_running [OF r takeWhile_is_prefix this] r show ?thesis using takeWhile_is_prefix by blast
qed

end
