(* ===== verification/Throttle.thy ===== *)
theory Throttle
  imports Prelude
begin

text \<open>
  The three places that limit how often a line is logged: the full channel warning of \<^verbatim>\<open>internal/grpc/stream.go\<close>, and the progress
  lines of \<^verbatim>\<open>processEvents\<close> and \<^verbatim>\<open>writeToKafka\<close> in \<^verbatim>\<open>cmd/consumer/main.go\<close>.  Times are nanoseconds of the
  monotonic clock.
\<close>

definition second :: int where
  "second = 1000000000"

section \<open>The warning of the stream\<close>

text \<open>\<open>last\<close> is \<^verbatim>\<open>lastDropLogTime\<close>, \<open>None\<close> for the zero time.  Whether a line is logged, and the new time.\<close>

definition drop_warning :: "int option \<Rightarrow> int \<Rightarrow> bool \<times> int option" where
  "drop_warning last_log now =
     (if (case last_log of None \<Rightarrow> True | Some t \<Rightarrow> now - t > 10 * second) then (True, Some now) else (False, last_log))"

text \<open>The times of the lines logged for drops at the times given.\<close>

fun drop_warnings :: "int option \<Rightarrow> int list \<Rightarrow> int list" where
  "drop_warnings last_log [] = []"
| "drop_warnings last_log (now # ts) =
     (case drop_warning last_log now of
        (logged, last') \<Rightarrow> (if logged then [now] else []) @ drop_warnings last' ts)"

section \<open>The progress lines\<close>

text \<open>
  \<open>count\<close> is the number of events so far, this one included.  \<^verbatim>\<open>processEvents\<close> logs nothing between two lines,
  \<^verbatim>\<open>writeToKafka\<close> a debug line.
\<close>

definition progress_line :: "nat \<Rightarrow> int \<Rightarrow> int \<Rightarrow> bool \<times> int" where
  "progress_line count now last_log =
     (if count mod 100 = 0 \<or> now - last_log \<ge> 30 * second then (True, now) else (False, last_log))"

text \<open>
  An event that does not get to the line, because it is sampled out or not written, is \<open>None\<close>; it counts all the same.
\<close>

fun progress_lines :: "nat \<Rightarrow> int \<Rightarrow> int option list \<Rightarrow> bool list" where
  "progress_lines count last_log [] = []"
| "progress_lines count last_log (None # ts) = False # progress_lines (Suc count) last_log ts"
| "progress_lines count last_log (Some now # ts) =
     (case progress_line (Suc count) now last_log of
        (logged, last') \<Rightarrow> logged # progress_lines (Suc count) last' ts)"

section \<open>How many lines there are\<close>

lemma warnings_spaced:
  "sorted_wrt (\<lambda>a b. b - a > 10 * second) (drop_warnings last_log ts) \<and>
   (\<forall>t \<in> set (drop_warnings last_log ts). t \<in> set ts \<and> (case last_log of None \<Rightarrow> True | Some l \<Rightarrow> t - l > 10 * second))"
  if "sorted ts" for ts :: "int list"
  using that
proof (induction ts arbitrary: last_log)
  case (Cons now ts)
  show ?case
  proof (cases "fst (drop_warning last_log now)")
    case True
    then have "drop_warning last_log now = (True, Some now)" by (auto simp: drop_warning_def split: if_splits)
    with Cons True show ?thesis
      by (fastforce simp: drop_warning_def split: option.splits if_splits)
  next
    case False
    then have "drop_warning last_log now = (False, last_log)" by (auto simp: drop_warning_def split: if_splits)
    with Cons show ?thesis by (auto split: option.splits)
  qed
qed simp

lemma spaced_length:
  assumes "sorted_wrt (\<lambda>a b. b - a > d) ts" and "\<forall>t \<in> set ts. lo \<le> t \<and> t \<le> hi" and "0 < d" and "ts \<noteq> []"
  shows "int (length ts - 1) * d \<le> hi - lo"
  using assms
proof (induction ts arbitrary: lo)
  case (Cons t ts)
  show ?case
  proof (cases ts)
    case (Cons t' ts')
    have "\<forall>x \<in> set ts. t + d \<le> x \<and> x \<le> hi" using Cons.prems(1,2) by fastforce
    then have "int (length ts - 1) * d \<le> hi - (t + d)"
      using Cons.IH [of "t + d"] Cons.prems \<open>ts = t' # ts'\<close> by simp
    moreover have "lo \<le> t" using Cons.prems by simp
    ultimately show ?thesis using Cons by (simp add: algebra_simps)
  qed (use Cons.prems in auto)
qed simp

text \<open>
  Few warnings.  However often events are dropped, two warnings are more than ten seconds apart: in a stretch of time there is
  at most one warning for each ten seconds begun.
\<close>

theorem few_warnings:
  assumes "sorted ts" and "\<forall>t \<in> set ts. lo \<le> t \<and> t \<le> hi" and "lo \<le> hi"
  shows "int (length (drop_warnings last_log ts)) \<le> (hi - lo) div (10 * second) + 1"
proof (cases "drop_warnings last_log ts = []")
  case False
  let ?w = "drop_warnings last_log ts"
  note w = warnings_spaced [OF assms(1), of last_log]
  have "\<forall>t \<in> set ?w. lo \<le> t \<and> t \<le> hi" using w assms(2) by blast
  then have "int (length ?w - 1) * (10 * second) \<le> hi - lo"
    using spaced_length [of "10 * second" ?w lo hi] w False by (simp add: second_def)
  then have "int (length ?w - 1) \<le> (hi - lo) div (10 * second)"
    by (simp add: second_def zdiv_mono1 [of "int (length ?w - 1) * 10000000000" _ 10000000000, simplified])
  with False show ?thesis by (cases ?w) simp_all
qed (use assms(3) in \<open>simp add: second_def pos_imp_zdiv_nonneg_iff\<close>)

theorem few_warnings_witness:
  "int (length (drop_warnings None [0, 1, 5 * second, 11 * second, 12 * second])) \<le> 2"
  using few_warnings [of "[0, 1, 5 * second, 11 * second, 12 * second]" 0 "12 * second" None]
  by (simp add: second_def)

lemma hundreds_step:
  fixes k n :: nat
  shows "(k mod 100 + Suc n) div 100 = (Suc k mod 100 + n) div 100 + (if Suc k mod 100 = 0 then 1 else 0)"
proof (cases "Suc (k mod 100) = 100")
  case True
  then have "Suc k mod 100 = 0" and "k mod 100 = 99" by (simp_all add: mod_Suc)
  moreover have "(99 + Suc n) div 100 = n div 100 + 1" using div_add_self1 [of 100 n] by simp
  ultimately show ?thesis by simp
qed (simp add: mod_Suc)

text \<open>
  Few progress lines.  From a start of the loop to \<open>hi\<close> there are at most as many progress lines as hundreds of events and half
  minutes together.
\<close>

theorem few_progress_lines:
  assumes "sorted (List.map_filter (\<lambda>t. t) ts)" and "\<forall>t \<in> set (List.map_filter (\<lambda>t. t) ts). start \<le> t \<and> t \<le> hi" and "start \<le> hi"
  shows "int (length (filter (\<lambda>b. b) (progress_lines 0 start ts))) \<le> int (length ts div 100) + (hi - start) div (30 * second)"
proof -
  have "int (length (filter (\<lambda>b. b) (progress_lines k l ts))) \<le> int ((k mod 100 + length ts) div 100) + (hi - l) div (30 * second)"
    if "sorted (List.map_filter (\<lambda>t. t) ts)" "\<forall>t \<in> set (List.map_filter (\<lambda>t. t) ts). l \<le> t \<and> t \<le> hi" "l \<le> hi" for k l
    using that
  proof (induction ts arbitrary: k l)
    case (Cons e ts)
    have n: "int ((k mod 100 + length (e # ts)) div 100) =
        int ((Suc k mod 100 + length ts) div 100) + (if Suc k mod 100 = 0 then 1 else 0)"
      using hundreds_step [of k "length ts"] by simp
    show ?case
    proof (cases e)
      case None
      with Cons.IH [of l "Suc k"] Cons.prems n show ?thesis by (cases "Suc k mod 100 = 0") simp_all
    next
      case (Some now)
      have s: "sorted (List.map_filter (\<lambda>t. t) ts)" "\<forall>t \<in> set (List.map_filter (\<lambda>t. t) ts). now \<le> t \<and> t \<le> hi" "l \<le> now" "now \<le> hi"
        using Cons.prems Some by auto
      have step: "(hi - now) div (30 * second) \<le> (hi - l) div (30 * second)" using s(3) by (simp add: second_def zdiv_mono1)
      have late: "(hi - now) div (30 * second) + 1 \<le> (hi - l) div (30 * second)" if "now - l \<ge> 30 * second"
      proof -
        have "(hi - now + 30 * second) div (30 * second) \<le> (hi - l) div (30 * second)"
          using that by (simp add: second_def zdiv_mono1)
        then show ?thesis by (simp add: second_def)
      qed
      note now = Cons.IH [of now "Suc k", OF s(1,2,4)]
      have keep: "\<forall>t \<in> set (List.map_filter (\<lambda>t. t) ts). l \<le> t \<and> t \<le> hi" using s(2,3) by auto
      note old = Cons.IH [of l "Suc k", OF s(1) keep Cons.prems(3)]
      show ?thesis
        using now old n step late Some by (cases "Suc k mod 100 = 0"; cases "now - l \<ge> 30 * second") (simp_all add: progress_line_def)
    qed
  qed (simp add: second_def pos_imp_zdiv_nonneg_iff)
  from this [of start 0] assms show ?thesis by simp
qed

theorem few_progress_lines_witness:
  "int (length (filter (\<lambda>b. b) (progress_lines 0 0 [Some second, None, Some (31 * second)]))) \<le> 1"
  using few_progress_lines [of "[Some second, None, Some (31 * second)]" 0 "31 * second"]
  by (simp add: second_def)

end
