(* ===== verification/Grpc_Reconnect.thy ===== *)
theory Grpc_Reconnect
  imports Grpc_Stream
begin

text \<open>
  \<^verbatim>\<open>internal/grpc/reconnect.go\<close>: the loop that reads the stream and reconnects with exponential backoff
  and jitter.  What the environment decides in one turn of the loop is an \<open>attempt_env\<close>: the context at the three
  places it is looked at, the stream's behaviour, the jitter, and whether the new client could be made.
\<close>

record ('conn, 'e) attempt_env =
  at_ctx :: ctx                        \<comment> \<open>at the head of the loop\<close>
  at_open :: "'e option"               \<comment> \<open>opening the stream\<close>
  at_now :: int
  at_turns :: "'e read_turn list"
  at_ctx_after :: ctx                  \<comment> \<open>after the stream ended\<close>
  at_jitter :: nat                     \<comment> \<open>\<^verbatim>\<open>rng.Intn(1000)\<close>\<close>
  at_new :: "'conn option"             \<comment> \<open>the new client, \<open>None\<close> when it could not be created\<close>
  at_sleep_ctx :: ctx
  at_sleep_pick :: bool                \<comment> \<open>with the timer also ready: the done case was picked\<close>

record 'conn reconnect_state =
  rs_attempt :: nat
  rs_client :: "'conn option"
  rs_ch :: "event chan"
  rs_metrics :: metrics
  rs_backoffs :: "duration list"       \<comment> \<open>the waits so far, in order\<close>
  rs_closed :: "'conn list"            \<comment> \<open>the clients it has closed, in order\<close>

datatype stop_reason = StopCtx | StopClosed | StopMaxAttempts | StopPanic

datatype 'conn run_result = Running "'conn reconnect_state" | Stopped stop_reason "'conn reconnect_state"

definition jittered :: "Config \<Rightarrow> nat \<Rightarrow> nat \<Rightarrow> duration" where
  "jittered cfg attempt jitter =
     (let backoff = GetReconnectBackoff cfg attempt
      in if Jitter (Reconnect (Stream (Tetragon cfg))) then backoff + of_nat jitter * Millisecond else backoff)"

text \<open>
  From the second look at the context to the end of the turn.  The interval since the last reconnect is
  observed from the second reconnect on.  The wait's select ends with the timer or the context.
\<close>

definition reconnect_rest ::
  "Config \<Rightarrow> ('conn, 'e) attempt_env \<Rightarrow> 'conn reconnect_state \<Rightarrow> 'conn run_result" where
  "reconnect_rest cfg env s =
     (let maxAttempts = MaxAttempts (Reconnect (Stream (Tetragon cfg)))
      in if ctx_done (at_ctx_after env) then Stopped StopCtx s
         else if maxAttempts > 0 \<and> int (rs_attempt s) \<ge> maxAttempts then Stopped StopMaxAttempts s
         else
           (let backoff = jittered cfg (rs_attempt s) (at_jitter env);
                m = rs_metrics s;
                m1 = m\<lparr>GrpcReconnectTotal := Suc (GrpcReconnectTotal m), GrpcStreamUptimeSeconds := 0\<rparr>;
                m2 = (if rs_attempt s > 0
                      then m1\<lparr>GrpcReconnectIntervalSeconds := Suc (GrpcReconnectIntervalSeconds m1)\<rparr> else m1);
                s1 = s\<lparr>rs_metrics := m2, rs_closed := rs_closed s @ (case rs_client s of Some c \<Rightarrow> [c] | None \<Rightarrow> []),
                       rs_client := at_new env, rs_backoffs := rs_backoffs s @ [backoff]\<rparr>
            in if ctx_done (at_sleep_ctx env) \<and> at_sleep_pick env then Stopped StopCtx s1
               else Running (s1\<lparr>rs_attempt := Suc (rs_attempt s1)\<rparr>)))"

text \<open>
  One turn of \<^verbatim>\<open>RunWithReconnect\<close>.  \<open>None\<close>: the stream has not ended within the turns it was given, so the
  loop is still inside \<^verbatim>\<open>ReadEvents\<close>.
\<close>

definition reconnect_turn ::
  "Config \<Rightarrow> ('conn, 'e) attempt_env \<Rightarrow> 'conn reconnect_state \<Rightarrow> 'conn run_result option" where
  "reconnect_turn cfg env s =
     (if ctx_done (at_ctx env) then Some (Stopped StopCtx s)
      else
        (case rs_client s of
           None \<Rightarrow> Some (reconnect_rest cfg env s)
         | Some _ \<Rightarrow>
             (case ReadEvents (at_open env) (at_now env) (at_turns env) (rs_ch s, rs_metrics s) of
                (ReadContinues, _) \<Rightarrow> None
              | (ReadPanics, ch, m) \<Rightarrow> Some (Stopped StopPanic (s\<lparr>rs_ch := ch, rs_metrics := m\<rparr>))
              | (ReadReturns err, ch, m) \<Rightarrow>
                  (let s1 = s\<lparr>rs_ch := ch, rs_metrics := m\<lparr>GrpcConnectionStatus := False\<rparr>\<rparr>
                   in if err = None then Some (Stopped StopClosed s1)
                      else Some (reconnect_rest cfg env s1)))))"

text \<open>
  The loop over a sequence of turns; \<open>Some (Running s)\<close> when the sequence ends before the loop,
  \<open>None\<close> when a stream is still being read.
\<close>

fun RunWithReconnect ::
  "Config \<Rightarrow> ('conn, 'e) attempt_env list \<Rightarrow> 'conn reconnect_state \<Rightarrow> 'conn run_result option" where
  "RunWithReconnect cfg [] s = Some (Running s)"
| "RunWithReconnect cfg (env # envs) s =
     (case reconnect_turn cfg env s of
        Some (Running s') \<Rightarrow> RunWithReconnect cfg envs s'
      | r \<Rightarrow> r)"

definition reconnect_init :: "'conn option \<Rightarrow> event chan \<Rightarrow> metrics \<Rightarrow> 'conn reconnect_state" where
  "reconnect_init client ch m = \<lparr>rs_attempt = 0, rs_client = client, rs_ch = ch, rs_metrics = m, rs_backoffs = [], rs_closed = []\<rparr>"

section \<open>Bounded retries and the backoff sequence\<close>

fun result_state :: "'conn run_result \<Rightarrow> 'conn reconnect_state" where
  "result_state (Running s) = s"
| "result_state (Stopped _ s) = s"

text \<open>
  The invariant: the waits so far are the backoffs of attempts 0, 1, \<dots>, and their number is the number of
  attempts made, or one more while the last one is slept off.
\<close>

definition backoff_upto :: "Config \<Rightarrow> duration list \<Rightarrow> bool" where
  "backoff_upto cfg bs \<longleftrightarrow>
     (\<exists>js. length js = length bs \<and> bs = map2 (jittered cfg) [0 ..< length bs] js)"

definition attempts_ok :: "Config \<Rightarrow> 'conn run_result \<Rightarrow> bool" where
  "attempts_ok cfg r \<longleftrightarrow>
     backoff_upto cfg (rs_backoffs (result_state r)) \<and>
     (case r of
        Running s \<Rightarrow> length (rs_backoffs s) = rs_attempt s
      | Stopped _ s \<Rightarrow> length (rs_backoffs s) \<in> {rs_attempt s, Suc (rs_attempt s)}) \<and>
     (0 < MaxAttempts (Reconnect (Stream (Tetragon cfg))) \<longrightarrow>
        int (length (rs_backoffs (result_state r))) \<le> MaxAttempts (Reconnect (Stream (Tetragon cfg))))"

lemma backoff_upto_snoc:
  assumes "backoff_upto cfg bs"
  shows "backoff_upto cfg (bs @ [jittered cfg (length bs) j])"
proof -
  obtain js where js: "length js = length bs" "bs = map2 (jittered cfg) [0 ..< length bs] js"
    using assms by (auto simp: backoff_upto_def)
  have "map2 (jittered cfg) [0 ..< Suc (length bs)] (js @ [j])
      = map2 (jittered cfg) [0 ..< length bs] js @ [jittered cfg (length bs) j]"
    using js(1) by simp
  then show ?thesis
    unfolding backoff_upto_def using js by (intro exI [of _ "js @ [j]"]) simp
qed

lemma rest_attempts_ok:
  assumes "attempts_ok cfg (Running s)"
  shows "attempts_ok cfg (reconnect_rest cfg env s)"
  using assms backoff_upto_snoc [of cfg "rs_backoffs s" "at_jitter env"]
  by (auto simp: attempts_ok_def reconnect_rest_def Let_def)

lemma turn_attempts_ok:
  assumes "attempts_ok cfg (Running s)" and "reconnect_turn cfg env s = Some r"
  shows "attempts_ok cfg r"
proof -
  have upd: "attempts_ok cfg (Running (s\<lparr>rs_ch := ch, rs_metrics := m\<rparr>))"
    "attempts_ok cfg (Stopped why (s\<lparr>rs_ch := ch, rs_metrics := m\<rparr>))" for why ch m
    using assms(1) by (auto simp: attempts_ok_def)
  have "attempts_ok cfg (Stopped StopCtx s)" using assms(1) by (auto simp: attempts_ok_def)
  then show ?thesis
    using assms(2) upd rest_attempts_ok [OF upd(1)] rest_attempts_ok [OF assms(1)]
    by (auto simp: reconnect_turn_def Let_def split: if_splits option.splits prod.splits read_result.splits)
qed

lemma run_attempts_ok:
  "attempts_ok cfg (Running s) \<Longrightarrow> RunWithReconnect cfg envs s = Some r \<Longrightarrow> attempts_ok cfg r"
proof (induction envs arbitrary: s)
  case (Cons env envs)
  then show ?case
    using turn_attempts_ok [OF Cons.prems(1), of env]
    by (auto split: option.splits run_result.splits)
qed simp

lemma attempts_ok_init [simp]: "attempts_ok cfg (Running (reconnect_init client ch m))"
  by (simp add: attempts_ok_def reconnect_init_def backoff_upto_def)

lemma turn_progress:
  assumes "reconnect_turn cfg env s = Some (Running s')"
  shows "rs_attempt s' = Suc (rs_attempt s)"
  using assms
  by (auto simp: reconnect_turn_def reconnect_rest_def Let_def
      split: if_splits option.splits prod.splits read_result.splits)

lemma run_progress:
  "RunWithReconnect cfg envs s = Some (Running s') \<Longrightarrow> rs_attempt s' = rs_attempt s + length envs"
proof (induction envs arbitrary: s)
  case (Cons env envs)
  then obtain s1 where "reconnect_turn cfg env s = Some (Running s1)" "RunWithReconnect cfg envs s1 = Some (Running s')"
    by (auto split: option.splits run_result.splits)
  then show ?case using Cons.IH turn_progress by fastforce
qed simp

lemma turn_not_closed: "reconnect_turn cfg env s = Some (Stopped StopClosed s') \<Longrightarrow> False"
  using ReadEvents_never_nil [of "at_open env" "at_now env" "at_turns env" "(rs_ch s, rs_metrics s)"]
  by (auto simp: reconnect_turn_def reconnect_rest_def Let_def
      split: if_splits option.splits prod.splits read_result.splits)

lemma run_not_closed: "RunWithReconnect cfg envs s \<noteq> Some (Stopped StopClosed s')"
proof (induction envs arbitrary: s)
  case (Cons env envs)
  then show ?case using turn_not_closed by (auto split: option.splits run_result.splits)
qed simp

definition chan_ok :: "event chan \<Rightarrow> bool" where
  "chan_ok ch \<longleftrightarrow> \<not> chan_closed ch \<and> chan_wf ch"

lemma ReadEvents_chan_ok:
  "chan_ok ch \<Longrightarrow> ReadEvents open_error now ts (ch, m) = (r, ch', m') \<Longrightarrow> chan_ok ch' \<and> r \<noteq> ReadPanics"
  using loop_accounting [of ts ch _ r ch' m']
  by (auto simp: chan_ok_def ReadEvents_def split: option.splits)

lemma turn_stop_reason:
  assumes "chan_ok (rs_ch s)" and "reconnect_turn cfg env s = Some r"
  shows "case r of Running s' \<Rightarrow> chan_ok (rs_ch s')
    | Stopped why s' \<Rightarrow> why = StopCtx \<or> why = StopMaxAttempts \<and> 0 < MaxAttempts (Reconnect (Stream (Tetragon cfg)))"
proof -
  obtain res ch m where e: "ReadEvents (at_open env) (at_now env) (at_turns env) (rs_ch s, rs_metrics s) = (res, ch, m)"
    by (metis prod_cases3)
  have "chan_ok ch" "res \<noteq> ReadPanics" "res \<noteq> ReadReturns None"
    using ReadEvents_chan_ok [OF assms(1) e] e
      ReadEvents_never_nil [of "at_open env" "at_now env" "at_turns env" "(rs_ch s, rs_metrics s)"] by auto
  then show ?thesis
    using assms e
    by (auto simp: reconnect_turn_def reconnect_rest_def Let_def split: if_splits option.splits read_result.splits)
qed

lemma run_stop_reason:
  "chan_ok (rs_ch s) \<Longrightarrow> RunWithReconnect cfg envs s = Some (Stopped why s') \<Longrightarrow>
     why = StopCtx \<or> why = StopMaxAttempts \<and> 0 < MaxAttempts (Reconnect (Stream (Tetragon cfg)))"
proof (induction envs arbitrary: s)
  case (Cons env envs)
  then obtain r where r: "reconnect_turn cfg env s = Some r" by (auto split: option.splits)
  show ?case
    using turn_stop_reason [OF Cons.prems(1) r] Cons.prems(2) Cons.IH r by (cases r) auto
qed simp

text \<open>
  C25: The reconnect loop stops only for a reason.  With the event channel open, the loop ends only because the context
  is done, or because a positive limit on the attempts is reached: with the default of no limit it reconnects for ever, and neither
  the end of a stream nor a failing client ends it.
\<close>

theorem reconnect_stop_reason:
  assumes "\<not> chan_closed ch" and "chan_wf ch"
    and "RunWithReconnect cfg envs (reconnect_init client ch m) = Some (Stopped why s)"
  shows "why = StopCtx \<or> why = StopMaxAttempts \<and> 0 < MaxAttempts (Reconnect (Stream (Tetragon cfg)))"
  using run_stop_reason [OF _ assms(3)] assms(1,2) by (simp add: reconnect_init_def chan_ok_def)

text \<open>A turn whose stream cannot be opened, and one at whose head the context is done.\<close>

definition failing_attempt :: "(unit, unit) attempt_env" where
  "failing_attempt = \<lparr>at_ctx = None, at_open = Some (), at_now = 0, at_turns = [], at_ctx_after = None,
     at_jitter = 7, at_new = Some (), at_sleep_ctx = None, at_sleep_pick = False\<rparr>"

definition last_attempt :: "(unit, unit) attempt_env" where
  "last_attempt = failing_attempt\<lparr>at_ctx := Some Canceled\<rparr>"

lemmas attempt_eval = failing_attempt_def last_attempt_def reconnect_turn_def reconnect_rest_def
  reconnect_init_def ReadEvents_def ctx_done_def

theorem reconnect_stop_reason_witness:
  "\<exists>s. RunWithReconnect DefaultConfig [failing_attempt, failing_attempt, last_attempt]
     (reconnect_init (Some ()) (make_chan 1) metrics_init) = Some (Stopped StopCtx s)"
proof -
  obtain why s where r: "RunWithReconnect DefaultConfig [failing_attempt, failing_attempt, last_attempt]
      (reconnect_init (Some ()) (make_chan 1) metrics_init) = Some (Stopped why s)"
    by (simp add: attempt_eval Let_def DefaultConfig_def)
  then show ?thesis
    using reconnect_stop_reason [OF _ _ r] by (auto simp: make_chan_def chan_wf_def chan_len_def DefaultConfig_def)
qed

text \<open>
  C24: Retries are bounded.  With a positive limit the loop waits at most that many times, and after more turns than the
  limit it has stopped.
\<close>

theorem retries_bounded:
  assumes "0 < MaxAttempts (Reconnect (Stream (Tetragon cfg)))"
    and "RunWithReconnect cfg envs (reconnect_init client ch m) = Some r"
  shows "int (length (rs_backoffs (result_state r))) \<le> MaxAttempts (Reconnect (Stream (Tetragon cfg))) \<and>
    (MaxAttempts (Reconnect (Stream (Tetragon cfg))) < int (length envs) \<longrightarrow> (\<exists>why s. r = Stopped why s))"
proof -
  have ok: "attempts_ok cfg r" using run_attempts_ok [OF attempts_ok_init assms(2)] .
  then have le: "int (length (rs_backoffs (result_state r))) \<le> MaxAttempts (Reconnect (Stream (Tetragon cfg)))"
    using assms(1) by (simp add: attempts_ok_def)
  have "r \<noteq> Running s" if "MaxAttempts (Reconnect (Stream (Tetragon cfg))) < int (length envs)" for s
  proof
    assume r: "r = Running s"
    then have "rs_attempt s = length envs" using run_progress assms(2) by (fastforce simp: reconnect_init_def)
    then show False using ok le that r by (simp add: attempts_ok_def)
  qed
  then show ?thesis using le by (cases r) auto
qed

definition two_attempts :: Config where
  "two_attempts = DefaultConfig\<lparr>Tetragon := (Tetragon DefaultConfig)\<lparr>Stream := (Stream (Tetragon DefaultConfig))
     \<lparr>Reconnect := \<lparr>InitialBackoffSeconds = 1, MaxBackoffSeconds = 30, MaxAttempts = 2, Jitter = False\<rparr>\<rparr>\<rparr>\<rparr>"

theorem retries_bounded_witness:
  "\<exists>why s. RunWithReconnect two_attempts (replicate 3 failing_attempt)
     (reconnect_init (Some ()) (make_chan 1) metrics_init) = Some (Stopped why s) \<and> length (rs_backoffs s) \<le> 2"
proof -
  obtain r where r: "RunWithReconnect two_attempts (replicate 3 failing_attempt)
      (reconnect_init (Some ()) (make_chan 1) metrics_init) = Some r"
    by (simp add: attempt_eval Let_def two_attempts_def DefaultConfig_def numeral_3_eq_3)
  have "0 < MaxAttempts (Reconnect (Stream (Tetragon two_attempts)))" by (simp add: two_attempts_def)
  from retries_bounded [OF this r] r show ?thesis by (auto simp: two_attempts_def)
qed

text \<open>
  C27: The backoff never resets.  Without jitter the waits of a run are the backoffs of attempts 0, 1, 2, \<dots> in
  order, whatever happened in between: a stream that was healthy for days does not bring the backoff down again.
\<close>

theorem backoff_never_resets:
  assumes "\<not> Jitter (Reconnect (Stream (Tetragon cfg)))"
    and "RunWithReconnect cfg envs (reconnect_init client ch m) = Some r"
  shows "rs_backoffs (result_state r) =
    map (GetReconnectBackoff cfg) [0 ..< length (rs_backoffs (result_state r))]"
proof -
  let ?bs = "rs_backoffs (result_state r)"
  obtain js where js: "length js = length ?bs" "?bs = map2 (jittered cfg) [0 ..< length ?bs] js"
    using run_attempts_ok [OF attempts_ok_init assms(2)] unfolding attempts_ok_def backoff_upto_def by blast
  have "map2 (jittered cfg) xs js = map (GetReconnectBackoff cfg) xs" if "length js = length xs" for xs
    using that assms(1) by (induction xs js rule: list_induct2') (simp_all add: jittered_def)
  then show ?thesis using js by (metis diff_zero length_upt)
qed

theorem backoff_never_resets_witness:
  "\<exists>r. RunWithReconnect two_attempts [failing_attempt, failing_attempt]
     (reconnect_init (Some ()) (make_chan 1) metrics_init) = Some r \<and>
     rs_backoffs (result_state r) = [1000000000, 2000000000]"
proof -
  obtain r where r: "RunWithReconnect two_attempts [failing_attempt, failing_attempt]
      (reconnect_init (Some ()) (make_chan 1) metrics_init) = Some r" "length (rs_backoffs (result_state r)) = 2"
    by (simp add: attempt_eval Let_def two_attempts_def DefaultConfig_def)
  have "rs_backoffs (result_state r) = map (GetReconnectBackoff two_attempts) [0 ..< 2]"
    using backoff_never_resets [OF _ r(1)] r(2) by (simp add: two_attempts_def)
  also have "\<dots> = [1000000000, 2000000000]"
    by (simp add: GetReconnectBackoff_def two_attempts_def seconds_def Second_def word_sless_alt
        numeral_2_eq_2)
  finally show ?thesis using r(1) by blast
qed

section \<open>The connections\<close>

definition client_list :: "'conn option \<Rightarrow> 'conn list" where
  "client_list c = (case c of Some conn \<Rightarrow> [conn] | None \<Rightarrow> [])"

lemma turn_connections:
  assumes "reconnect_turn cfg env s = Some r"
  obtains (kept) why where "r = Stopped why (result_state r)" "rs_backoffs (result_state r) = rs_backoffs s"
      "rs_closed (result_state r) = rs_closed s" "rs_client (result_state r) = rs_client s"
    | (replaced) "length (rs_backoffs (result_state r)) = Suc (length (rs_backoffs s))"
      "rs_closed (result_state r) = rs_closed s @ client_list (rs_client s)" "rs_client (result_state r) = at_new env"
proof -
  have rest: thesis if "r = reconnect_rest cfg env s1" "rs_backoffs s1 = rs_backoffs s" "rs_closed s1 = rs_closed s"
    "rs_client s1 = rs_client s" for s1
    using that kept replaced by (auto simp: reconnect_rest_def Let_def client_list_def split: if_splits)
  have stop: thesis if "r = Stopped why s1" "rs_backoffs s1 = rs_backoffs s" "rs_closed s1 = rs_closed s"
    "rs_client s1 = rs_client s" for why s1
    using that kept by simp
  show thesis
  proof (cases "ctx_done (at_ctx env) \<or> rs_client s = None")
    case True
    then have "r = Stopped StopCtx s \<or> r = reconnect_rest cfg env s"
      using assms by (auto simp: reconnect_turn_def split: if_splits)
    then show thesis by (elim disjE) (erule stop rest; simp)+
  next
    case False
    then obtain c where c: "rs_client s = Some c" by blast
    obtain res ch m where e: "ReadEvents (at_open env) (at_now env) (at_turns env) (rs_ch s, rs_metrics s) = (res, ch, m)"
      by (metis prod_cases3)
    let ?s1 = "s\<lparr>rs_ch := ch, rs_metrics := m\<lparr>GrpcConnectionStatus := False\<rparr>\<rparr>"
    have "r = Stopped StopPanic (s\<lparr>rs_ch := ch, rs_metrics := m\<rparr>) \<or> r = Stopped StopClosed ?s1 \<or> r = reconnect_rest cfg env ?s1"
      using assms False c e by (cases res) (auto simp: reconnect_turn_def Let_def split: if_splits)
    then show thesis by (elim disjE) (erule stop rest; simp)+
  qed
qed

lemma run_connections:
  "RunWithReconnect cfg envs s = Some r \<Longrightarrow>
   length (rs_backoffs s) \<le> length (rs_backoffs (result_state r)) \<and>
   rs_closed (result_state r) @ client_list (rs_client (result_state r)) =
     rs_closed s @ client_list (rs_client s) @
     concat (map client_list (map at_new (take (length (rs_backoffs (result_state r)) - length (rs_backoffs s)) envs)))"
proof (induction envs arbitrary: s)
  case (Cons env envs)
  then obtain r1 where r1: "reconnect_turn cfg env s = Some r1" by (auto split: option.splits)
  from r1 show ?case
  proof (cases rule: turn_connections)
    case (kept why)
    then have "r = r1" using Cons.prems r1 by (cases r1) simp_all
    then show ?thesis using kept by simp
  next
    case replaced
    show ?thesis
    proof (cases r1)
      case (Running s1)
      then have "RunWithReconnect cfg envs s1 = Some r" using Cons.prems r1 by simp
      note ih = Cons.IH [OF this]
      have "length (rs_backoffs (result_state r)) - length (rs_backoffs s) =
          Suc (length (rs_backoffs (result_state r)) - length (rs_backoffs s1))"
        using conjunct1 [OF ih] replaced(1) Running by (simp add: Suc_diff_Suc Suc_le_lessD)
      then show ?thesis using ih replaced Running by simp
    next
      case (Stopped why s1)
      then show ?thesis using Cons.prems r1 replaced by simp
    qed
  qed
qed auto

lemma run_current:
  "RunWithReconnect cfg envs s = Some r \<Longrightarrow>
   rs_client (result_state r) =
     last (rs_client s # map at_new (take (length (rs_backoffs (result_state r)) - length (rs_backoffs s)) envs))"
proof (induction envs arbitrary: s)
  case (Cons env envs)
  then obtain r1 where r1: "reconnect_turn cfg env s = Some r1" by (auto split: option.splits)
  from r1 show ?case
  proof (cases rule: turn_connections)
    case (kept why)
    then have "r = r1" using Cons.prems r1 by (cases r1) simp_all
    then show ?thesis using kept by simp
  next
    case replaced
    show ?thesis
    proof (cases r1)
      case (Running s1)
      then have "RunWithReconnect cfg envs s1 = Some r" using Cons.prems r1 by simp
      note ih = Cons.IH [OF this] and le = conjunct1 [OF run_connections [OF this]]
      have "length (rs_backoffs (result_state r)) - length (rs_backoffs s) =
          Suc (length (rs_backoffs (result_state r)) - length (rs_backoffs s1))"
        using le replaced(1) Running by (simp add: Suc_diff_Suc Suc_le_lessD)
      then show ?thesis using ih replaced Running by simp
    next
      case (Stopped why s1)
      then show ?thesis using Cons.prems r1 replaced by simp
    qed
  qed
qed auto

text \<open>
  C26: Every connection but the current one is closed.  At each reconnect the manager closes its current client, if it has one, and
  makes a new one, which may fail.  Of the clients so far, in the order in which they were made, each is closed exactly once, in that
  order, but for the current one, also when the loop has ended.  The current client is what the latest attempt to make one gave: the
  last client, not closed, or none when that attempt failed, and then all of them are closed.
\<close>

theorem replaced_clients_closed:
  assumes "RunWithReconnect cfg envs (reconnect_init client ch m) = Some r"
  shows "let attempts = client # map at_new (take (length (rs_backoffs (result_state r))) envs)
    in rs_client (result_state r) = last attempts \<and>
       rs_closed (result_state r) @ client_list (rs_client (result_state r)) = concat (map client_list attempts)"
proof -
  have "rs_backoffs (reconnect_init client ch m) = []" "rs_closed (reconnect_init client ch m) = []"
    "rs_client (reconnect_init client ch m) = client"
    by (simp_all add: reconnect_init_def)
  then show ?thesis using run_current [OF assms] run_connections [OF assms] unfolding Let_def by simp
qed

theorem replaced_clients_closed_witness:
  "\<exists>r. RunWithReconnect two_attempts [failing_attempt, failing_attempt\<lparr>at_new := None\<rparr>]
     (reconnect_init (Some ()) (make_chan 1) metrics_init) = Some r \<and>
     rs_closed (result_state r) = [(), ()] \<and> rs_client (result_state r) = None"
proof -
  obtain r where r: "RunWithReconnect two_attempts [failing_attempt, failing_attempt\<lparr>at_new := None\<rparr>]
      (reconnect_init (Some ()) (make_chan 1) metrics_init) = Some r" "length (rs_backoffs (result_state r)) = 2"
    by (simp add: attempt_eval Let_def two_attempts_def DefaultConfig_def)
  then show ?thesis
    using replaced_clients_closed [OF r(1)] by (auto simp: client_list_def failing_attempt_def Let_def)
qed

end
