(* ===== verification/Loader.thy ===== *)
theory Loader
  imports Config
begin

text \<open>
  \<^verbatim>\<open>internal/config/loader.go\<close>: loading the configuration from a file and the environment.  The library
  (viper) is not part of the repository: what the adapter tells it is the record \<open>viper\<close>, and reading the
  file and decoding into the configuration are parameters.
\<close>

section \<open>strings.TrimSpace\<close>

text \<open>
  The length of a white space rune at the head of a string, 0 when there is none: the six ASCII ones and
  the UTF-8 forms of U+0085, U+00A0, U+1680, U+2000 to U+200A, U+2028, U+2029, U+202F, U+205F and U+3000.
\<close>

definition ascii_space :: "char \<Rightarrow> bool" where
  "ascii_space c \<longleftrightarrow> c \<in> {CHR 0x09, CHR 0x0A, CHR 0x0B, CHR 0x0C, CHR 0x0D, CHR '' ''}"

definition wide_space :: "string \<Rightarrow> bool" where
  "wide_space s \<longleftrightarrow>
     s \<in> {[CHR 0xE1, CHR 0x9A, CHR 0x80], [CHR 0xE2, CHR 0x80, CHR 0xA8], [CHR 0xE2, CHR 0x80, CHR 0xA9],
          [CHR 0xE2, CHR 0x80, CHR 0xAF], [CHR 0xE2, CHR 0x81, CHR 0x9F], [CHR 0xE3, CHR 0x80, CHR 0x80]} \<or>
     (take 2 s = [CHR 0xE2, CHR 0x80] \<and> length s = 3 \<and> 128 \<le> (of_char (s ! 2) :: nat) \<and> (of_char (s ! 2) :: nat) \<le> 138)"

definition space_len :: "string \<Rightarrow> nat" where
  "space_len s =
     (if s \<noteq> [] \<and> ascii_space (hd s) then 1
      else if take 2 s \<in> {[CHR 0xC2, CHR 0x85], [CHR 0xC2, CHR 0xA0]} then 2
      else if wide_space (take 3 s) then 3
      else 0)"

definition space_len_end :: "string \<Rightarrow> nat" where
  "space_len_end s =
     (if s \<noteq> [] \<and> ascii_space (last s) then 1
      else if drop (length s - 2) s \<in> {[CHR 0xC2, CHR 0x85], [CHR 0xC2, CHR 0xA0]} then 2
      else if wide_space (drop (length s - 3) s) then 3
      else 0)"

lemma wide_space_nil [simp]: "\<not> wide_space []"
  by (simp add: wide_space_def)

lemma space_len_nil [simp]: "space_len [] = 0" "space_len_end [] = 0"
  by (simp_all add: space_len_def space_len_end_def)

lemma space_len_shrinks:
  assumes "space_len s \<noteq> 0"
  shows "length (drop (space_len s) s) < length s"
  using assms by (cases s) simp_all

lemma space_len_end_shrinks:
  assumes "space_len_end s \<noteq> 0"
  shows "length (take (length s - space_len_end s) s) < length s"
  using assms by (cases s) simp_all

function trim_left :: "string \<Rightarrow> string" where
  "trim_left s = (if space_len s = 0 then s else trim_left (drop (space_len s) s))"
  by auto
termination by (relation "measure length") (simp_all only: in_measure space_len_shrinks wf_measure not_False_eq_True)

function trim_right :: "string \<Rightarrow> string" where
  "trim_right s = (if space_len_end s = 0 then s else trim_right (take (length s - space_len_end s) s))"
  by auto
termination by (relation "measure length") (simp_all only: in_measure space_len_end_shrinks wf_measure not_False_eq_True)

declare trim_left.simps [simp del] trim_right.simps [simp del]

definition TrimSpace :: "string \<Rightarrow> string" where
  "TrimSpace s = trim_right (trim_left s)"

section \<open>Load\<close>

record viper =
  v_ConfigType :: string
  v_ConfigFile :: "string option"
  v_ConfigName :: string
  v_ConfigPaths :: "string list"
  v_EnvPrefix :: string
  v_EnvKeyReplacer :: "(string \<times> string) option"
  v_AutomaticEnv :: bool
  v_Env :: "(string \<times> string) list"               \<comment> \<open>key, environment variable\<close>
  v_Override :: "string \<rightharpoonup> string list"            \<comment> \<open>values given by \<^verbatim>\<open>Set\<close>\<close>

definition viper_init :: viper where
  "viper_init = \<lparr>v_ConfigType = '''', v_ConfigFile = None, v_ConfigName = ''config'', v_ConfigPaths = [],
     v_EnvPrefix = '''', v_EnvKeyReplacer = None, v_AutomaticEnv = False, v_Env = [], v_Override = Map.empty\<rparr>"

text \<open>The error of \<^verbatim>\<open>ReadInConfig\<close>: no file found on the search path, or any other.\<close>

datatype 'e read_config_error = ConfigFileNotFound | ReadError 'e

datatype 'e load_error = ReadFailed 'e | UnmarshalFailed 'e

definition env_bindings :: "(string \<times> string) list" where
  "env_bindings =
     [(''tetragon.grpc_addr'', ''TETRAGON_GRPC_ADDR''),
      (''tetragon.tls.enabled'', ''TETRAGON_TLS_ENABLED''),
      (''tetragon.tls.ca_cert'', ''TETRAGON_TLS_CA_CERT''),
      (''tetragon.tls.client_cert'', ''TETRAGON_TLS_CLIENT_CERT''),
      (''tetragon.tls.client_key'', ''TETRAGON_TLS_CLIENT_KEY''),
      (''tetragon.stream.max_queue'', ''STREAM_MAX_QUEUE''),
      (''tetragon.stream.drop_if_queue_full'', ''STREAM_DROP_IF_QUEUE_FULL''),
      (''tetragon.stream.sample_ratio'', ''STREAM_SAMPLE_RATIO''),
      (''kafka.brokers'', ''KAFKA_BROKERS''),
      (''kafka.client_id'', ''KAFKA_CLIENT_ID''),
      (''kafka.acks'', ''KAFKA_ACKS''),
      (''kafka.compression'', ''KAFKA_COMPRESSION''),
      (''kafka.writer_workers'', ''KAFKA_WRITER_WORKERS''),
      (''kafka.batch.max_messages'', ''KAFKA_BATCH_MAX_MESSAGES''),
      (''kafka.batch.flush_interval_ms'', ''KAFKA_BATCH_FLUSH_INTERVAL_MS''),
      (''kafka.topic_admin.auto_create'', ''KAFKA_TOPIC_AUTO_CREATE''),
      (''kafka.topic_admin.cleanup_policy'', ''KAFKA_TOPIC_CLEANUP_POLICY''),
      (''logger.level'', ''LOG_LEVEL'')]"

text \<open>\<open>getenv\<close> is \<^verbatim>\<open>os.Getenv\<close>, the empty string for a variable that is not set.\<close>

definition bindEnvVars :: "(string \<Rightarrow> string) \<Rightarrow> viper \<Rightarrow> viper" where
  "bindEnvVars getenv v =
     (let v1 = v\<lparr>v_Env := v_Env v @ env_bindings\<rparr>;
          brokers = getenv ''KAFKA_BROKERS''
      in if brokers \<noteq> '''' then
           v1\<lparr>v_Override := (v_Override v1)(''kafka.brokers'' \<mapsto> map TrimSpace (split_on (CHR '','') brokers))\<rparr>
         else v1)"

definition search_config :: "string \<Rightarrow> viper \<Rightarrow> viper" where
  "search_config configPath v =
     (let v1 = v\<lparr>v_ConfigType := ''yaml''\<rparr>
      in if configPath \<noteq> '''' then v1\<lparr>v_ConfigFile := Some configPath\<rparr>
         else v1\<lparr>v_ConfigName := ''config'', v_ConfigPaths := v_ConfigPaths v1 @ [''./configs'', ''.'']\<rparr>)"

definition Load ::
  "(viper \<Rightarrow> 'e read_config_error option \<times> 'file) \<Rightarrow> (viper \<Rightarrow> 'file \<Rightarrow> Config \<Rightarrow> 'e + Config) \<Rightarrow> (string \<Rightarrow> string)
    \<Rightarrow> string \<Rightarrow> 'e load_error + Config" where
  "Load read_in_config unmarshal getenv configPath =
     (let cfg = DefaultConfig;
          v = search_config configPath viper_init
      in case read_in_config v of
           (Some (ReadError err), _) \<Rightarrow> Inl (ReadFailed err)
         | (_, file) \<Rightarrow>
             (let v1 = v\<lparr>v_EnvPrefix := '''', v_EnvKeyReplacer := Some (''.'', ''_''), v_AutomaticEnv := True\<rparr>;
                  v2 = bindEnvVars getenv v1
              in case unmarshal v2 file cfg of
                   Inl err \<Rightarrow> Inl (UnmarshalFailed err)
                 | Inr cfg' \<Rightarrow> Inr cfg'))"

section \<open>Broker lists\<close>

lemma split_on_join:
  assumes "xs \<noteq> []" and "\<forall>x \<in> set xs. c \<notin> set x"
  shows "split_on c (join [c] xs) = xs"
  using assms
proof (induction "[c]" xs rule: join.induct)
  case (3 x y ys)
  then show ?case by (simp add: split_on_append)
qed (simp_all add: split_on_none)

definition trimmed :: "string \<Rightarrow> bool" where
  "trimmed s \<longleftrightarrow> space_len s = 0 \<and> space_len_end s = 0"

lemma wide_space_tl:
  assumes "wide_space s" and "c \<in> set (tl s)"
  shows "\<not> ascii_space c"
proof -
  from assms(1) consider
      "s \<in> {[CHR 0xE1, CHR 0x9A, CHR 0x80], [CHR 0xE2, CHR 0x80, CHR 0xA8], [CHR 0xE2, CHR 0x80, CHR 0xA9],
        [CHR 0xE2, CHR 0x80, CHR 0xAF], [CHR 0xE2, CHR 0x81, CHR 0x9F], [CHR 0xE3, CHR 0x80, CHR 0x80]}"
    | a b where "s = [a, CHR 0x80, b]" "128 \<le> (of_char b :: nat)"
    by (auto simp: wide_space_def numeral_3_eq_3 length_Suc_conv)
  then show ?thesis
  proof cases
    case 1
    then show ?thesis using assms(2) by (auto simp: ascii_space_def)
  next
    case (2 a b)
    then show ?thesis using assms(2) by (auto simp: ascii_space_def)
  qed
qed

lemma space_len_append:
  assumes "space_len b = 0" and "b \<noteq> []" and "\<forall>c \<in> set q. ascii_space c"
  shows "space_len (b @ q) = 0"
proof -
  obtain x xs where b: "b = x # xs" using assms(2) by (cases b) auto
  have "\<not> ascii_space x" using assms(1) by (simp add: space_len_def b split: if_splits)
  moreover have "take 2 (b @ q) \<notin> {[CHR 0xC2, CHR 0x85], [CHR 0xC2, CHR 0xA0]}"
  proof (cases xs)
    case Nil
    then show ?thesis using assms(3) by (cases q) (auto simp: b ascii_space_def)
  next
    case (Cons y ys)
    then show ?thesis using assms(1) by (auto simp: b space_len_def split: if_splits)
  qed
  moreover have "\<not> wide_space (take 3 (b @ q))"
  proof (cases "take (3 - length b) q")
    case Nil
    then have "take 3 (b @ q) = take 3 b" by simp
    moreover have "\<not> wide_space (take 3 b)" using assms(1) by (simp add: space_len_def split: if_splits)
    ultimately show ?thesis by argo
  next
    case (Cons c cs)
    then have "c \<in> set q" by (metis in_set_takeD list.set_intros(1))
    moreover have "c \<in> set (tl (take 3 (b @ q)))"
      using Cons by (simp add: b)
    ultimately show ?thesis using wide_space_tl assms(3) by blast
  qed
  ultimately show ?thesis by (simp add: space_len_def b)
qed

lemma trim_left_pad: "\<forall>c \<in> set p. ascii_space c \<Longrightarrow> trim_left (p @ s) = trim_left s"
proof (induction p)
  case (Cons c p)
  then have "space_len (c # p @ s) = 1" by (simp add: space_len_def)
  then show ?case using Cons by (simp add: trim_left.simps [of "c # p @ s"])
qed simp

lemma trim_right_pad: "\<forall>c \<in> set q. ascii_space c \<Longrightarrow> trim_right (s @ q) = trim_right s"
proof (induction q rule: rev_induct)
  case (snoc c q)
  then have "space_len_end (s @ q @ [c]) = 1" by (simp add: space_len_end_def)
  then show ?case using snoc by (simp add: trim_right.simps [of "s @ q @ [c]"])
qed simp

lemma TrimSpace_pad:
  assumes "trimmed b" and "\<forall>c \<in> set p. ascii_space c" and "\<forall>c \<in> set q. ascii_space c"
  shows "TrimSpace (p @ b @ q) = b"
proof -
  have r: "trim_right b = b" using assms(1) by (simp add: trimmed_def trim_right.simps [of b])
  have nil: "trim_left [] = []" "trim_right [] = []" by (simp_all add: trim_left.simps [of "[]"] trim_right.simps [of "[]"])
  show ?thesis
  proof (cases "b = []")
    case True
    have "trim_left q = []" using trim_left_pad [OF assms(3), of "[]"] nil by simp
    then show ?thesis using trim_left_pad [OF assms(2), of q] True nil by (simp add: TrimSpace_def)
  next
    case False
    have "trim_left (b @ q) = b @ q"
      using space_len_append [OF _ False assms(3)] assms(1) by (simp add: trimmed_def trim_left.simps [of "b @ q"])
    then show ?thesis using trim_left_pad [OF assms(2), of "b @ q"] trim_right_pad [OF assms(3), of b] r
      by (simp add: TrimSpace_def)
  qed
qed

text \<open>
  C39: Brokers from the environment.  A comma-separated list of broker addresses, each with any ASCII white space or none before and
  after it, is the list that overrides the broker setting, without the white space, for addresses that have no commas and no
  white space at their ends.
\<close>

theorem brokers_from_environment:
  assumes "getenv ''KAFKA_BROKERS'' = join '','' (map (\<lambda>(before, broker, after). before @ broker @ after) entries)"
    and "getenv ''KAFKA_BROKERS'' \<noteq> ''''"
    and "\<forall>(before, broker, after) \<in> set entries. trimmed broker \<and> CHR '','' \<notin> set broker \<and>
      (\<forall>c \<in> set before \<union> set after. ascii_space c)"
  shows "v_Override (bindEnvVars getenv v) ''kafka.brokers'' = Some (map (\<lambda>(before, broker, after). broker) entries)"
proof -
  have "entries \<noteq> []" using assms(1,2) by auto
  moreover have "\<not> ascii_space (CHR '','')" by (simp add: ascii_space_def)
  then have "\<forall>x \<in> set (map (\<lambda>(before, broker, after). before @ broker @ after) entries). CHR '','' \<notin> set x"
    using assms(3) by fastforce
  ultimately have "split_on (CHR '','') (getenv ''KAFKA_BROKERS'') = map (\<lambda>(before, broker, after). before @ broker @ after) entries"
    using split_on_join assms(1) by simp
  moreover have "map TrimSpace (map (\<lambda>(before, broker, after). before @ broker @ after) entries) = map (\<lambda>(before, broker, after). broker) entries"
    using assms(3) by (auto intro!: TrimSpace_pad)
  ultimately show ?thesis using assms(2) by (simp add: bindEnvVars_def Let_def)
qed

theorem brokers_from_environment_witness:
  "v_Override (bindEnvVars (\<lambda>_. ''kafka-0:9092, kafka-1:9092,kafka-2:9092'') viper_init) ''kafka.brokers''
     = Some [''kafka-0:9092'', ''kafka-1:9092'', ''kafka-2:9092'']"
  using brokers_from_environment [where getenv = "\<lambda>_. ''kafka-0:9092, kafka-1:9092,kafka-2:9092''" and v = viper_init and
      entries = "[('''', ''kafka-0:9092'', ''''), ('' '', ''kafka-1:9092'', ''''), ('''', ''kafka-2:9092'', '''')]"]
  by (simp add: trimmed_def space_len_def space_len_end_def ascii_space_def wide_space_def)

end
