(* ===== verification/Kafka_Core.thy ===== *)
theory Kafka_Core
  imports Log_Level Kafka_Producer Bounded_Queue Json Timestamps "HOL-Library.List_Lexorder" "HOL-Library.AList"
begin

text \<open>
  \<^verbatim>\<open>internal/logger/kafka_core.go\<close>: the zap core that sends log lines to Kafka through a channel and one
  background worker.  The clones made by \<^verbatim>\<open>With\<close> share the channel, the context and the worker (\<open>shared\<close>), but each
  has a wait group and a \<^verbatim>\<open>sync.Once\<close> of its own (\<open>core\<close>).  zap's encoder is a parameter.
\<close>

section \<open>State\<close>

record shared =
  sh_logCh :: "string chan"
  sh_ctx :: ctx
  sh_batch :: "string list"
  sh_running :: bool
  sh_input :: "ProducerMessage list"     \<comment> \<open>records the producer has taken\<close>

record core =
  kc_topic :: string
  kc_fields :: "(string \<times> json) list"   \<comment> \<open>added to the encoder\<close>
  kc_level :: level                      \<comment> \<open>the lowest level the enabler lets pass\<close>
  kc_wg_worker :: bool                   \<comment> \<open>whether this core's wait group counts the worker\<close>
  kc_closeOnce :: bool

definition NewKafkaCore :: "string \<Rightarrow> level \<Rightarrow> core \<times> shared" where
  "NewKafkaCore topic level =
     (\<lparr>kc_topic = topic, kc_fields = [], kc_level = level, kc_wg_worker = True, kc_closeOnce = False\<rparr>,
      \<lparr>sh_logCh = make_chan 1000, sh_ctx = None, sh_batch = [], sh_running = True, sh_input = []\<rparr>)"

definition Core_Enabled :: "core \<Rightarrow> level \<Rightarrow> bool" where
  "Core_Enabled kc level \<longleftrightarrow> kc_level kc \<le> level"

text \<open>\<open>checked\<close> are the cores that take the entry so far.\<close>

definition Core_Check :: "core \<Rightarrow> level \<Rightarrow> core list \<Rightarrow> core list" where
  "Core_Check kc level checked = (if Core_Enabled kc level then checked @ [kc] else checked)"

definition clone :: "core \<Rightarrow> core" where
  "clone kc = kc\<lparr>kc_wg_worker := False, kc_closeOnce := False\<rparr>"

definition Core_With :: "(string \<times> json) list \<Rightarrow> core \<Rightarrow> core" where
  "Core_With fs kc = (clone kc)\<lparr>kc_fields := kc_fields kc @ fs\<rparr>"

section \<open>The worker\<close>

text \<open>
  \<^verbatim>\<open>flushBatch\<close>: every line of the batch with one key, under a context derived from the core's.  For line \<open>i\<close>:
  the flush context when its send proceeds, whether the done case is picked, and the clock.
\<close>

record log_env =
  le_ctx :: "nat \<Rightarrow> ctx"
  le_pick :: "nat \<Rightarrow> bool"
  le_now :: "nat \<Rightarrow> i64"
  le_key :: string                       \<comment> \<open>the clock's reading as \<^verbatim>\<open>20060102150405\<close>\<close>

fun log_flush_loop :: "string \<Rightarrow> log_env \<Rightarrow> nat \<Rightarrow> string list \<Rightarrow> ProducerMessage list \<Rightarrow> ProducerMessage list" where
  "log_flush_loop topic env i [] inp = inp"
| "log_flush_loop topic env i (line # lines) inp =
     log_flush_loop topic env (Suc i) lines
       (snd (SendMessage (le_ctx env i) (le_pick env i) topic (le_key env) line None '''' ''application/json''
          (le_now env i) inp))"

definition log_derived :: "ctx \<Rightarrow> log_env \<Rightarrow> log_env" where
  "log_derived c env = (case c of None \<Rightarrow> env | Some err \<Rightarrow> env\<lparr>le_ctx := \<lambda>_. Some err\<rparr>)"

definition log_flush :: "string \<Rightarrow> log_env \<Rightarrow> shared \<Rightarrow> shared" where
  "log_flush topic env s =
     s\<lparr>sh_input := log_flush_loop topic (log_derived (sh_ctx s) env) 0 (sh_batch s) (sh_input s), sh_batch := []\<rparr>"

datatype log_case = LogDone | LogReceive | LogTick

text \<open>One turn of \<^verbatim>\<open>logWorker\<close>, for the case its select picked; \<open>None\<close> when that case is not ready.\<close>

definition logWorker_step :: "string \<Rightarrow> log_env \<Rightarrow> log_case \<Rightarrow> shared \<Rightarrow> shared option" where
  "logWorker_step topic env lc s =
     (if \<not> sh_running s then None
      else case lc of
        LogDone \<Rightarrow>
          if ctx_done (sh_ctx s) then Some ((log_flush topic env s)\<lparr>sh_running := False\<rparr>) else None
      | LogReceive \<Rightarrow>
          (case chan_recv (sh_logCh s) of
             Received logData ch' \<Rightarrow>
               (let s1 = s\<lparr>sh_logCh := ch', sh_batch := sh_batch s @ [logData]\<rparr>
                in if length (sh_batch s1) \<ge> 100 then Some (log_flush topic env s1) else Some s1)
           | RecvClosed \<Rightarrow> Some ((log_flush topic env s)\<lparr>sh_running := False\<rparr>)
           | RecvBlocks \<Rightarrow> None)
      | LogTick \<Rightarrow> if sh_batch s \<noteq> [] then Some (log_flush topic env s) else Some s)"

section \<open>Writing a line\<close>

record entry =
  en_Time :: string                      \<comment> \<open>as RFC 3339\<close>
  en_Level :: string
  en_LoggerName :: string
  en_Message :: string
  en_Caller :: string

text \<open>
  The message: the entry's own keys, over which every field of the encoded line is laid that is not one of
  the encoder's own.  \<open>fields\<close> is what decoding the encoded line gave, \<open>None\<close> when it is not JSON.
\<close>

definition skipped_keys :: "string set" where
  "skipped_keys = {''ts'', ''level'', ''msg'', ''logger'', ''caller''}"

definition log_message :: "entry \<Rightarrow> string \<Rightarrow> (string \<times> json) list option \<Rightarrow> (string \<times> json) list" where
  "log_message en traceID logFields =
     (let base = [(''timestamp'', JString (en_Time en)), (''level'', JString (en_Level en)),
                  (''logger'', JString (en_LoggerName en)), (''message'', JString (en_Message en)),
                  (''caller'', JString (en_Caller en)), (''trace_id'', JString traceID)]
      in case logFields of
           None \<Rightarrow> base
         | Some fs \<Rightarrow> fold (\<lambda>(k, v) msg. if k \<in> skipped_keys then msg else AList.update k v msg) fs base)"

definition log_line :: "(string \<times> json) list \<Rightarrow> string" where
  "log_line msg = render (JObject (sort_key fst msg))"

datatype 'e log_result = LogOk | LogEncodeError 'e | LogCtx ctx_error | LogPanic

text \<open>
  \<^verbatim>\<open>Write\<close>.  \<open>encode\<close> stands for the encoder followed by the decoding of its output; the trace id is made of
  16 random bytes.
\<close>

definition Core_Write ::
  "(entry \<Rightarrow> (string \<times> json) list \<Rightarrow> 'e + (string \<times> json) list option) \<Rightarrow> core \<Rightarrow> entry \<Rightarrow> (string \<times> json) list
    \<Rightarrow> string \<Rightarrow> bool \<Rightarrow> shared \<Rightarrow> 'e log_result \<times> shared" where
  "Core_Write encode kc en fs rnd pick_done s =
     (case encode en (kc_fields kc @ fs) of
        Inl err \<Rightarrow> (LogEncodeError err, s)
      | Inr logFields \<Rightarrow>
          (let jsonData = log_line (log_message en (hex_encode rnd) logFields)
           in case (chan_send (sh_logCh s) jsonData, sh_ctx s) of
                (Sent ch', None) \<Rightarrow> (LogOk, s\<lparr>sh_logCh := ch'\<rparr>)
              | (Sent ch', Some err) \<Rightarrow> if pick_done then (LogCtx err, s) else (LogOk, s\<lparr>sh_logCh := ch'\<rparr>)
              | (SendBlocks, None) \<Rightarrow> (LogOk, s)
              | (SendBlocks, Some err) \<Rightarrow> (LogCtx err, s)
              | (SendPanics, None) \<Rightarrow> (LogPanic, s)
              | (SendPanics, Some err) \<Rightarrow> if pick_done then (LogCtx err, s) else (LogPanic, s)))"

section \<open>Synchronising and closing\<close>

text \<open>
  \<^verbatim>\<open>Sync\<close> waits for its wait group, for at most five seconds: it returns at once when the group is empty or the worker has ended,
  and otherwise after the worker's end or the time limit, in either case with no error.
\<close>

datatype sync_wait = SyncAtOnce | SyncWaits

definition Core_Sync :: "core \<Rightarrow> shared \<Rightarrow> sync_wait" where
  "Core_Sync kc s = (if kc_wg_worker kc \<and> sh_running s then SyncWaits else SyncAtOnce)"

text \<open>
  \<^verbatim>\<open>Close\<close> up to its wait for the worker: the context is cancelled, then the channel is closed; a second close of
  the channel, through another clone, panics (\<open>None\<close>).
\<close>

definition Core_Close :: "core \<Rightarrow> shared \<Rightarrow> (core \<times> shared) option" where
  "Core_Close kc s =
     (if kc_closeOnce kc then Some (kc, s)
      else
        (let s1 = s\<lparr>sh_ctx := (case sh_ctx s of None \<Rightarrow> Some Canceled | c \<Rightarrow> c)\<rparr>
         in case chan_close (sh_logCh s1) of
              None \<Rightarrow> None
            | Some ch' \<Rightarrow> Some (kc\<lparr>kc_closeOnce := True\<rparr>, s1\<lparr>sh_logCh := ch'\<rparr>)))"

section \<open>The core as a step relation\<close>

text \<open>
  What can happen to the shared state: a line is offered through any of the cores, a turn of the worker,
  a close through any of the cores.
\<close>

inductive core_step :: "string \<Rightarrow> shared \<Rightarrow> shared \<Rightarrow> bool" for topic where
  offer: "Core_Write (encode :: entry \<Rightarrow> (string \<times> json) list \<Rightarrow> unit + (string \<times> json) list option)
      kc en fs rnd pick s = (r, s') \<Longrightarrow> core_step topic s s'"
| turn: "logWorker_step topic env lc s = Some s' \<Longrightarrow> core_step topic s s'"
| close: "Core_Close kc s = Some (kc', s') \<Longrightarrow> core_step topic s s'"

inductive core_reachable :: "string \<Rightarrow> shared \<Rightarrow> bool" for topic where
  start: "core_reachable topic (snd (NewKafkaCore topic level))"
| step: "core_reachable topic s \<Longrightarrow> core_step topic s s' \<Longrightarrow> core_reachable topic s'"

inductive_cases core_stepE: "core_step topic s s'"

definition core_wf :: "shared \<Rightarrow> bool" where
  "core_wf s \<longleftrightarrow> chan_cap (sh_logCh s) = 1000 \<and> chan_len (sh_logCh s) \<le> 1000 \<and> length (sh_batch s) < 100 \<and>
     (chan_closed (sh_logCh s) \<longrightarrow> sh_ctx s \<noteq> None) \<and> (sh_ctx s = None \<longrightarrow> sh_running s)"

text \<open>An offered line changes nothing but the end of the channel's buffer.\<close>

lemma Core_Write_cases:
  assumes "Core_Write encode kc en fs rnd pick s = (r, s')"
  obtains (same) "s' = s"
    | (put) line where "r = LogOk" "length (chan_buf (sh_logCh s)) < chan_cap (sh_logCh s)"
        "\<not> chan_closed (sh_logCh s)"
        "s' = s\<lparr>sh_logCh := (sh_logCh s)\<lparr>chan_buf := chan_buf (sh_logCh s) @ [line]\<rparr>\<rparr>"
proof (cases "encode en (kc_fields kc @ fs)")
  case (Inl err)
  then show ?thesis using assms same by (simp add: Core_Write_def)
next
  case (Inr logFields)
  define line where "line = log_line (log_message en (hex_encode rnd) logFields)"
  show ?thesis
  proof (cases "chan_send (sh_logCh s) line")
    case (Sent ch')
    then show ?thesis
      using assms Inr same put [of line] chan_send_Sent [of "sh_logCh s" line ch']
      by (auto simp: Core_Write_def line_def [symmetric] split: option.splits if_splits)
  qed (use assms Inr same in \<open>auto simp: Core_Write_def chan_send_Sent line_def [symmetric] split: option.splits if_splits send_result.splits\<close>)
qed

lemma log_flush_simps [simp]:
  "sh_logCh (log_flush topic env s) = sh_logCh s" "sh_ctx (log_flush topic env s) = sh_ctx s"
  "sh_batch (log_flush topic env s) = []" "sh_running (log_flush topic env s) = sh_running s"
  by (simp_all add: log_flush_def)

lemma turn_wf: "core_wf s \<Longrightarrow> logWorker_step topic env lc s = Some s' \<Longrightarrow> core_wf s'"
  by (cases lc)
    (auto simp: core_wf_def logWorker_step_def ctx_done_def chan_recv_def chan_len_def Let_def
      split: if_splits list.splits)

lemma step_wf: "core_step topic s s' \<Longrightarrow> core_wf s \<Longrightarrow> core_wf s'"
proof (induction rule: core_step.induct)
  case (offer encode kc en fs rnd pick s r s')
  from offer.hyps show ?case
  proof (cases rule: Core_Write_cases)
    case same
    then show ?thesis using offer.prems by simp
  next
    case (put line)
    then show ?thesis using offer.prems by (auto simp: core_wf_def chan_len_def)
  qed
next
  case (turn env lc s s')
  then show ?case using turn_wf by blast
next
  case (close kc s kc' s')
  then show ?case
    by (auto simp: core_wf_def Core_Close_def chan_close_def chan_len_def Let_def split: if_splits option.splits)
qed

lemma reachable_wf: "core_reachable topic s \<Longrightarrow> core_wf s"
proof (induction rule: core_reachable.induct)
  case (start level)
  then show ?case by (simp add: core_wf_def NewKafkaCore_def make_chan_def chan_len_def)
next
  case (step s s')
  then show ?case using step_wf by blast
qed

text \<open>
  Bounded log buffering.  However lines, turns of the worker and closes interleave, at most 1000 lines wait
  in the channel and fewer than 100 in the batch, and the channel is closed only after the context was cancelled.
\<close>

theorem log_buffer_bounded:
  assumes "core_reachable topic s"
  shows "chan_len (sh_logCh s) \<le> 1000 \<and> length (sh_batch s) < 100 \<and>
    \<not> (chan_closed (sh_logCh s) \<and> sh_ctx s = None)"
  using reachable_wf [OF assms] by (auto simp: core_wf_def)

definition core0 :: core where
  "core0 = fst (NewKafkaCore ''logs'' InfoLevel)"

definition shared0 :: shared where
  "shared0 = snd (NewKafkaCore ''logs'' InfoLevel)"

definition entry0 :: entry where
  "entry0 = \<lparr>en_Time = ''t'', en_Level = ''info'', en_LoggerName = '''', en_Message = ''m'', en_Caller = ''c''\<rparr>"

definition plain_encoder :: "entry \<Rightarrow> (string \<times> json) list \<Rightarrow> unit + (string \<times> json) list option" where
  "plain_encoder en fs = Inr None"

definition one_line :: shared where
  "one_line = snd (Core_Write plain_encoder core0 entry0 [] '''' False shared0)"

lemma one_line_pending: "chan_len (sh_logCh one_line) = 1" "sh_ctx one_line = None"
  by (simp_all add: one_line_def shared0_def Core_Write_def plain_encoder_def NewKafkaCore_def make_chan_def
      chan_send_def chan_len_def Let_def)

lemma one_line_write: "Core_Write plain_encoder core0 entry0 [] '''' False shared0 = (LogOk, one_line)"
  by (simp add: one_line_def shared0_def Core_Write_def plain_encoder_def NewKafkaCore_def make_chan_def
      chan_send_def Let_def)

lemma one_line_reachable: "core_reachable ''logs'' one_line"
  using core_reachable.step [OF core_reachable.start core_step.offer [OF one_line_write [unfolded shared0_def]]] .

theorem log_buffer_bounded_witness: "chan_len (sh_logCh one_line) \<le> 1000"
  using log_buffer_bounded [OF one_line_reachable] by simp

section \<open>Lines in order\<close>

text \<open>
  Runs while the context and the flush contexts are live, with the list of the lines accepted on the way: what a
  write appended to the channel.
\<close>

inductive live_path :: "string \<Rightarrow> shared \<Rightarrow> string list \<Rightarrow> shared \<Rightarrow> bool" for topic s where
  live_refl: "live_path topic s [] s"
| live_offer: "live_path topic s acc s1 \<Longrightarrow> sh_ctx s1 = None \<Longrightarrow>
    Core_Write (encode :: entry \<Rightarrow> (string \<times> json) list \<Rightarrow> unit + (string \<times> json) list option)
      kc en fs rnd pick s1 = (r, s2) \<Longrightarrow>
    live_path topic s (acc @ drop (length (chan_buf (sh_logCh s1))) (chan_buf (sh_logCh s2))) s2"
| live_turn: "live_path topic s acc s1 \<Longrightarrow> sh_ctx s1 = None \<Longrightarrow> le_ctx env = (\<lambda>_. None) \<Longrightarrow>
    logWorker_step topic env lc s1 = Some s2 \<Longrightarrow> live_path topic s acc s2"

definition log_lines :: "shared \<Rightarrow> string list" where
  "log_lines s = map pm_Value (sh_input s) @ sh_batch s @ chan_buf (sh_logCh s)"

lemma flush_loop_live_values:
  "le_ctx env = (\<lambda>_. None) \<Longrightarrow> map pm_Value (log_flush_loop topic env i lines inp) = map pm_Value inp @ lines"
  by (induction topic env i lines inp rule: log_flush_loop.induct) (simp_all add: SendMessage_def producer_message_def)

lemma flush_live_lines:
  "sh_ctx s = None \<Longrightarrow> le_ctx env = (\<lambda>_. None) \<Longrightarrow> log_lines (log_flush topic env s) = log_lines s"
  by (simp add: log_lines_def log_flush_def log_derived_def flush_loop_live_values)

lemma turn_live_lines:
  assumes "sh_ctx s = None" and "le_ctx env = (\<lambda>_. None)" and "logWorker_step topic env lc s = Some s'"
  shows "log_lines s' = log_lines s"
proof (cases lc)
  case LogDone
  then show ?thesis using assms by (simp add: logWorker_step_def ctx_done_def split: if_splits)
next
  case LogTick
  then show ?thesis using assms flush_live_lines [OF assms(1,2)] by (auto simp: logWorker_step_def split: if_splits)
next
  case LogReceive
  show ?thesis
  proof (cases "chan_buf (sh_logCh s)")
    case Nil
    have "log_lines (log_flush topic env s\<lparr>sh_running := False\<rparr>) = log_lines (log_flush topic env s)"
      by (simp add: log_lines_def)
    then show ?thesis
      using assms LogReceive Nil flush_live_lines [OF assms(1,2)]
      by (auto simp: logWorker_step_def chan_recv_def split: if_splits)
  next
    case (Cons line lines)
    let ?s1 = "s\<lparr>sh_logCh := (sh_logCh s)\<lparr>chan_buf := lines\<rparr>, sh_batch := sh_batch s @ [line]\<rparr>"
    have "log_lines ?s1 = log_lines s" by (simp add: log_lines_def Cons)
    moreover have "log_lines (log_flush topic env ?s1) = log_lines ?s1"
      using assms(1,2) by (intro flush_live_lines) simp_all
    ultimately show ?thesis
      using assms(3) LogReceive Cons by (auto simp: logWorker_step_def chan_recv_def Let_def split: if_splits)
  qed
qed

lemma live_path_lines: "live_path topic s acc s' \<Longrightarrow> log_lines s' = log_lines s @ acc"
proof (induction rule: live_path.induct)
  case live_refl
  then show ?case by simp
next
  case (live_offer acc s1 encode kc en fs rnd pick r s2)
  from live_offer.hyps(3) show ?case
  proof (cases rule: Core_Write_cases)
    case same
    then show ?thesis using live_offer.IH by simp
  next
    case (put line)
    then show ?thesis using live_offer.IH by (simp add: log_lines_def)
  qed
next
  case (live_turn acc s1 env lc s2)
  then show ?case using turn_live_lines by metis
qed

text \<open>
  C30: Log lines in order, once.  While no context is cancelled, the lines handed to the producer followed by the batch
  and the channel are the lines there were at first and then the accepted ones, in order: none is lost, doubled or reordered.
\<close>

theorem log_lines_in_order:
  assumes "live_path topic s acc s'"
  shows "map pm_Value (sh_input s') @ sh_batch s' @ chan_buf (sh_logCh s')
    = map pm_Value (sh_input s) @ sh_batch s @ chan_buf (sh_logCh s) @ acc"
  using live_path_lines [OF assms] by (simp add: log_lines_def)

lemma one_line_path:
  "live_path ''logs'' shared0 (chan_buf (sh_logCh one_line)) one_line"
  using live_path.live_offer [OF live_path.live_refl _ one_line_write, of "''logs''"]
  by (simp add: shared0_def NewKafkaCore_def make_chan_def)

theorem log_lines_in_order_witness:
  "\<exists>line. chan_buf (sh_logCh one_line) = [line] \<and> live_path ''logs'' shared0 [line] one_line \<and> sh_batch one_line = []"
proof -
  obtain line where l: "chan_buf (sh_logCh one_line) = [line]"
    using one_line_pending(1) by (cases "chan_buf (sh_logCh one_line)") (auto simp: chan_len_def)
  have "map pm_Value (sh_input one_line) @ sh_batch one_line @ [line] = [line]"
    using log_lines_in_order [OF one_line_path] by (simp add: l shared0_def NewKafkaCore_def make_chan_def)
  then show ?thesis using one_line_path l by (cases "sh_batch one_line") auto
qed

section \<open>Synchronising\<close>

text \<open>
  Sync does not flush.  While the core has not been closed, \<^verbatim>\<open>Sync\<close> on the core the worker was started with waits for a
  worker that does not end, up to its time limit, and on a clone made by \<^verbatim>\<open>With\<close>, the one in use as soon as there are
  metadata fields, it returns at once, whatever lines are waiting.
\<close>

theorem sync_does_not_flush:
  assumes "core_reachable topic s" and "sh_ctx s = None"
  shows "Core_Sync (fst (NewKafkaCore topic level)) s = SyncWaits \<and>
    Core_Sync (Core_With fs (fst (NewKafkaCore topic level))) s = SyncAtOnce"
  using reachable_wf [OF assms(1)] assms(2)
  by (simp add: core_wf_def Core_Sync_def Core_With_def clone_def NewKafkaCore_def)

theorem sync_does_not_flush_witness:
  "chan_len (sh_logCh one_line) = 1 \<and> Core_Sync (Core_With [] (fst (NewKafkaCore ''logs'' InfoLevel))) one_line = SyncAtOnce"
  using sync_does_not_flush [OF one_line_reachable one_line_pending(2), of InfoLevel "[]"] one_line_pending(1) by simp

lemma log_flush_cancelled:
  "\<forall>i. le_pick env i \<Longrightarrow> log_flush_loop topic (log_derived (Some err) env) i lines inp = inp"
  by (induction lines arbitrary: i) (simp_all add: SendMessage_def log_derived_def)

text \<open>
  Closing loses lines.  \<^verbatim>\<open>Close\<close> cancels the context before the worker's last flush, which therefore may hand over
  nothing: when the done case is picked each time, the batch is gone, the producer got none of it, and the lines in the channel stay there.
\<close>

theorem close_loses_lines:
  assumes "\<not> kc_closeOnce kc" and "Core_Close kc s = Some (kc', s1)" and "\<forall>i. le_pick env i"
    and "logWorker_step topic env LogDone s1 = Some s2"
  shows "sh_input s2 = sh_input s \<and> sh_batch s2 = [] \<and> \<not> sh_running s2 \<and>
    chan_buf (sh_logCh s2) = chan_buf (sh_logCh s)"
proof -
  obtain err where "sh_ctx s1 = Some err" and "sh_input s1 = sh_input s"
    and "chan_buf (sh_logCh s1) = chan_buf (sh_logCh s)"
    using assms(1,2) by (auto simp: Core_Close_def chan_close_def Let_def split: option.splits if_splits)
  then show ?thesis
    using assms(3,4) log_flush_cancelled
    by (auto simp: logWorker_step_def log_flush_def split: if_splits)
qed

theorem close_loses_lines_witness:
  "\<exists>kc' s1 s2. Core_Close core0 one_line = Some (kc', s1) \<and>
     logWorker_step ''logs'' \<lparr>le_ctx = \<lambda>_. None, le_pick = \<lambda>_. True, le_now = \<lambda>_. 0, le_key = ''k''\<rparr> LogDone s1 = Some s2 \<and>
     chan_len (sh_logCh s2) = 1 \<and> \<not> sh_running s2"
proof -
  let ?env = "\<lparr>le_ctx = \<lambda>_. None, le_pick = \<lambda>_. True, le_now = \<lambda>_. 0, le_key = ''k''\<rparr>"
  have wf: "core_wf one_line" using reachable_wf [OF one_line_reachable] .
  obtain kc' s1 where c: "Core_Close core0 one_line = Some (kc', s1)" "sh_ctx s1 \<noteq> None" "sh_running s1"
    using wf one_line_pending(2)
    by (auto simp: core_wf_def Core_Close_def core0_def NewKafkaCore_def chan_close_def)
  then obtain s2 where t: "logWorker_step ''logs'' ?env LogDone s1 = Some s2"
    by (auto simp: logWorker_step_def ctx_done_def)
  have "\<not> kc_closeOnce core0" by (simp add: core0_def NewKafkaCore_def)
  from close_loses_lines [OF this c(1) _ t] show ?thesis
    using c t one_line_pending(1) by (auto simp: chan_len_def)
qed

section \<open>What a message contains\<close>

lemma fold_update_map_of:
  "distinct (map fst fs) \<Longrightarrow>
   map_of (fold (\<lambda>(k, v) msg. if k \<in> K then msg else AList.update k v msg) fs base) k =
     (if k \<notin> K \<and> k \<in> fst ` set fs then map_of fs k else map_of base k)"
proof (induction fs arbitrary: base)
  case (Cons f fs)
  obtain k' v where f: "f = (k', v)" by fastforce
  then have "k' \<notin> fst ` set fs" using Cons.prems by simp
  then show ?case using Cons f by (auto simp: update_conv')
qed simp

text \<open>
  Fields win over the entry.  A key of the message has the value of the field of that name, unless it is one of the
  encoder's own keys, and otherwise the entry's; in particular a field named \<^verbatim>\<open>trace_id\<close> replaces the generated id.
\<close>

theorem log_message_keys:
  assumes "distinct (map fst fs)"
  shows "map_of (log_message en traceID (Some fs)) k =
    (if k \<notin> skipped_keys \<and> k \<in> fst ` set fs then map_of fs k else map_of (log_message en traceID None) k)"
  using fold_update_map_of [OF assms] by (simp add: log_message_def Let_def)

theorem log_message_keys_witness:
  "map_of (log_message entry0 ''generated'' (Some [(''trace_id'', JString ''app''), (''level'', JString ''x'')])) ''trace_id''
     = Some (JString ''app'')"
  using log_message_keys [of "[(''trace_id'', JString ''app''), (''level'', JString ''x'')]" entry0 "''generated''" "''trace_id''"]
  by (simp add: skipped_keys_def)

end
